(* ===== verification/Prelude.thy ===== *)
theory Prelude
  imports Main "HOL-Library.Word" "HOL-Library.Sublist"
begin

text \<open>
  The prelude of the development: what every component shares.

  \<^item> Go's \<^verbatim>\<open>string\<close> and \<^verbatim>\<open>[]byte\<close> are byte lists (\<^typ>\<open>string\<close>); the functions of the
    packages \<^verbatim>\<open>strings\<close> and \<^verbatim>\<open>bytes\<close> that the sources call are defined here under their own
    names. White space and letter case are the ASCII ones.
  \<^item> Go's \<^verbatim>\<open>error\<close> values: an API status with its reason, an error formatted by
    \<^verbatim>\<open>fmt.Errorf\<close> (format, arguments, the error wrapped by \<^verbatim>\<open>%w\<close>), the advisor's
    \<^verbatim>\<open>VMNotFoundError\<close>. The predicates of \<^verbatim>\<open>apierrors\<close> look through wrapped errors.
  \<^item> Programs that call the hub: functions from the state of the world to a result and the
    next state, composed by \<open>andThen\<close>, with Hoare triples that speak of both outcomes.
\<close>

named_theorems go_simps \<open>equations of the Go library functions\<close>
named_theorems hoare_rules \<open>Hoare rules for programs that call the hub\<close>
named_theorems prog_simps \<open>equations of the program combinators\<close>

section \<open>Strings and bytes\<close>

type_synonym bytes = string
type_synonym i64 = "64 word"

definition HasPrefix :: "string \<Rightarrow> string \<Rightarrow> bool" where
  "HasPrefix s p \<longleftrightarrow> take (length p) s = p"

definition HasSuffix :: "string \<Rightarrow> string \<Rightarrow> bool" where
  "HasSuffix s p \<longleftrightarrow> length p \<le> length s \<and> drop (length s - length p) s = p"

definition TrimSuffix :: "string \<Rightarrow> string \<Rightarrow> string" where
  "TrimSuffix s p = (if HasSuffix s p then take (length s - length p) s else s)"

definition is_space :: "char \<Rightarrow> bool" where
  "is_space c \<longleftrightarrow> c \<in> {CHR 0x09, CHR 0x0A, CHR 0x0B, CHR 0x0C, CHR 0x0D, CHR '' ''}"

definition TrimLeftFunc :: "(char \<Rightarrow> bool) \<Rightarrow> string \<Rightarrow> string" where
  "TrimLeftFunc p s = dropWhile p s"

definition TrimRightFunc :: "(char \<Rightarrow> bool) \<Rightarrow> string \<Rightarrow> string" where
  "TrimRightFunc p s = rev (dropWhile p (rev s))"

definition TrimSpace :: "string \<Rightarrow> string" where
  "TrimSpace s = TrimRightFunc is_space (TrimLeftFunc is_space s)"

definition to_lower :: "char \<Rightarrow> char" where
  "to_lower c = (if of_char c \<ge> (65::nat) \<and> of_char c \<le> (90::nat)
     then char_of (of_char c + 32 :: nat) else c)"

definition ToLower :: "string \<Rightarrow> string" where
  "ToLower s = map to_lower s"

definition EqualFold :: "string \<Rightarrow> string \<Rightarrow> bool" where
  "EqualFold s t \<longleftrightarrow> ToLower s = ToLower t"

text \<open>\<^verbatim>\<open>strings.Split\<close> on a one-byte separator: always at least one part.\<close>

fun SplitByte :: "char \<Rightarrow> string \<Rightarrow> string list" where
  "SplitByte c [] = [[]]"
| "SplitByte c (x # xs) =
     (if x = c then [] # SplitByte c xs
      else (case SplitByte c xs of [] \<Rightarrow> [[x]] | p # ps \<Rightarrow> (x # p) # ps))"

text \<open>\<^verbatim>\<open>strings.Fields\<close>: the maximal runs of bytes that are not white space.\<close>

function Fields :: "string \<Rightarrow> string list" where
  "Fields s =
     (case dropWhile is_space s of
        [] \<Rightarrow> []
      | x # xs \<Rightarrow> (x # takeWhile (\<lambda>c. \<not> is_space c) xs)
                   # Fields (dropWhile (\<lambda>c. \<not> is_space c) xs))"
  by pat_completeness auto
termination
proof (relation "measure length")
  fix s x xs
  assume "dropWhile is_space s = x # xs"
  then have "length (x # xs) \<le> length s" by (metis length_dropWhile_le)
  moreover have "length (dropWhile (\<lambda>c. \<not> is_space c) xs) \<le> length xs"
    by (rule length_dropWhile_le)
  ultimately show "(dropWhile (\<lambda>c. \<not> is_space c) xs, s) \<in> measure length" by simp
qed simp

text \<open>\<^verbatim>\<open>bytes.Index\<close>: the position of the first occurrence, \<^const>\<open>None\<close> for -1.\<close>

fun Index :: "bytes \<Rightarrow> bytes \<Rightarrow> nat option" where
  "Index [] p = (if p = [] then Some 0 else None)"
| "Index (x # xs) p =
     (if HasPrefix (x # xs) p then Some 0 else map_option Suc (Index xs p))"

text \<open>A key missing from a Go map reads as the zero value of the value type.\<close>

definition map_get :: "('k \<rightharpoonup> string) \<Rightarrow> 'k \<Rightarrow> string" where
  "map_get m k = (case m k of None \<Rightarrow> [] | Some v \<Rightarrow> v)"

declare Fields.simps [simp del]

lemma HasPrefix_iff: "HasPrefix s p \<longleftrightarrow> (\<exists>t. s = p @ t)"
  unfolding HasPrefix_def by (metis append_eq_conv_conj)

lemma HasSuffix_iff: "HasSuffix s p \<longleftrightarrow> (\<exists>t. s = t @ p)"
proof
  assume "HasSuffix s p"
  then have "s = take (length s - length p) s @ p"
    unfolding HasSuffix_def by (metis append_take_drop_id)
  then show "\<exists>t. s = t @ p" ..
qed (auto simp: HasSuffix_def)

lemma HasPrefix_append [simp, go_simps]: "HasPrefix (p @ t) p"
  by (auto simp: HasPrefix_iff)

lemma HasSuffix_append [simp, go_simps]: "HasSuffix (t @ p) p"
  by (auto simp: HasSuffix_iff)

lemma TrimSuffix_append [simp, go_simps]: "TrimSuffix (t @ p) p = t"
  by (simp add: TrimSuffix_def)

lemma TrimSuffix_HasSuffix: "HasSuffix s p \<Longrightarrow> TrimSuffix s p @ p = s"
  by (auto simp: HasSuffix_iff)

lemma HasPrefix_mono: "HasPrefix s p \<Longrightarrow> HasPrefix (s @ t) p"
  unfolding HasPrefix_iff by auto

lemma HasPrefix_length: "HasPrefix s p \<Longrightarrow> length p \<le> length s"
  by (auto simp: HasPrefix_iff)

lemma map_get_Some [simp]: "m k = Some v \<Longrightarrow> map_get m k = v"
  and map_get_None [simp]: "m k = None \<Longrightarrow> map_get m k = []"
  by (simp_all add: map_get_def)

lemma map_get_upd [simp]: "map_get (m(k \<mapsto> v)) k' = (if k' = k then v else map_get m k')"
  by (simp add: map_get_def)

lemma TrimSpace_Nil [simp]: "TrimSpace [] = []"
  by (simp add: TrimSpace_def TrimLeftFunc_def TrimRightFunc_def)

lemma TrimSpace_empty_iff: "TrimSpace s = [] \<longleftrightarrow> list_all is_space s"
proof -
  have "TrimSpace s = [] \<longleftrightarrow> (\<forall>x\<in>set (dropWhile is_space s). is_space x)"
    by (auto simp: TrimSpace_def TrimLeftFunc_def TrimRightFunc_def dropWhile_eq_Nil_conv)
  also have "\<dots> \<longleftrightarrow> list_all is_space s"
  proof (induction s)
    case (Cons c s)
    then show ?case by (cases "is_space c") auto
  qed simp
  finally show ?thesis .
qed

lemma list_all_is_space_append [simp]:
  "list_all is_space (s @ t) \<longleftrightarrow> list_all is_space s \<and> list_all is_space t"
  by simp

lemma TrimSpace_ends:
  assumes "TrimSpace s = c # t"
  shows "\<not> is_space c" and "\<not> is_space (last (c # t))"
proof -
  let ?d = "dropWhile is_space s"
  have rev: "rev (c # t) = dropWhile is_space (rev ?d)"
    using assms by (metis TrimLeftFunc_def TrimRightFunc_def TrimSpace_def rev_rev_ident)
  have ne: "dropWhile is_space (rev ?d) \<noteq> []" using rev by (metis list.discI rev_is_Nil_conv)
  then have "\<not> is_space (hd (dropWhile is_space (rev ?d)))" by (rule hd_dropWhile)
  then show "\<not> is_space (last (c # t))" using rev by (metis last_rev list.discI rev_rev_ident)
  have "?d \<noteq> []" using ne by (metis dropWhile.simps(1) rev.simps(1))
  then have hd: "\<not> is_space (hd ?d)" by (rule hd_dropWhile)
  have "rev ?d = takeWhile is_space (rev ?d) @ rev (c # t)"
    using rev by (metis takeWhile_dropWhile_id)
  then have "?d = (c # t) @ rev (takeWhile is_space (rev ?d))"
    by (metis rev_append rev_rev_ident)
  then have "hd ?d = c" by (metis append_Cons list.sel(1))
  then show "\<not> is_space c" using hd by simp
qed

lemma Index_Some_split:
  "Index s p = Some i \<Longrightarrow> i \<le> length s \<and> HasPrefix (drop i s) p"
proof (induction s arbitrary: i)
  case (Cons x xs)
  then show ?case by (auto split: if_splits)
qed (auto split: if_splits simp: HasPrefix_def)

lemma Index_append:
  "Index s p = Some i \<Longrightarrow> Index (s @ t) p = Some i"
proof (induction s arbitrary: i)
  case Nil
  then show ?case by (cases t) (auto split: if_splits simp: HasPrefix_def)
next
  case (Cons x xs)
  show ?case
  proof (cases "HasPrefix (x # xs) p")
    case True
    then have "HasPrefix ((x # xs) @ t) p" by (rule HasPrefix_mono)
    with True Cons.prems show ?thesis by simp
  next
    case False
    with Cons.prems obtain j where j: "Index xs p = Some j" "i = Suc j" by auto
    have "length p \<le> length xs"
      using Index_Some_split [OF j(1)] HasPrefix_length by fastforce
    then have "\<not> HasPrefix ((x # xs) @ t) p"
      using False by (cases p) (simp_all add: HasPrefix_def)
    with j Cons.IH [OF j(1)] show ?thesis by simp
  qed
qed

section \<open>Errors\<close>

datatype reason = NotFound | AlreadyExists | Forbidden | Unauthorized | NoMatch | OtherReason

datatype goerr =
    ApiStatus reason string
  | Errorf string "string list" "goerr option"
  | VMNotFoundError string "string list"
  | ContextErr

fun api_reason :: "goerr \<Rightarrow> reason option" where
  "api_reason (ApiStatus r m) = Some r"
| "api_reason (Errorf f as (Some e)) = api_reason e"
| "api_reason (Errorf f as None) = None"
| "api_reason (VMNotFoundError f as) = None"
| "api_reason ContextErr = None"

definition IsNotFound :: "goerr \<Rightarrow> bool" where
  "IsNotFound e \<longleftrightarrow> api_reason e = Some NotFound"

definition IsAlreadyExists :: "goerr \<Rightarrow> bool" where
  "IsAlreadyExists e \<longleftrightarrow> api_reason e = Some AlreadyExists"

definition IsForbidden :: "goerr \<Rightarrow> bool" where
  "IsForbidden e \<longleftrightarrow> api_reason e = Some Forbidden"

definition IsUnauthorized :: "goerr \<Rightarrow> bool" where
  "IsUnauthorized e \<longleftrightarrow> api_reason e = Some Unauthorized"

definition IsNoMatchError :: "goerr \<Rightarrow> bool" where
  "IsNoMatchError e \<longleftrightarrow> api_reason e = Some NoMatch"

text \<open>\<^verbatim>\<open>errors.As(err, &notFound)\<close> for the advisor's error type.\<close>

fun asVMNotFound :: "goerr \<Rightarrow> goerr option" where
  "asVMNotFound (VMNotFoundError f as) = Some (VMNotFoundError f as)"
| "asVMNotFound (Errorf f as (Some e)) = asVMNotFound e"
| "asVMNotFound e = None"

lemmas api_err_defs = IsNotFound_def IsAlreadyExists_def IsForbidden_def IsUnauthorized_def
  IsNoMatchError_def

section \<open>Programs that call the hub\<close>

type_synonym ('w, 'a) prog = "'w \<Rightarrow> (goerr + 'a) \<times> 'w"

definition ret :: "'a \<Rightarrow> ('w, 'a) prog" where
  "ret x w = (Inr x, w)"

definition fail :: "goerr \<Rightarrow> ('w, 'a) prog" where
  "fail e w = (Inl e, w)"

text \<open>\<open>andThen m f\<close>: run \<open>m\<close>; return its error, or go on with its value.\<close>

definition andThen :: "('w, 'a) prog \<Rightarrow> ('a \<Rightarrow> ('w, 'b) prog) \<Rightarrow> ('w, 'b) prog" where
  "andThen m f w = (case m w of (Inl e, w') \<Rightarrow> (Inl e, w') | (Inr x, w') \<Rightarrow> f x w')"

text \<open>\<open>onResult m f\<close>: run \<open>m\<close> and let \<open>f\<close> look at its error or value, as code that
  inspects \<^verbatim>\<open>err\<close> before it returns.\<close>

definition onResult :: "('w, 'a) prog \<Rightarrow> (goerr + 'a \<Rightarrow> ('w, 'b) prog) \<Rightarrow> ('w, 'b) prog" where
  "onResult m f w = (case m w of (r, w') \<Rightarrow> f r w')"

definition wrapErr :: "(goerr \<Rightarrow> goerr) \<Rightarrow> ('w, 'a) prog \<Rightarrow> ('w, 'a) prog" where
  "wrapErr g m = onResult m (\<lambda>r. case r of Inl e \<Rightarrow> fail (g e) | Inr x \<Rightarrow> ret x)"

lemmas prog_defs [prog_simps] = ret_def fail_def andThen_def onResult_def wrapErr_def

lemma andThen_assoc: "andThen (andThen m f) g = andThen m (\<lambda>x. andThen (f x) g)"
  by (auto simp: fun_eq_iff andThen_def split: prod.splits sum.splits)

lemma andThen_InrE:
  assumes "andThen m f w = (Inr y, w')"
  obtains x w1 where "m w = (Inr x, w1)" and "f x w1 = (Inr y, w')"
  using assms by (auto simp: andThen_def split: prod.splits sum.splits)

text \<open>A triple: from a state with \<open>P\<close>, a normal return establishes \<open>Q\<close> and an error
  return establishes \<open>E\<close>.\<close>

definition hoare ::
    "('w \<Rightarrow> bool) \<Rightarrow> ('w, 'a) prog \<Rightarrow> ('a \<Rightarrow> 'w \<Rightarrow> bool) \<Rightarrow> (goerr \<Rightarrow> 'w \<Rightarrow> bool) \<Rightarrow> bool" where
  "hoare P m Q E \<longleftrightarrow>
     (\<forall>w. P w \<longrightarrow> (case m w of (Inl e, w') \<Rightarrow> E e w' | (Inr x, w') \<Rightarrow> Q x w'))"

lemma hoareI:
  assumes "\<And>w e w'. P w \<Longrightarrow> m w = (Inl e, w') \<Longrightarrow> E e w'"
    and "\<And>w x w'. P w \<Longrightarrow> m w = (Inr x, w') \<Longrightarrow> Q x w'"
  shows "hoare P m Q E"
  unfolding hoare_def using assms by (auto split: prod.splits sum.splits)

lemma hoareD_ok: "hoare P m Q E \<Longrightarrow> P w \<Longrightarrow> m w = (Inr x, w') \<Longrightarrow> Q x w'"
  unfolding hoare_def by fastforce

lemma hoareD_err: "hoare P m Q E \<Longrightarrow> P w \<Longrightarrow> m w = (Inl e, w') \<Longrightarrow> E e w'"
  unfolding hoare_def by fastforce

lemma hoareD:
  "hoare P m Q E \<Longrightarrow> P w \<Longrightarrow> case m w of (Inl e, w') \<Rightarrow> E e w' | (Inr x, w') \<Rightarrow> Q x w'"
  unfolding hoare_def by (elim allE impE)

lemma hoareD_snd:
  assumes "hoare P m (\<lambda>_. Q) (\<lambda>_. Q)" and "P w"
  shows "Q (snd (m w))"
  using assms unfolding hoare_def by (fastforce split: prod.splits sum.splits)

lemma hoare_ret [hoare_rules]: "hoare (Q x) (ret x) Q E"
  by (simp add: hoare_def ret_def)

lemma hoare_fail [hoare_rules]: "hoare (E e) (fail e) Q E"
  by (simp add: hoare_def fail_def)

lemma hoare_conseq:
  assumes "hoare P' m Q' E'" and "\<And>w. P w \<Longrightarrow> P' w"
    and "\<And>x w. Q' x w \<Longrightarrow> Q x w" and "\<And>e w. E' e w \<Longrightarrow> E e w"
  shows "hoare P m Q E"
proof (rule hoareI)
  show "E e w'" if "P w" "m w = (Inl e, w')" for w e w'
    using assms(4) hoareD_err [OF assms(1)] assms(2) that by blast
  show "Q x w'" if "P w" "m w = (Inr x, w')" for w x w'
    using assms(3) hoareD_ok [OF assms(1)] assms(2) that by blast
qed

lemma hoare_pre: "hoare P' m Q E \<Longrightarrow> (\<And>w. P w \<Longrightarrow> P' w) \<Longrightarrow> hoare P m Q E"
  by (rule hoare_conseq)

lemma hoare_andThen [hoare_rules]:
  assumes "hoare P m R E" and "\<And>x. hoare (R x) (f x) Q E"
  shows "hoare P (andThen m f) Q E"
  unfolding hoare_def
proof (intro allI impI)
  fix w assume P: "P w"
  obtain r w1 where m: "m w = (r, w1)" by (cases "m w")
  show "case andThen m f w of (Inl e, w') \<Rightarrow> E e w' | (Inr x, w') \<Rightarrow> Q x w'"
  proof (cases r)
    case (Inl e)
    with m hoareD_err [OF assms(1) P] show ?thesis by (simp add: andThen_def)
  next
    case (Inr x)
    with m hoareD_ok [OF assms(1) P] have "R x w1" by simp
    then have "case f x w1 of (Inl e, w') \<Rightarrow> E e w' | (Inr x, w') \<Rightarrow> Q x w'"
      by (rule hoareD [OF assms(2)])
    with m Inr show ?thesis by (simp add: andThen_def)
  qed
qed

lemma hoare_onResult:
  assumes "hoare P m (\<lambda>x. R (Inr x)) (\<lambda>e. R (Inl e))" and "\<And>r. hoare (R r) (f r) Q E"
  shows "hoare P (onResult m f) Q E"
  unfolding hoare_def
proof (intro allI impI)
  fix w assume P: "P w"
  obtain r w1 where m: "m w = (r, w1)" by (cases "m w")
  have "R r w1"
    using m hoareD_err [OF assms(1) P] hoareD_ok [OF assms(1) P] by (cases r) auto
  then have "case f r w1 of (Inl e, w') \<Rightarrow> E e w' | (Inr x, w') \<Rightarrow> Q x w'"
    by (rule hoareD [OF assms(2)])
  with m show "case onResult m f w of (Inl e, w') \<Rightarrow> E e w' | (Inr x, w') \<Rightarrow> Q x w'"
    by (simp add: onResult_def)
qed

lemma hoare_if [hoare_rules]:
  assumes "b \<Longrightarrow> hoare P m Q E" and "\<not> b \<Longrightarrow> hoare P m' Q E"
  shows "hoare P (if b then m else m') Q E"
  using assms by simp

text \<open>An invariant of a program: kept on both outcomes.\<close>

definition keeps :: "('w \<Rightarrow> bool) \<Rightarrow> ('w, 'a) prog \<Rightarrow> bool" where
  "keeps I m \<longleftrightarrow> (\<forall>w. I w \<longrightarrow> I (snd (m w)))"

lemma keepsD: "keeps I m \<Longrightarrow> I w \<Longrightarrow> I (snd (m w))"
  by (simp add: keeps_def)

lemma keeps_ret [simp, intro]: "keeps I (ret x)"
  and keeps_fail [simp, intro]: "keeps I (fail e)"
  by (simp_all add: keeps_def ret_def fail_def)

lemma keeps_andThen [intro]:
  assumes "keeps I m" and "\<And>x. keeps I (f x)"
  shows "keeps I (andThen m f)"
  unfolding keeps_def andThen_def
proof (intro allI impI)
  fix w assume "I w"
  with assms(1) have "I (snd (m w))" by (rule keepsD)
  then show "I (snd (case m w of (Inl e, w') \<Rightarrow> (Inl e, w') | (Inr x, w') \<Rightarrow> f x w'))"
    using assms(2) by (auto simp: keeps_def split: prod.splits sum.splits)
qed

lemma keeps_onResult [intro]:
  assumes "keeps I m" and "\<And>r. keeps I (f r)"
  shows "keeps I (onResult m f)"
  unfolding keeps_def onResult_def
proof (intro allI impI)
  fix w assume "I w"
  with assms(1) have "I (snd (m w))" by (rule keepsD)
  then show "I (snd (case m w of (r, w') \<Rightarrow> f r w'))"
    using assms(2) by (auto simp: keeps_def split: prod.splits)
qed

lemma keeps_wrapErr [intro]: "keeps I m \<Longrightarrow> keeps I (wrapErr g m)"
  unfolding wrapErr_def by (rule keeps_onResult) (auto split: sum.split)

lemma keeps_if [intro]: "keeps I m \<Longrightarrow> keeps I m' \<Longrightarrow> keeps I (if b then m else m')"
  by simp

section \<open>Level-triggered operations\<close>

text \<open>
  Reconcilers run again and again on the same input. An operation that is idempotent gives
  after any positive number of runs what it gives after one.
\<close>

locale idempotent_op =
  fixes f :: "'a \<Rightarrow> 'a"
  assumes idem: "f (f x) = f x"
begin

lemma iterate: "(f ^^ Suc n) x = f x"
  by (induction n) (simp_all add: idem)

lemma fixpoint: "f x \<in> {y. f y = y}"
  by (simp add: idem)

end

end
