(* ===== verification/CaCert.thy ===== *)
theory CaCert
  imports Prelude
begin

text \<open>
  The CA bundle of the provider secret: \<^verbatim>\<open>controllers/cacert.go\<close>.

  \<^verbatim>\<open>encoding/pem\<close> and \<^verbatim>\<open>crypto/x509\<close> are parameters (the record \<open>pem_lib\<close>): the decoder of
  one block, the encoder, and whether a DER value parses as a certificate. A certificate is
  its \<^verbatim>\<open>Raw\<close> bytes. The locale \<open>pem_codec\<close> states what the code relies on of the two
  packages: the decoder returns a proper remainder of its input, further lines after the
  input do not change the block it finds, and it reads back what the encoder writes. Inside
  it the merge is proved to keep the custom authorities, to add the missing ones and to be
  idempotent.
\<close>

section \<open>The PEM and X.509 packages\<close>

record pem_block =
  blk_Type :: string
  blk_Headers :: "(string \<times> string) list"
  blk_Bytes :: bytes

record pem_lib =
  pem_Decode :: "bytes \<Rightarrow> (pem_block \<times> bytes) option"
  pem_EncodeToMemory :: "pem_block \<Rightarrow> bytes"
  x509_parses :: "bytes \<Rightarrow> bool"

definition cert_block :: "bytes \<Rightarrow> pem_block" where
  "cert_block der = \<lparr>blk_Type = ''CERTIFICATE'', blk_Headers = [], blk_Bytes = der\<rparr>"

definition pem_begin :: bytes where
  "pem_begin = ''-----BEGIN ''"

abbreviation NL :: char where
  "NL \<equiv> CHR 0x0A"

section \<open>The functions of cacert.go\<close>

text \<open>The loop of \<^verbatim>\<open>tlsCertsFromPEM\<close>; the fuel bounds the number of rounds, and
  \<open>pem_codec.loop_total\<close> shows that \<open>Suc (length rest)\<close> is always enough.\<close>

fun tlsCertsFromPEM_loop ::
    "pem_lib \<Rightarrow> nat \<Rightarrow> bytes \<Rightarrow> bytes list \<Rightarrow> bool \<Rightarrow> (bytes list \<times> bool) option" where
  "tlsCertsFromPEM_loop P 0 rest certs clean = None"
| "tlsCertsFromPEM_loop P (Suc n) rest certs clean =
     (if rest = [] then Some (certs, clean)
      else case Index rest pem_begin of
        None \<Rightarrow> Some (certs, if TrimSpace rest \<noteq> [] then False else clean)
      | Some begin \<Rightarrow>
          let clean1 = (if begin > 0 \<and> TrimSpace (take begin rest) \<noteq> [] then False else clean);
              rest1 = drop begin rest
          in case pem_Decode P rest1 of
               None \<Rightarrow> Some (certs, False)
             | Some (block, next) \<Rightarrow>
                 if blk_Type block \<noteq> ''CERTIFICATE'' \<or> length (blk_Headers block) \<noteq> 0
                 then tlsCertsFromPEM_loop P n next certs False
                 else if \<not> x509_parses P (blk_Bytes block)
                 then tlsCertsFromPEM_loop P n next certs False
                 else tlsCertsFromPEM_loop P n next (certs @ [blk_Bytes block]) clean1)"

definition is_trim_left :: "char \<Rightarrow> bool" where
  "is_trim_left c \<longleftrightarrow> c \<in> {CHR '' '', CHR 0x09, CHR 0x0A, CHR 0x0D}"

definition tlsCertsFromPEM :: "pem_lib \<Rightarrow> bytes \<Rightarrow> bytes list \<times> bool" where
  "tlsCertsFromPEM P data =
     (let rest = TrimLeftFunc is_trim_left data
      in if rest = [] then ([], False)
         else case tlsCertsFromPEM_loop P (Suc (length rest)) rest [] True of
                Some r \<Rightarrow> r
              | None \<Rightarrow> ([], False))"

fun encodeTLSCerts_loop :: "pem_lib \<Rightarrow> bytes list \<Rightarrow> bytes list \<Rightarrow> bytes \<Rightarrow> bytes" where
  "encodeTLSCerts_loop P seen [] out = out"
| "encodeTLSCerts_loop P seen (c # cs) out =
     (if c \<in> set seen then encodeTLSCerts_loop P seen cs out
      else encodeTLSCerts_loop P (c # seen) cs (out @ pem_EncodeToMemory P (cert_block c)))"

definition encodeTLSCerts :: "pem_lib \<Rightarrow> bytes list \<Rightarrow> bytes" where
  "encodeTLSCerts P certs = encodeTLSCerts_loop P [] certs []"

fun missing_loop :: "bytes list \<Rightarrow> bytes list \<Rightarrow> bytes list \<Rightarrow> bytes list" where
  "missing_loop have [] missing = missing"
| "missing_loop have (c # cs) missing =
     (if c \<in> set have then missing_loop have cs missing
      else missing_loop (c # have) cs (missing @ [c]))"

definition mergeCACert :: "pem_lib \<Rightarrow> bytes \<Rightarrow> bytes \<Rightarrow> bytes" where
  "mergeCACert P existing source =
     (if existing = [] then source
      else if existing = source then existing
      else let (existingCerts, existingClean) = tlsCertsFromPEM P existing;
               (sourceCerts, _) = tlsCertsFromPEM P source
           in if sourceCerts = [] \<or> existingCerts = [] then source
              else let missing = missing_loop existingCerts sourceCerts []
                   in if existingClean \<and> missing = [] then existing
                      else if existingClean
                      then (if HasSuffix existing [NL] then existing else existing @ [NL])
                           @ encodeTLSCerts P missing
                      else encodeTLSCerts P existingCerts
                           @ (if missing \<noteq> [] then encodeTLSCerts P missing else []))"

section \<open>Lists without repetitions\<close>

fun nub :: "'a list \<Rightarrow> 'a list \<Rightarrow> 'a list" where
  "nub seen [] = []"
| "nub seen (c # cs) = (if c \<in> set seen then nub seen cs else c # nub (c # seen) cs)"

lemma set_nub [simp]: "set (nub seen cs) = set cs - set seen"
  by (induction seen cs rule: nub.induct) auto

lemma distinct_nub [simp]: "distinct (nub seen cs)"
  by (induction seen cs rule: nub.induct) auto

lemma nub_distinct: "distinct cs \<Longrightarrow> set cs \<inter> set seen = {} \<Longrightarrow> nub seen cs = cs"
  by (induction seen cs rule: nub.induct) auto

lemma nub_Nil_iff [simp]: "nub seen cs = [] \<longleftrightarrow> set cs \<subseteq> set seen"
  by (metis Diff_eq_empty_iff set_empty set_nub)

lemma missing_loop_nub: "missing_loop have cs missing = missing @ nub have cs"
  by (induction "have" cs missing rule: missing_loop.induct) auto

lemma encodeTLSCerts_loop_nub:
  "encodeTLSCerts_loop P seen cs out =
     out @ concat (map (\<lambda>c. pem_EncodeToMemory P (cert_block c)) (nub seen cs))"
  by (induction P seen cs out rule: encodeTLSCerts_loop.induct) auto

lemma encodeTLSCerts_nub:
  "encodeTLSCerts P cs = concat (map (\<lambda>c. pem_EncodeToMemory P (cert_block c)) (nub [] cs))"
  by (simp add: encodeTLSCerts_def encodeTLSCerts_loop_nub)

section \<open>White space before a block\<close>

lemma pem_begin_Cons: "pem_begin = CHR ''-'' # ''----BEGIN ''"
  by (simp add: pem_begin_def)

lemma space_no_begin: "is_space c \<Longrightarrow> \<not> HasPrefix (c # s) pem_begin"
  by (auto simp: is_space_def pem_begin_def HasPrefix_def)

lemma Index_space: "list_all is_space s \<Longrightarrow> Index s pem_begin = None"
proof (induction s)
  case Nil
  show ?case by (simp add: pem_begin_def)
qed (simp add: space_no_begin)

lemma Index_space_begin:
  "list_all is_space s \<Longrightarrow> Index (s @ pem_begin @ t) pem_begin = Some (length s)"
proof (induction s)
  case Nil
  show ?case by (simp add: pem_begin_Cons flip: pem_begin_Cons)
    (simp add: pem_begin_def HasPrefix_def)
qed (auto simp: space_no_begin)

lemma Index_begin: "Index (pem_begin @ t) pem_begin = Some 0"
  using Index_space_begin [of "[]" t] by simp

lemma is_trim_left_space: "is_trim_left c \<Longrightarrow> is_space c"
  by (auto simp: is_trim_left_def is_space_def)

text \<open>The loop from the empty list of certificates, with enough fuel.\<close>

definition tls_run :: "pem_lib \<Rightarrow> bytes \<Rightarrow> bytes list \<times> bool" where
  "tls_run P rest = the (tlsCertsFromPEM_loop P (Suc (length rest)) rest [] True)"

definition encs :: "pem_lib \<Rightarrow> bytes list \<Rightarrow> bytes" where
  "encs P cs = concat (map (\<lambda>c. pem_EncodeToMemory P (cert_block c)) cs)"

section \<open>What the code relies on of the two packages\<close>

definition ends_nl :: "bytes \<Rightarrow> bool" where
  "ends_nl d \<longleftrightarrow> d \<noteq> [] \<and> last d = NL"

lemma ends_nl_HasSuffix: "HasSuffix d [NL] \<longleftrightarrow> ends_nl d"
  unfolding HasSuffix_iff ends_nl_def by (metis append_butlast_last_id last_snoc snoc_eq_iff_butlast)

lemma ends_nl_drop: "ends_nl (p @ r) \<Longrightarrow> r \<noteq> [] \<Longrightarrow> ends_nl r"
  by (simp add: ends_nl_def)

locale pem_codec =
  fixes P :: pem_lib
  assumes decode_rest: "pem_Decode P d = Some (b, r) \<Longrightarrow> \<exists>p. p \<noteq> [] \<and> d = p @ r"
    and decode_more_lines:
      "pem_Decode P d = Some (b, r) \<Longrightarrow> ends_nl d \<Longrightarrow> pem_Decode P (d @ x) = Some (b, r @ x)"
    and decode_last_newline:
      "pem_Decode P d = Some (b, r) \<Longrightarrow> \<not> ends_nl d \<Longrightarrow>
       pem_Decode P (d @ [NL]) = Some (b, if r = [] then [] else r @ [NL])"
    and encode_begin: "\<exists>t. pem_EncodeToMemory P (cert_block c) = pem_begin @ t"
    and encode_newline: "ends_nl (pem_EncodeToMemory P (cert_block c))"
    and decode_encode:
      "pem_Decode P (pem_EncodeToMemory P (cert_block c) @ x) = Some (cert_block c, x)"
begin

lemma decode_shorter: "pem_Decode P d = Some (b, r) \<Longrightarrow> length r < length d"
  using decode_rest by fastforce

text \<open>The loop always ends, and more fuel does not change its result.\<close>

lemma decode_fuel:
  "pem_Decode P (drop i rest) = Some (b, r) \<Longrightarrow> length rest < Suc n \<Longrightarrow> length r < n"
  using decode_shorter [of "drop i rest" b r] by simp

lemma loop_total:
  "length rest < n \<Longrightarrow> \<exists>r. tlsCertsFromPEM_loop P n rest certs clean = Some r"
proof (induction n arbitrary: rest certs clean)
  case (Suc n)
  show ?case
  proof (cases "Index rest pem_begin")
    case (Some i)
    show ?thesis
    proof (cases "pem_Decode P (drop i rest)")
      case (Some br)
      obtain b r where br: "br = (b, r)" by (cases br)
      have "length r < n" using decode_fuel Some br Suc.prems by blast
      then show ?thesis
        using Suc.IH \<open>Index rest pem_begin = Some i\<close> Some br by (simp add: Let_def)
    qed (use Some in \<open>auto simp: Let_def\<close>)
  qed simp
qed simp

lemma loop_acc:
  "tlsCertsFromPEM_loop P n rest certs clean =
     map_option (\<lambda>p. (certs @ fst p, clean \<and> snd p)) (tlsCertsFromPEM_loop P n rest [] True)"
proof (induction n arbitrary: rest certs clean)
  case (Suc n)
  have IH: "tlsCertsFromPEM_loop P n next cs cl =
      map_option (\<lambda>p. (cs @ fst p, cl \<and> snd p)) (tlsCertsFromPEM_loop P n next [] True)"
    for "next" cs cl by (rule Suc.IH)
  show ?case
  proof (cases "Index rest pem_begin")
    case (Some i)
    show ?thesis
    proof (cases "pem_Decode P (drop i rest)")
      case (Some br)
      obtain b r where br: "br = (b, r)" by (cases br)
      show ?thesis
        using \<open>Index rest pem_begin = Some i\<close> Some br
        by (simp add: Let_def IH [of r "_ @ _"] IH [of r _ False] IH [of r "[_]"]
              option.map_comp comp_def)
    qed (use Some in \<open>simp add: Let_def\<close>)
  qed simp
qed simp

lemma loop_fuel:
  "length rest < n \<Longrightarrow> length rest < m \<Longrightarrow>
   tlsCertsFromPEM_loop P n rest certs clean = tlsCertsFromPEM_loop P m rest certs clean"
proof (induction n arbitrary: m rest certs clean)
  case (Suc n)
  then obtain k where m: "m = Suc k" by (cases m) auto
  show ?case
  proof (cases "Index rest pem_begin")
    case (Some i)
    show ?thesis
    proof (cases "pem_Decode P (drop i rest)")
      case (Some br)
      obtain b r where br: "br = (b, r)" by (cases br)
      have "length r < n" "length r < k" using decode_fuel Some br Suc.prems m by blast+
      then show ?thesis
        using Suc.IH [of r k] \<open>Index rest pem_begin = Some i\<close> Some br m by (simp add: Let_def)
    qed (use Some m in \<open>simp add: Let_def\<close>)
  qed (use m in simp)
qed simp

text \<open>The loop as a recursion over the input.\<close>

lemma tls_run_eq: "length rest < n \<Longrightarrow> tlsCertsFromPEM_loop P n rest [] True = Some (tls_run P rest)"
  using loop_total [of rest n "[]" True] loop_fuel [of rest n "Suc (length rest)" "[]" True]
  by (auto simp: tls_run_def)

lemma tls_run_Nil [simp]: "tls_run P [] = ([], True)"
  by (simp add: tls_run_def)

lemma tls_run_no_begin:
  "Index rest pem_begin = None \<Longrightarrow> tls_run P rest = ([], list_all is_space rest)"
  by (auto simp: tls_run_def TrimSpace_empty_iff)

lemma tls_run_begin:
  assumes "Index rest pem_begin = Some i"
  shows "tls_run P rest =
     (case pem_Decode P (drop i rest) of
        None \<Rightarrow> ([], False)
      | Some (b, r) \<Rightarrow>
          if blk_Type b = ''CERTIFICATE'' \<and> blk_Headers b = [] \<and> x509_parses P (blk_Bytes b)
          then (blk_Bytes b # fst (tls_run P r), list_all is_space (take i rest) \<and> snd (tls_run P r))
          else (fst (tls_run P r), False))"
proof -
  have ne: "rest \<noteq> []" using assms by (auto simp: pem_begin_def)
  show ?thesis
  proof (cases "pem_Decode P (drop i rest)")
    case None
    with assms ne show ?thesis by (simp add: tls_run_def)
  next
    case (Some br)
    obtain b r where br: "br = (b, r)" by (cases br)
    have len: "length r < length rest" using decode_fuel [of i rest b r "length rest"] Some br by simp
    have run: "tlsCertsFromPEM_loop P (length rest) r cs cl =
        Some (cs @ fst (tls_run P r), cl \<and> snd (tls_run P r))" for cs cl
      by (subst loop_acc) (simp add: tls_run_eq [OF len])
    show ?thesis
      using assms ne Some br by (auto simp: tls_run_def [of P rest] run TrimSpace_empty_iff)
  qed
qed

lemma tlsCertsFromPEM_run:
  "tlsCertsFromPEM P data =
     (if TrimLeftFunc is_trim_left data = [] then ([], False)
      else tls_run P (TrimLeftFunc is_trim_left data))"
  by (simp add: tlsCertsFromPEM_def Let_def tls_run_eq del: tlsCertsFromPEM_loop.simps)

text \<open>Reading back encoded certificates.\<close>

lemma tls_run_encs:
  "list_all (x509_parses P) cs \<Longrightarrow>
   tls_run P (encs P cs @ x) = (cs @ fst (tls_run P x), snd (tls_run P x))"
proof (induction cs)
  case (Cons c cs)
  obtain t where "pem_EncodeToMemory P (cert_block c) = pem_begin @ t" using encode_begin by blast
  then have "Index (encs P (c # cs) @ x) pem_begin = Some 0"
    by (simp add: encs_def Index_begin)
  moreover have "pem_Decode P (encs P (c # cs) @ x) = Some (cert_block c, encs P cs @ x)"
    using decode_encode by (simp add: encs_def)
  ultimately show ?case
    using Cons by (simp add: tls_run_begin) (simp add: cert_block_def)
qed (simp add: encs_def)

lemma encs_begin: "cs \<noteq> [] \<Longrightarrow> \<exists>t. encs P cs = pem_begin @ t"
  using encode_begin by (cases cs) (auto simp: encs_def, metis append.assoc)

lemma tls_run_parses: "list_all (x509_parses P) (fst (tls_run P rest))"
proof (induction "length rest" arbitrary: rest rule: less_induct)
  case less
  show ?case
  proof (cases "Index rest pem_begin")
    case (Some i)
    have "list_all (x509_parses P) (fst (tls_run P r))" if "pem_Decode P (drop i rest) = Some (b, r)" for b r
      using less decode_fuel [OF that] by blast
    then show ?thesis using Some by (auto simp: tls_run_begin split: option.split)
  qed (simp add: tls_run_no_begin)
qed

text \<open>Appending to a clean bundle: a final newline, then encoded certificates.\<close>

lemma tls_run_clean_begin:
  assumes "snd (tls_run P rest)" and "Index rest pem_begin = Some i"
  obtains b r where "pem_Decode P (drop i rest) = Some (b, r)"
    and "blk_Type b = ''CERTIFICATE''" and "blk_Headers b = []" and "x509_parses P (blk_Bytes b)"
    and "list_all is_space (take i rest)" and "snd (tls_run P r)"
    and "fst (tls_run P rest) = blk_Bytes b # fst (tls_run P r)" and "length r < length rest"
proof -
  from assms obtain b r where d: "pem_Decode P (drop i rest) = Some (b, r)"
    by (auto simp: tls_run_begin split: option.splits)
  have "length r < length rest" using decode_fuel [OF d] by blast
  with assms d that show thesis by (auto simp: tls_run_begin split: if_splits)
qed

lemma Index_drop_append:
  assumes "Index e pem_begin = Some i"
  shows "Index (e @ x) pem_begin = Some i" and "drop i (e @ x) = drop i e @ x"
    and "take i (e @ x) = take i e" and "drop i e \<noteq> []"
proof -
  have "i \<le> length e" "HasPrefix (drop i e) pem_begin"
    using Index_Some_split [OF assms] by auto
  then show "drop i (e @ x) = drop i e @ x" "take i (e @ x) = take i e" "drop i e \<noteq> []"
    by (auto simp: HasPrefix_def pem_begin_def)
qed (rule Index_append [OF assms])

lemma tls_run_append_encs:
  assumes "snd (tls_run P e)" and "e = [] \<or> ends_nl e"
    and "list_all (x509_parses P) cs" and "cs \<noteq> []"
  shows "tls_run P (e @ encs P cs) = (fst (tls_run P e) @ cs, True)"
  using assms(1,2)
proof (induction "length e" arbitrary: e rule: less_induct)
  case less
  have encs: "tls_run P (encs P cs) = (cs, True)"
    using tls_run_encs [OF assms(3), of "[]"] by simp
  obtain t where t: "encs P cs = pem_begin @ t" using encs_begin [OF assms(4)] by blast
  show ?case
  proof (cases "Index e pem_begin")
    case None
    with less.prems have sp: "list_all is_space e" by (auto simp: tls_run_no_begin)
    then have "Index (e @ encs P cs) pem_begin = Some (length e)"
      using Index_space_begin t by simp
    moreover have "Index (encs P cs) pem_begin = Some 0" using t Index_begin by simp
    ultimately have "tls_run P (e @ encs P cs) = tls_run P (encs P cs)"
      using sp by (auto simp: tls_run_begin split: option.split)
    with encs None sp show ?thesis by (simp add: tls_run_no_begin)
  next
    case (Some i)
    from tls_run_clean_begin [OF less.prems(1) Some] obtain b r where
      d: "pem_Decode P (drop i e) = Some (b, r)" and b: "blk_Type b = ''CERTIFICATE''"
      "blk_Headers b = []" "x509_parses P (blk_Bytes b)" and sp: "list_all is_space (take i e)"
      and r: "snd (tls_run P r)" "fst (tls_run P e) = blk_Bytes b # fst (tls_run P r)"
      "length r < length e" by metis
    note app = Index_drop_append(1-3) [OF Some, of "encs P cs"] Index_drop_append(4) [OF Some]
    have nl: "ends_nl (drop i e)"
      using less.prems(2) app(4) ends_nl_drop by (metis append_take_drop_id drop_Nil)
    then have "r = [] \<or> ends_nl r" using decode_rest [OF d] ends_nl_drop by metis
    then have IH: "tls_run P (r @ encs P cs) = (fst (tls_run P r) @ cs, True)"
      using less.hyps r by blast
    have dec: "pem_Decode P (drop i (e @ encs P cs)) = Some (b, r @ encs P cs)"
      unfolding app(2) by (rule decode_more_lines [OF d nl])
    show ?thesis
      unfolding tls_run_begin [OF app(1)] dec app(3) using b sp IH r by simp
  qed
qed

lemma tls_run_append_newline:
  assumes "snd (tls_run P e)" and "\<not> ends_nl e"
  shows "tls_run P (e @ [NL]) = (fst (tls_run P e), True)"
  using assms
proof (induction "length e" arbitrary: e rule: less_induct)
  case less
  show ?case
  proof (cases "Index e pem_begin")
    case None
    with less.prems have sp: "list_all is_space (e @ [NL])"
      by (auto simp: tls_run_no_begin is_space_def)
    with None show ?thesis by (simp add: tls_run_no_begin Index_space)
  next
    case (Some i)
    from tls_run_clean_begin [OF less.prems(1) Some] obtain b r where
      d: "pem_Decode P (drop i e) = Some (b, r)" and b: "blk_Type b = ''CERTIFICATE''"
      "blk_Headers b = []" "x509_parses P (blk_Bytes b)" and sp: "list_all is_space (take i e)"
      and r: "snd (tls_run P r)" "fst (tls_run P e) = blk_Bytes b # fst (tls_run P r)"
      "length r < length e" by metis
    note app = Index_drop_append(1-3) [OF Some, of "[NL]"] Index_drop_append(4) [OF Some]
    have e: "e = take i e @ drop i e" by simp
    have nl: "\<not> ends_nl (drop i e)"
      using less.prems(2) app(4) e by (metis ends_nl_def last_appendR append_is_Nil_conv)
    have "\<not> ends_nl r" using decode_rest [OF d] nl by (auto simp: ends_nl_def)
    then have IH: "tls_run P (if r = [] then [] else r @ [NL]) = (fst (tls_run P r), True)"
      using less.hyps r by auto
    have "pem_Decode P (drop i (e @ [NL])) = Some (b, if r = [] then [] else r @ [NL])"
      using decode_last_newline [OF d nl] app(2) by simp
    with app(1,3) b sp IH r show ?thesis by (simp add: tls_run_begin)
  qed
qed

text \<open>The merge.\<close>

lemma trim_left_append:
  "TrimLeftFunc is_trim_left e \<noteq> [] \<Longrightarrow>
   TrimLeftFunc is_trim_left (e @ x) = TrimLeftFunc is_trim_left e @ x"
  by (induction e) (auto simp: TrimLeftFunc_def)

lemma trim_left_split: "\<exists>s. e = s @ TrimLeftFunc is_trim_left e"
  unfolding TrimLeftFunc_def by (metis takeWhile_dropWhile_id)

lemma trim_left_encs: "cs \<noteq> [] \<Longrightarrow> TrimLeftFunc is_trim_left (encs P cs @ x) = encs P cs @ x"
  using encs_begin [of cs] by (auto simp: TrimLeftFunc_def pem_begin_def is_trim_left_def)

lemma tlsCertsFromPEM_encs:
  assumes "list_all (x509_parses P) cs" and "cs \<noteq> []"
  shows "tlsCertsFromPEM P (encs P cs) = (cs, True)"
proof -
  have "encs P cs \<noteq> []" using encs_begin [OF assms(2)] by (auto simp: pem_begin_def)
  with trim_left_encs [OF assms(2), of "[]"] tls_run_encs [OF assms(1), of "[]"] show ?thesis
    by (simp add: tlsCertsFromPEM_run)
qed

lemma tlsCertsFromPEM_parses: "list_all (x509_parses P) (fst (tlsCertsFromPEM P d))"
  by (simp add: tlsCertsFromPEM_run tls_run_parses)

lemma tlsCertsFromPEM_append:
  assumes "tlsCertsFromPEM P e = (ec, True)"
    and "list_all (x509_parses P) cs" and "cs \<noteq> []"
  shows "tlsCertsFromPEM P ((if HasSuffix e [NL] then e else e @ [NL]) @ encs P cs) = (ec @ cs, True)"
proof -
  let ?t = "TrimLeftFunc is_trim_left"
  have t: "?t e \<noteq> []" and run: "tls_run P (?t e) = (ec, True)"
    using assms(1) by (auto simp: tlsCertsFromPEM_run split: if_splits)
  have nl: "ends_nl e \<longleftrightarrow> ends_nl (?t e)"
    using trim_left_split [of e] t by (metis ends_nl_def append_is_Nil_conv last_appendR)
  let ?e = "if ends_nl (?t e) then ?t e else ?t e @ [NL]"
  have "tls_run P ?e = (ec, True)" and "ends_nl ?e"
    using tls_run_append_newline [of "?t e"] run by (auto simp: ends_nl_def)
  then have "tls_run P (?e @ encs P cs) = (ec @ cs, True)"
    using tls_run_append_encs [of ?e cs] assms(2,3) by simp
  moreover have "?t ((if HasSuffix e [NL] then e else e @ [NL]) @ encs P cs) = ?e @ encs P cs"
    using trim_left_append [OF t] nl by (simp add: ends_nl_HasSuffix)
  ultimately show ?thesis using t by (simp add: tlsCertsFromPEM_run)
qed

text \<open>The four results of a merge.\<close>

lemma merge_result:
  assumes "e \<noteq> []" and "e \<noteq> s"
    and "tlsCertsFromPEM P e = (ec, clean)" and "tlsCertsFromPEM P s = (sc, c)"
    and "ec \<noteq> []" and "sc \<noteq> []"
  shows "tlsCertsFromPEM P (mergeCACert P e s) = ((if clean then ec else nub [] ec) @ nub ec sc, True)"
    and "mergeCACert P e s \<noteq> []"
proof -
  let ?m = "nub ec sc"
  have ok: "list_all (x509_parses P) ec" "list_all (x509_parses P) sc"
    using tlsCertsFromPEM_parses [of e] tlsCertsFromPEM_parses [of s] assms(3,4) by simp_all
  then have okm: "list_all (x509_parses P) ?m" "list_all (x509_parses P) (nub [] ec)"
    by (auto simp: list_all_iff)
  have enc: "encodeTLSCerts P ?m = encs P ?m" "encodeTLSCerts P ec = encs P (nub [] ec)"
    by (simp_all add: encodeTLSCerts_nub encs_def nub_distinct)
  have ne: "nub [] ec \<noteq> []" using assms(5) by simp
  have merge: "mergeCACert P e s =
      (if clean \<and> ?m = [] then e
       else if clean then (if HasSuffix e [NL] then e else e @ [NL]) @ encs P ?m
       else encs P (nub [] ec @ ?m))"
    using assms enc by (auto simp: mergeCACert_def missing_loop_nub encs_def Let_def)
  show certs: "tlsCertsFromPEM P (mergeCACert P e s) =
      ((if clean then ec else nub [] ec) @ ?m, True)"
    using tlsCertsFromPEM_append [of e ec ?m] tlsCertsFromPEM_encs [of "nub [] ec @ ?m"]
      okm ne assms(3) merge by auto
  then show "mergeCACert P e s \<noteq> []"
    using assms(5) ne by (auto simp: tlsCertsFromPEM_run TrimLeftFunc_def)
qed

lemma merge_noop:
  assumes "d \<noteq> []" and "tlsCertsFromPEM P d = (dc, True)" and "dc \<noteq> []"
    and "tlsCertsFromPEM P s = (sc, c)" and "sc \<noteq> []" and "set sc \<subseteq> set dc"
  shows "mergeCACert P d s = d"
  using assms by (simp add: mergeCACert_def missing_loop_nub)

lemma merge_idempotent: "mergeCACert P (mergeCACert P e s) s = mergeCACert P e s"
proof (cases "e = [] \<or> e = s \<or> fst (tlsCertsFromPEM P e) = [] \<or> fst (tlsCertsFromPEM P s) = []")
  case True
  then have "mergeCACert P e s = s"
    by (auto simp: mergeCACert_def split: prod.splits)
  then show ?thesis by (simp add: mergeCACert_def)
next
  case False
  obtain ec clean sc c where cs: "tlsCertsFromPEM P e = (ec, clean)" "tlsCertsFromPEM P s = (sc, c)"
    by (metis surj_pair)
  with False have e: "e \<noteq> []" "e \<noteq> s" "ec \<noteq> []" "sc \<noteq> []" by auto
  let ?o = "mergeCACert P e s"
  let ?oc = "(if clean then ec else nub [] ec) @ nub ec sc"
  have o: "tlsCertsFromPEM P ?o = (?oc, True)" "?o \<noteq> []"
    using merge_result [OF e(1,2) cs e(3,4)] by simp_all
  have "set sc \<subseteq> set ?oc" by auto
  moreover have "?oc \<noteq> []" using e(3) by simp
  ultimately show ?thesis
    using merge_noop [OF o(2,1) _ cs(2) e(4)] by blast
qed

end

section \<open>The contract of the merge\<close>

text \<open>
  What the provider secret relies on: \<open>merge current source\<close> holds every authority of the
  source, keeps the authorities that are already there, adds nothing else and settles after
  one application.
\<close>

locale ca_bundle =
  fixes certs :: "bytes \<Rightarrow> bytes list"
    and merge :: "bytes \<Rightarrow> bytes \<Rightarrow> bytes"
  assumes merge_empty: "merge [] s = s"
    and merge_same: "merge s s = s"
    and merge_idem: "merge (merge e s) s = merge e s"
    and merge_has_source: "set (certs s) \<subseteq> set (certs (merge e s))"
    and merge_keeps: "certs s \<noteq> [] \<Longrightarrow> set (certs e) \<subseteq> set (certs (merge e s))"
    and merge_only: "set (certs (merge e s)) \<subseteq> set (certs e) \<union> set (certs s)"
begin

lemma merge_certs: "certs s \<noteq> [] \<Longrightarrow> set (certs (merge e s)) = set (certs e) \<union> set (certs s)"
  using merge_has_source merge_keeps merge_only by blast

end

sublocale pem_codec \<subseteq> ca: ca_bundle "\<lambda>d. fst (tlsCertsFromPEM P d)" "mergeCACert P"
proof unfold_locales
  fix e s
  let ?C = "\<lambda>d. set (fst (tlsCertsFromPEM P d))"
  have certs: "?C (mergeCACert P e s) = (if fst (tlsCertsFromPEM P s) = [] then {} else ?C e \<union> ?C s)"
    if "e \<noteq> []" "e \<noteq> s" "fst (tlsCertsFromPEM P e) \<noteq> []" "fst (tlsCertsFromPEM P s) \<noteq> []"
  proof -
    obtain ec clean sc c where cs: "tlsCertsFromPEM P e = (ec, clean)" "tlsCertsFromPEM P s = (sc, c)"
      by (metis surj_pair)
    with that have "ec \<noteq> []" "sc \<noteq> []" by simp_all
    with merge_result(1) [OF that(1,2) cs] cs show ?thesis by auto
  qed
  have src: "mergeCACert P e s = s"
    if "e = [] \<or> e = s \<or> fst (tlsCertsFromPEM P e) = [] \<or> fst (tlsCertsFromPEM P s) = []"
    using that by (auto simp: mergeCACert_def split: prod.splits)
  show "mergeCACert P [] s = s" "mergeCACert P s s = s" by (simp_all add: mergeCACert_def)
  show "mergeCACert P (mergeCACert P e s) s = mergeCACert P e s" by (rule merge_idempotent)
  show "?C s \<subseteq> ?C (mergeCACert P e s)" 
    using certs src by (cases "e = [] \<or> e = s \<or> fst (tlsCertsFromPEM P e) = [] \<or>
      fst (tlsCertsFromPEM P s) = []") auto
  show "?C e \<subseteq> ?C (mergeCACert P e s)" if "fst (tlsCertsFromPEM P s) \<noteq> []"
    using certs src that by (cases "e = [] \<or> e = s \<or> fst (tlsCertsFromPEM P e) = []")
      (auto simp: tlsCertsFromPEM_def TrimLeftFunc_def)
  show "?C (mergeCACert P e s) \<subseteq> ?C e \<union> ?C s"
    using certs src by (cases "e = [] \<or> e = s \<or> fst (tlsCertsFromPEM P e) = [] \<or>
      fst (tlsCertsFromPEM P s) = []") auto
qed

context pem_codec
begin

lemmas certs_of_merge = ca.merge_certs

end

end
