(* ===== verification/PemRef.thy ===== *)
theory PemRef
  imports CaCert
begin

text \<open>
  An executable PEM codec in the strict textual encoding of RFC 7468: a \<^verbatim>\<open>BEGIN\<close> line, lines
  of at most 64 base64 characters, an \<^verbatim>\<open>END\<close> line, no headers; text around a block is
  skipped. It interprets \<open>pem_codec\<close>, so that the facts of the merge hold for an actual
  codec, and it is the instance the witnesses compute with.
\<close>

section \<open>Base64\<close>

definition b64_alphabet :: string where
  "b64_alphabet = ''ABCDEFGHIJKLMNOPQRSTUVWXYZabcdefghijklmnopqrstuvwxyz0123456789+/''"

definition b64_char :: "nat \<Rightarrow> char" where
  "b64_char n = b64_alphabet ! n"

fun position :: "'a \<Rightarrow> 'a list \<Rightarrow> nat option" where
  "position x [] = None"
| "position x (y # ys) = (if x = y then Some 0 else map_option Suc (position x ys))"

definition b64_val :: "char \<Rightarrow> nat option" where
  "b64_val c = position c b64_alphabet"

fun b64_encode :: "bytes \<Rightarrow> string" where
  "b64_encode [] = []"
| "b64_encode [a] =
     (let n = of_char a * 16 in [b64_char (n div 64), b64_char (n mod 64), CHR ''='', CHR ''=''])"
| "b64_encode [a, b] =
     (let n = (of_char a * 256 + of_char b) * 4
      in [b64_char (n div 4096), b64_char (n div 64 mod 64), b64_char (n mod 64), CHR ''=''])"
| "b64_encode (a # b # c # s) =
     (let n = (of_char a * 256 + of_char b) * 256 + of_char c
      in [b64_char (n div 262144), b64_char (n div 4096 mod 64), b64_char (n div 64 mod 64),
          b64_char (n mod 64)] @ b64_encode s)"

fun b64_decode :: "string \<Rightarrow> bytes option" where
  "b64_decode [] = Some []"
| "b64_decode (p # q # r # t # s) =
     (if s = [] \<and> r = CHR ''='' \<and> t = CHR ''='' then
        (case (b64_val p, b64_val q) of
           (Some v, Some w) \<Rightarrow> Some [char_of ((v * 64 + w) div 16)]
         | _ \<Rightarrow> None)
      else if s = [] \<and> t = CHR ''='' then
        (case (b64_val p, b64_val q, b64_val r) of
           (Some v, Some w, Some x) \<Rightarrow>
             (let n = (v * 64 + w) * 64 + x in Some [char_of (n div 1024), char_of (n div 4 mod 256)])
         | _ \<Rightarrow> None)
      else
        (case (b64_val p, b64_val q, b64_val r, b64_val t) of
           (Some v, Some w, Some x, Some y) \<Rightarrow>
             (let n = ((v * 64 + w) * 64 + x) * 64 + y
              in map_option (\<lambda>d. [char_of (n div 65536), char_of (n div 256 mod 256),
                                  char_of (n mod 256)] @ d) (b64_decode s))
         | _ \<Rightarrow> None))"
| "b64_decode _ = None"

lemma b64_table:
  "list_all (\<lambda>n. b64_val (b64_char n) = Some n \<and> b64_char n \<noteq> CHR ''='' \<and> b64_char n \<noteq> CHR ''-''
     \<and> b64_char n \<noteq> NL) [0..<64]"
  by code_simp

lemma b64_char:
  "n < 64 \<Longrightarrow> b64_val (b64_char n) = Some n" "n < 64 \<Longrightarrow> b64_char n \<noteq> CHR ''=''"
  "n < 64 \<Longrightarrow> b64_char n \<noteq> CHR ''-''" "n < 64 \<Longrightarrow> b64_char n \<noteq> NL"
  using b64_table by (auto simp: list_all_iff)

lemma byte_bound: "of_char c < (256 :: nat)"
proof -
  have "of_char (char_of (of_char c :: nat)) = (of_char c mod 256 :: nat)" by (rule of_char_of)
  then show ?thesis by simp
qed

lemma digits64: "(m div 64) * 64 + m mod 64 = (m :: nat)"
  by simp

lemma group3:
  assumes "c < (256 :: nat)" and n: "n = (a * 256 + b) * 256 + c" and "a < 256" "b < 256"
  shows "((n div 262144 * 64 + n div 4096 mod 64) * 64 + n div 64 mod 64) * 64 + n mod 64 = n"
    and "n div 65536 = a" and "n div 256 mod 256 = b" and "n mod 256 = c" and "n div 262144 < 64"
proof -
  have q: "n div 4096 = n div 64 div 64" "n div 262144 = n div 64 div 64 div 64"
    by (simp_all flip: div_mult2_eq)
  show "((n div 262144 * 64 + n div 4096 mod 64) * 64 + n div 64 mod 64) * 64 + n mod 64 = n"
    unfolding q digits64 ..
  have "((a * 256 + b) * 256 + c) div 256 = (a * 256 + b) + c div 256"
    by (rule div_mult_self3) simp
  moreover have "((a * 256 + b) * 256 + c) mod 256 = c mod 256" by (rule mod_mult_self3)
  ultimately have n256: "n div 256 = a * 256 + b" "n mod 256 = c" using assms(1) n by simp_all
  have "n div 65536 = n div 256 div 256" by (simp flip: div_mult2_eq)
  then show "n div 65536 = a" using n256 assms(4) by simp
  show "n div 256 mod 256 = b" "n mod 256 = c" using n256 assms(4) by simp_all
  have "n < 64 * 262144" using assms by simp
  then show "n div 262144 < 64" by (simp add: less_mult_imp_div_less)
qed

lemma group2:
  assumes "b < (256 :: nat)" and n: "n = (a * 256 + b) * 4" and "a < 256"
  shows "(n div 4096 * 64 + n div 64 mod 64) * 64 + n mod 64 = n"
    and "n div 1024 = a" and "n div 4 mod 256 = b" and "n div 4096 < 64"
proof -
  have q: "n div 4096 = n div 64 div 64" by (simp flip: div_mult2_eq)
  show "(n div 4096 * 64 + n div 64 mod 64) * 64 + n mod 64 = n" unfolding q digits64 ..
  have n4: "n div 4 = a * 256 + b" unfolding n by simp
  have "n div 1024 = n div 4 div 256" by (simp flip: div_mult2_eq)
  then show "n div 1024 = a" "n div 4 mod 256 = b" using n4 assms(1) by simp_all
  have "n < 64 * 4096" using assms by simp
  then show "n div 4096 < 64" by (simp add: less_mult_imp_div_less)
qed

lemma group1:
  assumes "a < (256 :: nat)" and n: "n = a * 16"
  shows "n div 64 * 64 + n mod 64 = n" and "n div 16 = a" and "n div 64 < 64"
proof -
  show "n div 64 * 64 + n mod 64 = n" by (rule digits64)
  show "n div 16 = a" "n div 64 < 64" using assms by (simp_all add: less_mult_imp_div_less)
qed

lemma char_of_mod: "m mod 256 = of_char c \<Longrightarrow> char_of (m :: nat) = c"
  by (metis char_of_mod_256 char_of_char)

lemma b64_roundtrip: "b64_decode (b64_encode s) = Some s"
proof (induction s rule: b64_encode.induct)
  case (2 a)
  obtain n where n: "n = of_char a * (16 :: nat)" by blast
  note g = group1 [OF byte_bound n]
  show ?case
    unfolding b64_encode.simps Let_def n [symmetric] using g by (simp add: b64_char del: div_mult_mod_eq)
next
  case (3 a b)
  obtain n where n: "n = (of_char a * 256 + of_char b) * (4 :: nat)" by blast
  note g = group2 [OF byte_bound n byte_bound]
  show ?case unfolding b64_encode.simps Let_def n [symmetric]
    using g char_of_mod [OF g(3)] by (simp add: b64_char Let_def)
next
  case (4 a b c s)
  obtain n where n: "n = (of_char a * 256 + of_char b) * 256 + (of_char c :: nat)" by blast
  note g = group3 [OF byte_bound n byte_bound byte_bound]
  show ?case unfolding b64_encode.simps Let_def n [symmetric]
    using g 4 char_of_mod [OF g(3)] char_of_mod [OF g(4)] by (simp add: b64_char Let_def)
qed simp

lemma b64_chars: "list_all (\<lambda>x. x \<noteq> NL \<and> x \<noteq> CHR ''-'') (b64_encode s)"
proof (induction s rule: b64_encode.induct)
  case (2 a)
  obtain n where n: "n = of_char a * (16 :: nat)" by blast
  note g = group1 [OF byte_bound n]
  show ?case unfolding b64_encode.simps Let_def n [symmetric] using g by (simp add: b64_char)
next
  case (3 a b)
  obtain n where n: "n = (of_char a * 256 + of_char b) * (4 :: nat)" by blast
  note g = group2 [OF byte_bound n byte_bound]
  show ?case unfolding b64_encode.simps Let_def n [symmetric] using g by (simp add: b64_char)
next
  case (4 a b c s)
  obtain n where n: "n = (of_char a * 256 + of_char b) * 256 + (of_char c :: nat)" by blast
  note g = group3 [OF byte_bound n byte_bound byte_bound]
  show ?case unfolding b64_encode.simps Let_def n [symmetric] using g 4 by (simp add: b64_char)
qed simp

section \<open>Lines and blocks\<close>

definition getLine :: "bytes \<Rightarrow> bytes \<times> bytes" where
  "getLine d = (takeWhile (\<lambda>c. c \<noteq> NL) d, tl (dropWhile (\<lambda>c. c \<noteq> NL) d))"

definition begin_line :: "string \<Rightarrow> bytes" where
  "begin_line t = pem_begin @ t @ ''-----''"

definition end_line :: "string \<Rightarrow> bytes" where
  "end_line t = ''-----END '' @ t @ ''-----''"

definition begin_type :: "bytes \<Rightarrow> string option" where
  "begin_type l =
     (if HasPrefix l pem_begin \<and> HasSuffix (drop (length pem_begin) l) ''-----''
      then Some (TrimSuffix (drop (length pem_begin) l) ''-----'') else None)"

lemma getLine_shorter: "(l, r) = getLine d \<Longrightarrow> d \<noteq> [] \<Longrightarrow> length r < length d"
proof -
  assume "(l, r) = getLine d" "d \<noteq> []"
  then have "length r = length (dropWhile (\<lambda>c. c \<noteq> NL) d) - 1" by (simp add: getLine_def)
  moreover have "length (dropWhile (\<lambda>c. c \<noteq> NL) d) \<le> length d" by (rule length_dropWhile_le)
  moreover have "0 < length d" using \<open>d \<noteq> []\<close> by simp
  ultimately show ?thesis by linarith
qed

function read_body :: "string \<Rightarrow> bytes \<Rightarrow> bytes \<Rightarrow> (bytes \<times> bytes) option" where
  "read_body t d acc =
     (if d = [] then None
      else let (l, r) = getLine d
           in if l = end_line t then map_option (\<lambda>b. (b, r)) (b64_decode acc)
              else if HasPrefix l ''-'' then None
              else read_body t r (acc @ l))"
  by pat_completeness auto
termination
  by (relation "measure (\<lambda>(t, d, acc). length d)") (auto dest: getLine_shorter)

function ref_decode :: "bytes \<Rightarrow> (pem_block \<times> bytes) option" where
  "ref_decode d =
     (if d = [] then None
      else let (l, r) = getLine d
           in case begin_type l of
                None \<Rightarrow> ref_decode r
              | Some t \<Rightarrow>
                  (case read_body t r [] of
                     Some (b, r') \<Rightarrow> Some (\<lparr>blk_Type = t, blk_Headers = [], blk_Bytes = b\<rparr>, r')
                   | None \<Rightarrow> ref_decode r))"
  by pat_completeness auto
termination
  by (relation "measure length") (auto dest: getLine_shorter)

fun chunks :: "string \<Rightarrow> bytes" where
  "chunks [] = []"
| "chunks (c # s) = take 64 (c # s) @ [NL] @ chunks (drop 63 s)"

definition ref_encode :: "pem_block \<Rightarrow> bytes" where
  "ref_encode b = begin_line (blk_Type b) @ [NL] @ chunks (b64_encode (blk_Bytes b))
     @ end_line (blk_Type b) @ [NL]"

definition pem_ref :: "(bytes \<Rightarrow> bool) \<Rightarrow> pem_lib" where
  "pem_ref x509 = \<lparr>pem_Decode = ref_decode, pem_EncodeToMemory = ref_encode, x509_parses = x509\<rparr>"

declare read_body.simps [simp del] ref_decode.simps [simp del]

section \<open>Appending text\<close>

lemma getLine_line [simp]: "NL \<notin> set l \<Longrightarrow> getLine (l @ NL # r) = (l, r)"
  unfolding getLine_def by (induction l) auto

lemma getLine_no_nl: "NL \<notin> set d \<Longrightarrow> getLine d = (d, [])"
  unfolding getLine_def by (induction d) auto

lemma getLine_split: "d \<noteq> [] \<Longrightarrow> \<exists>p. p \<noteq> [] \<and> d = p @ snd (getLine d)"
proof (cases "NL \<in> set d")
  case True
  then obtain l r where "d = l @ NL # r" "NL \<notin> set l" by (meson split_list_first)
  then show ?thesis by (intro exI [of _ "l @ [NL]"]) simp
next
  case False
  then have "getLine d = (d, [])" by (rule getLine_no_nl)
  moreover assume "d \<noteq> []"
  ultimately show ?thesis by simp
qed

lemma getLine_more: "ends_nl d \<Longrightarrow> getLine (d @ x) = (fst (getLine d), snd (getLine d) @ x)"
proof -
  assume "ends_nl d"
  then have "NL \<in> set d" unfolding ends_nl_def by (metis last_in_set)
  then obtain l r where "d = l @ NL # r" "NL \<notin> set l" by (meson split_list_first)
  then show ?thesis by simp
qed

lemma getLine_newline:
  assumes "\<not> ends_nl d" and "d \<noteq> []"
  shows "getLine (d @ [NL]) =
    (fst (getLine d), if snd (getLine d) = [] then [] else snd (getLine d) @ [NL])"
proof (cases "NL \<in> set d")
  case True
  then obtain l r where d: "d = l @ NL # r" "NL \<notin> set l" by (meson split_list_first)
  then have "r \<noteq> []" using assms by (auto simp: ends_nl_def)
  with d show ?thesis by simp
next
  case False
  then have "getLine d = (d, [])" by (rule getLine_no_nl)
  with False show ?thesis using getLine_line [of d "[]"] by simp
qed

lemma getLine_ends: "ends_nl d \<Longrightarrow> snd (getLine d) \<noteq> [] \<Longrightarrow> ends_nl (snd (getLine d))"
  using getLine_split [of d] ends_nl_drop [of _ "snd (getLine d)"] by (metis ends_nl_def)

lemma getLine_not_ends: "\<not> ends_nl d \<Longrightarrow> d \<noteq> [] \<Longrightarrow> \<not> ends_nl (snd (getLine d))"
  using getLine_split [of d] unfolding ends_nl_def by (metis append_is_Nil_conv last_appendR)

lemma begin_type_dash: "begin_type l = Some t \<Longrightarrow> HasPrefix l ''-''"
  by (auto simp: begin_type_def HasPrefix_iff pem_begin_def split: if_splits)

lemma ref_decode_ne: "ref_decode d = Some v \<Longrightarrow> d \<noteq> []"
  by (subst (asm) ref_decode.simps) (auto split: if_splits)

lemma ref_decode_skip:
  "ref_decode d = Some v \<Longrightarrow> \<not> HasPrefix (fst (getLine d)) ''-'' \<Longrightarrow> ref_decode (snd (getLine d)) = Some v"
  using begin_type_dash [of "fst (getLine d)"]
  by (subst (asm) ref_decode.simps) (auto split: if_splits option.splits prod.splits)

lemma read_body_rest: "read_body t d acc = Some (b, r) \<Longrightarrow> \<exists>p. p \<noteq> [] \<and> d = p @ r"
proof (induction t d acc rule: read_body.induct)
  case (1 t d acc)
  then have d: "d \<noteq> []" by (auto simp: read_body.simps [of t d])
  obtain l r1 where g: "getLine d = (l, r1)" by (cases "getLine d")
  obtain p where p: "p \<noteq> []" "d = p @ r1" using getLine_split [OF d] g by auto
  show ?case
  proof (cases "l = end_line t")
    case True
    then have "r = r1" using 1(2) d g by (auto simp: read_body.simps [of t d])
    with p show ?thesis by blast
  next
    case False
    then have "read_body t r1 (acc @ l) = Some (b, r)" and "\<not> HasPrefix l ''-''"
      using 1(2) d g by (auto simp: read_body.simps [of t d] split: if_splits)
    then obtain q where "r1 = q @ r" using 1(1) [OF d _ _ False] g by fastforce
    with p show ?thesis by (intro exI [of _ "p @ q"]) simp
  qed
qed

lemma read_body_more:
  "ends_nl d \<Longrightarrow> read_body t d acc = Some (b, r) \<Longrightarrow> read_body t (d @ x) acc = Some (b, r @ x)"
proof (induction t d acc rule: read_body.induct)
  case (1 t d acc)
  then have d: "d \<noteq> []" by (simp add: ends_nl_def)
  obtain l r1 where g: "getLine d = (l, r1)" by (cases "getLine d")
  have gx: "getLine (d @ x) = (l, r1 @ x)" using getLine_more [OF 1(2)] g by simp
  show ?case
  proof (cases "l = end_line t")
    case True
    then show ?thesis using 1(3) d g gx by (auto simp: read_body.simps [of t d] read_body.simps [of t "d @ x"])
  next
    case False
    then have body: "read_body t r1 (acc @ l) = Some (b, r)" and dash: "\<not> HasPrefix l ''-''"
      using 1(3) d g by (auto simp: read_body.simps [of t d] split: if_splits)
    then have "r1 \<noteq> []" using read_body_rest by fastforce
    then have "ends_nl r1" using getLine_ends [OF 1(2)] g by simp
    with 1(1) [OF d _ _ False dash _ body] g have "read_body t (r1 @ x) (acc @ l) = Some (b, r @ x)"
      by simp
    with gx d False dash show ?thesis by (simp add: read_body.simps [of t "d @ x"])
  qed
qed

lemma read_body_more_None:
  "ends_nl d \<Longrightarrow> ref_decode d = Some v \<Longrightarrow> read_body t d acc = None \<Longrightarrow> read_body t (d @ x) acc = None"
proof (induction t d acc rule: read_body.induct)
  case (1 t d acc)
  then have d: "d \<noteq> []" by (simp add: ends_nl_def)
  obtain l r1 where g: "getLine d = (l, r1)" by (cases "getLine d")
  have gx: "getLine (d @ x) = (l, r1 @ x)" using getLine_more [OF 1(2)] g by simp
  show ?case
  proof (cases "l = end_line t \<or> HasPrefix l ''-''")
    case True
    then show ?thesis using 1(4) d g gx
      by (auto simp: read_body.simps [of t d] read_body.simps [of t "d @ x"] split: if_splits)
  next
    case False
    then have body: "read_body t r1 (acc @ l) = None" using 1(4) d g by (simp add: read_body.simps [of t d])
    have r1: "ref_decode r1 = Some v" using ref_decode_skip [OF 1(3)] g False by simp
    then have "ends_nl r1" using getLine_ends [OF 1(2)] g ref_decode_ne by simp
    then have "read_body t (r1 @ x) (acc @ l) = None" using 1(1) [OF d _ _ _ _ _ r1 body] g False by simp
    with gx d False show ?thesis by (simp add: read_body.simps [of t "d @ x"])
  qed
qed

abbreviation close_line :: "bytes \<Rightarrow> bytes" where
  "close_line r \<equiv> (if r = [] then [] else r @ [NL])"

lemma read_body_newline:
  "\<not> ends_nl d \<Longrightarrow> read_body t d acc = Some (b, r) \<Longrightarrow> read_body t (d @ [NL]) acc = Some (b, close_line r)"
proof (induction t d acc rule: read_body.induct)
  case (1 t d acc)
  then have d: "d \<noteq> []" using read_body_rest by fastforce
  obtain l r1 where g: "getLine d = (l, r1)" by (cases "getLine d")
  have gx: "getLine (d @ [NL]) = (l, close_line r1)" using getLine_newline [OF 1(2) d] g by simp
  show ?case
  proof (cases "l = end_line t")
    case True
    then show ?thesis using 1(3) d g gx
      by (auto simp: read_body.simps [of t d] read_body.simps [of t "d @ [NL]"])
  next
    case False
    then have body: "read_body t r1 (acc @ l) = Some (b, r)" and dash: "\<not> HasPrefix l ''-''"
      using 1(3) d g by (auto simp: read_body.simps [of t d] split: if_splits)
    then have ne: "r1 \<noteq> []" using read_body_rest by fastforce
    have "\<not> ends_nl r1" using getLine_not_ends [OF 1(2) d] g by simp
    then have "read_body t (r1 @ [NL]) (acc @ l) = Some (b, close_line r)"
      using 1(1) [OF d _ _ False dash _ body] g by simp
    with gx d ne False dash show ?thesis by (simp add: read_body.simps [of t "d @ [NL]"])
  qed
qed

lemma read_body_newline_None:
  "\<not> ends_nl d \<Longrightarrow> ref_decode d = Some v \<Longrightarrow> read_body t d acc = None \<Longrightarrow>
   read_body t (d @ [NL]) acc = None"
proof (induction t d acc rule: read_body.induct)
  case (1 t d acc)
  then have d: "d \<noteq> []" using ref_decode_ne by blast
  obtain l r1 where g: "getLine d = (l, r1)" by (cases "getLine d")
  have gx: "getLine (d @ [NL]) = (l, close_line r1)" using getLine_newline [OF 1(2) d] g by simp
  show ?case
  proof (cases "l = end_line t \<or> HasPrefix l ''-''")
    case True
    then show ?thesis using 1(4) d g gx
      by (auto simp: read_body.simps [of t d] read_body.simps [of t "d @ [NL]"] split: if_splits)
  next
    case False
    then have body: "read_body t r1 (acc @ l) = None" using 1(4) d g by (simp add: read_body.simps [of t d])
    have r1: "ref_decode r1 = Some v" using ref_decode_skip [OF 1(3)] g False by simp
    have "\<not> ends_nl r1" using getLine_not_ends [OF 1(2) d] g by simp
    then have "read_body t (r1 @ [NL]) (acc @ l) = None"
      using 1(1) [OF d _ _ _ _ _ r1 body] g False by simp
    with gx d False ref_decode_ne [OF r1] show ?thesis by (simp add: read_body.simps [of t "d @ [NL]"])
  qed
qed

lemma ref_decode_cases:
  assumes "ref_decode d = Some v" and "getLine d = (l, r)"
  obtains (body) t b r' where "begin_type l = Some t" and "read_body t r [] = Some (b, r')"
      and "v = (\<lparr>blk_Type = t, blk_Headers = [], blk_Bytes = b\<rparr>, r')"
  | (failed) t where "begin_type l = Some t" and "read_body t r [] = None" and "ref_decode r = Some v"
  | (skip) "begin_type l = None" and "ref_decode r = Some v"
  using assms by (subst (asm) ref_decode.simps) (auto split: if_splits option.splits)

lemma ref_decode_induct [consumes 1, case_names body failed skip]:
  assumes "ref_decode d = Some v"
    and body: "\<And>d l r t b r'. d \<noteq> [] \<Longrightarrow> getLine d = (l, r) \<Longrightarrow> begin_type l = Some t \<Longrightarrow>
      read_body t r [] = Some (b, r') \<Longrightarrow>
      v = (\<lparr>blk_Type = t, blk_Headers = [], blk_Bytes = b\<rparr>, r') \<Longrightarrow> Q d"
    and failed: "\<And>d l r t. d \<noteq> [] \<Longrightarrow> getLine d = (l, r) \<Longrightarrow> begin_type l = Some t \<Longrightarrow>
      read_body t r [] = None \<Longrightarrow> ref_decode r = Some v \<Longrightarrow> Q r \<Longrightarrow> Q d"
    and skip: "\<And>d l r. d \<noteq> [] \<Longrightarrow> getLine d = (l, r) \<Longrightarrow> begin_type l = None \<Longrightarrow>
      ref_decode r = Some v \<Longrightarrow> Q r \<Longrightarrow> Q d"
  shows "Q d"
  using assms(1)
proof (induction "length d" arbitrary: d rule: less_induct)
  case less
  obtain l r where g: "getLine d = (l, r)" by (cases "getLine d")
  have d: "d \<noteq> []" using ref_decode_ne less.prems by blast
  have r: "ref_decode r = Some v \<Longrightarrow> Q r" using less.hyps getLine_shorter [of l r d] g d by simp
  from less.prems g show ?case
    by (cases rule: ref_decode_cases) (use body failed skip d g r in blast)+
qed

lemma ref_decode_rest: "ref_decode d = Some (b, r) \<Longrightarrow> \<exists>p. p \<noteq> [] \<and> d = p @ r"
proof (induction rule: ref_decode_induct)
  case (body d l r1 t bs r')
  obtain p q where "d = p @ r1" "p \<noteq> []" "r1 = q @ r"
    using getLine_split [OF body(1)] read_body_rest [OF body(4)] body by fastforce
  then show ?case by (intro exI [of _ "p @ q"]) simp
next
  case (failed d l r1 t)
  obtain p q where "d = p @ r1" "p \<noteq> []" "r1 = q @ r"
    using getLine_split [OF failed(1)] failed by fastforce
  then show ?case by (intro exI [of _ "p @ q"]) simp
next
  case (skip d l r1)
  obtain p q where "d = p @ r1" "p \<noteq> []" "r1 = q @ r"
    using getLine_split [OF skip(1)] skip by fastforce
  then show ?case by (intro exI [of _ "p @ q"]) simp
qed

lemma ref_decode_more:
  "ref_decode d = Some (b, r) \<Longrightarrow> ends_nl d \<Longrightarrow> ref_decode (d @ x) = Some (b, r @ x)"
proof (induction rule: ref_decode_induct)
  case (body d l r1 t bs r')
  have "r1 \<noteq> []" using read_body_rest [OF body(4)] by auto
  then have "ends_nl r1" using getLine_ends [OF body(6)] body(2) by simp
  then have "read_body t (r1 @ x) [] = Some (bs, r' @ x)" using read_body_more body(4) by blast
  with body getLine_more [OF body(6)] show ?case by (subst ref_decode.simps) simp
next
  case (failed d l r1 t)
  have "ends_nl r1" using getLine_ends [OF failed(7)] failed(2,5) ref_decode_ne by auto
  with failed read_body_more_None getLine_more [OF failed(7)] show ?case
    by (subst ref_decode.simps) simp
next
  case (skip d l r1)
  have "ends_nl r1" using getLine_ends [OF skip(6)] skip(2,4) ref_decode_ne by auto
  with skip getLine_more [OF skip(6)] show ?case by (subst ref_decode.simps) simp
qed

lemma ref_decode_newline:
  "ref_decode d = Some (b, r) \<Longrightarrow> \<not> ends_nl d \<Longrightarrow> ref_decode (d @ [NL]) = Some (b, close_line r)"
proof (induction rule: ref_decode_induct)
  case (body d l r1 t bs r')
  have ne: "r1 \<noteq> []" using read_body_rest [OF body(4)] by auto
  have "\<not> ends_nl r1" using getLine_not_ends [OF body(6,1)] body(2) by simp
  then have "read_body t (r1 @ [NL]) [] = Some (bs, close_line r')" using read_body_newline body(4) by blast
  with body ne getLine_newline [OF body(6,1)] show ?case by (subst ref_decode.simps) simp
next
  case (failed d l r1 t)
  have "\<not> ends_nl r1" using getLine_not_ends [OF failed(7,1)] failed(2) by simp
  with failed read_body_newline_None ref_decode_ne [OF failed(5)] getLine_newline [OF failed(7,1)]
  show ?case by (subst ref_decode.simps) simp
next
  case (skip d l r1)
  have "\<not> ends_nl r1" using getLine_not_ends [OF skip(6,1)] skip(2) by simp
  with skip ref_decode_ne [OF skip(4)] getLine_newline [OF skip(6,1)]
  show ?case by (subst ref_decode.simps) simp
qed

section \<open>Reading back\<close>

lemma read_body_chunks:
  "list_all (\<lambda>x. x \<noteq> NL \<and> x \<noteq> CHR ''-'') s \<Longrightarrow>
   read_body t (chunks s @ d) acc = read_body t d (acc @ s)"
proof (induction s arbitrary: acc rule: chunks.induct)
  case (2 c s)
  let ?l = "take 64 (c # s)"
  have l: "NL \<notin> set ?l" "\<not> HasPrefix ?l ''-''" "?l \<noteq> end_line t"
    using 2(2) by (auto simp: list_all_iff HasPrefix_def end_line_def dest: in_set_takeD)
  have "list_all (\<lambda>x. x \<noteq> NL \<and> x \<noteq> CHR ''-'') (drop 63 s)"
    using 2(2) by (auto simp: list_all_iff dest: in_set_dropD)
  then have "read_body t (chunks (drop 63 s) @ d) (acc @ ?l) = read_body t d ((acc @ ?l) @ drop 63 s)"
    by (rule 2(1))
  moreover have "read_body t (chunks (c # s) @ d) acc = read_body t (chunks (drop 63 s) @ d) (acc @ ?l)"
    using l getLine_line [OF l(1), of "chunks (drop 63 s) @ d"] by (subst read_body.simps) simp
  ultimately show ?case by simp
qed simp

lemma ref_decode_encode:
  assumes "NL \<notin> set (blk_Type b)" and "blk_Headers b = []"
  shows "ref_decode (ref_encode b @ x) = Some (b, x)"
proof -
  let ?t = "blk_Type b"
  have bt: "begin_type (begin_line ?t) = Some ?t"
    by (simp add: begin_type_def begin_line_def)
  have nl: "NL \<notin> set (begin_line ?t)" "NL \<notin> set (end_line ?t)"
    using assms(1) by (auto simp: begin_line_def end_line_def pem_begin_def)
  have "read_body ?t (chunks (b64_encode (blk_Bytes b)) @ end_line ?t @ NL # x) [] = Some (blk_Bytes b, x)"
    using nl(2) by (simp add: read_body_chunks [OF b64_chars] read_body.simps [of _ "end_line _ @ _"]
        b64_roundtrip)
  moreover have "getLine (ref_encode b @ x) =
      (begin_line ?t, chunks (b64_encode (blk_Bytes b)) @ end_line ?t @ NL # x)"
    using getLine_line [OF nl(1)] by (simp add: ref_encode_def)
  moreover have "ref_encode b \<noteq> []" by (simp add: ref_encode_def)
  ultimately show ?thesis
    using bt assms(2) by (subst ref_decode.simps) simp
qed

interpretation pem_ref: pem_codec "pem_ref x509" for x509
proof unfold_locales
  fix c d b r x
  show "\<exists>t. pem_EncodeToMemory (pem_ref x509) (cert_block c) = pem_begin @ t"
    by (simp add: pem_ref_def ref_encode_def begin_line_def)
  show "ends_nl (pem_EncodeToMemory (pem_ref x509) (cert_block c))"
    by (simp add: pem_ref_def ref_encode_def ends_nl_def)
  show "pem_Decode (pem_ref x509) (pem_EncodeToMemory (pem_ref x509) (cert_block c) @ x) =
      Some (cert_block c, x)"
    using ref_decode_encode [of "cert_block c" x] by (simp add: pem_ref_def cert_block_def)
  assume "pem_Decode (pem_ref x509) d = Some (b, r)"
  then have d: "ref_decode d = Some (b, r)" by (simp add: pem_ref_def)
  show "\<exists>p. p \<noteq> [] \<and> d = p @ r" by (rule ref_decode_rest [OF d])
  show "ends_nl d \<Longrightarrow> pem_Decode (pem_ref x509) (d @ x) = Some (b, r @ x)"
    using ref_decode_more [OF d] by (simp add: pem_ref_def)
  show "\<not> ends_nl d \<Longrightarrow>
      pem_Decode (pem_ref x509) (d @ [NL]) = Some (b, if r = [] then [] else r @ [NL])"
    using ref_decode_newline [OF d] by (simp add: pem_ref_def)
qed

end
