(* ===== verification/CaCertProps.thy ===== *)
theory CaCertProps
  imports PemRef
begin

text \<open>
  The properties of the CA bundle of \<^verbatim>\<open>controllers/cacert.go\<close>, for every PEM package with the
  laws of \<open>pem_codec\<close>, and their witnesses on the executable codec \<open>pem_ref\<close>.
\<close>

interpretation merge_step: idempotent_op "\<lambda>e. mergeCACert (pem_ref x509) e s" for x509 s
  by unfold_locales (rule pem_ref.merge_idempotent)

text \<open>The inputs of the witnesses: one encoded certificate per DER value.\<close>

definition pem_of :: "bytes list \<Rightarrow> bytes" where
  "pem_of cs = encs (pem_ref (\<lambda>_. True)) cs"

lemma certs_pem_of: "cs \<noteq> [] \<Longrightarrow> tlsCertsFromPEM (pem_ref (\<lambda>_. True)) (pem_of cs) = (cs, True)"
  unfolding pem_of_def
  by (rule pem_ref.tlsCertsFromPEM_encs) (simp_all add: pem_ref_def list_all_iff)

lemma pem_ref_x509: "x509_parses (pem_ref x509) = x509"
  by (simp add: pem_ref_def)

lemmas pem_ref_laws = pem_ref.pem_codec_axioms

section \<open>Merging\<close>

text \<open>C9: after a merge with a source that holds a certificate, the bundle holds exactly the
  certificates that were there and those of the source: custom authorities survive and the
  authority of the service account is always trusted.\<close>

theorem merge_union:
  assumes "pem_codec P" and "fst (tlsCertsFromPEM P source) \<noteq> []"
  shows "set (fst (tlsCertsFromPEM P (mergeCACert P existing source))) =
     set (fst (tlsCertsFromPEM P existing)) \<union> set (fst (tlsCertsFromPEM P source))"
  using pem_codec.certs_of_merge [OF assms] .

theorem merge_union_witness:
  "set (fst (tlsCertsFromPEM (pem_ref (\<lambda>_. True))
     (mergeCACert (pem_ref (\<lambda>_. True)) (pem_of [''old'', ''custom'']) (pem_of [''new''])))) =
   {''old'', ''custom'', ''new''}"
  using merge_union [OF pem_ref_laws, of "\<lambda>_. True" "pem_of [''new'']" "pem_of [''old'', ''custom'']"]
  by (auto simp: certs_pem_of)

text \<open>A source without a usable certificate replaces the bundle: the custom authorities are lost.\<close>

lemma source_without_certificate:
  assumes "fst (tlsCertsFromPEM P source) = []" and "existing \<noteq> []"
  shows "mergeCACert P existing source = source"
  using assms by (auto simp: mergeCACert_def split: prod.splits)

text \<open>C25: merging the same source again changes nothing, whatever the bundle held, so a
  second reconciliation does not write the secret.\<close>

theorem merge_settles:
  assumes "pem_codec P"
  shows "mergeCACert P (mergeCACert P existing source) source = mergeCACert P existing source"
  using pem_codec.merge_idempotent [OF assms] .

theorem merge_settles_witness:
  "mergeCACert (pem_ref (\<lambda>_. True))
     (mergeCACert (pem_ref (\<lambda>_. True)) ''junk'' (pem_of [''new''])) (pem_of [''new'']) =
   pem_of [''new'']"
proof -
  have "mergeCACert (pem_ref (\<lambda>_. True)) ''junk'' (pem_of [''new'']) = pem_of [''new'']"
  proof -
    have "tlsCertsFromPEM (pem_ref (\<lambda>_. True)) ''junk'' = ([], False)" by code_simp
    then show ?thesis by (simp add: mergeCACert_def split: prod.splits)
  qed
  with merge_settles [OF pem_ref_laws, of "\<lambda>_. True" "''junk''" "pem_of [''new'']"]
  show ?thesis by simp
qed

text \<open>A bundle that is clean (only parsable certificates and white space) is kept byte for
  byte as a prefix of the merged bundle; the merged bundle of two bundles with certificates
  is always clean, lists the existing certificates first and repeats no missing one.\<close>

theorem merge_layout:
  assumes "pem_codec P" and "existing \<noteq> []" and "existing \<noteq> source"
    and "tlsCertsFromPEM P existing = (ec, clean)" and "ec \<noteq> []"
    and "fst (tlsCertsFromPEM P source) \<noteq> []"
  shows "tlsCertsFromPEM P (mergeCACert P existing source) =
     ((if clean then ec else nub [] ec) @ nub ec (fst (tlsCertsFromPEM P source)), True) \<and>
     (clean \<longrightarrow> prefix existing (mergeCACert P existing source))"
proof -
  obtain sc c where s: "tlsCertsFromPEM P source = (sc, c)" by (cases "tlsCertsFromPEM P source")
  have "prefix existing (mergeCACert P existing source)" if clean
    using that assms s by (auto simp: mergeCACert_def Let_def)
  with pem_codec.merge_result(1) [OF assms(1-4) s assms(5)] s assms(6) show ?thesis by simp
qed

theorem merge_layout_witness:
  "fst (tlsCertsFromPEM (pem_ref (\<lambda>_. True))
     (mergeCACert (pem_ref (\<lambda>_. True)) (pem_of [''a'', ''b'']) (pem_of [''b'', ''c'', ''c'']))) =
   [''a'', ''b'', ''c'']"
proof -
  have "pem_of [''a'', ''b''] \<noteq> []" "pem_of [''a'', ''b''] \<noteq> pem_of [''b'', ''c'', ''c'']"
    using certs_pem_of [of "[''a'', ''b'']"] certs_pem_of [of "[''b'', ''c'', ''c'']"]
    by (auto simp: tlsCertsFromPEM_def TrimLeftFunc_def)
  from merge_layout [OF pem_ref_laws this] show ?thesis by (simp add: certs_pem_of)
qed

section \<open>Reading and writing bundles\<close>

text \<open>C26: parsing an encoded list of certificates gives the list back, each certificate once,
  and reports the bundle as clean.\<close>

theorem encode_roundtrip:
  assumes "pem_codec P" and "cs \<noteq> []" and "list_all (x509_parses P) cs"
  shows "tlsCertsFromPEM P (encodeTLSCerts P cs) = (nub [] cs, True)"
proof -
  have "list_all (x509_parses P) (nub [] cs)" and "nub [] cs \<noteq> []"
    using assms(2,3) by (auto simp: list_all_iff)
  from pem_codec.tlsCertsFromPEM_encs [OF assms(1) this(1,2)] show ?thesis
    by (simp add: encodeTLSCerts_nub encs_def)
qed

theorem encode_roundtrip_witness:
  "tlsCertsFromPEM (pem_ref (\<lambda>_. True)) (encodeTLSCerts (pem_ref (\<lambda>_. True)) [''a'', ''b'', ''a'']) =
   ([''a'', ''b''], True)"
  using encode_roundtrip [OF pem_ref_laws, of "[''a'', ''b'', ''a'']" "\<lambda>_. True"]
  by (simp add: pem_ref_def)

text \<open>C27: the block decoder skips a block it cannot decode and returns the next one, and
  \<^verbatim>\<open>tlsCertsFromPEM\<close> cannot see the skipped bytes: a bundle that is a malformed block
  followed by a good certificate counts as clean and a merge keeps the malformed bytes,
  although the function is documented to report a clean bundle only if nothing had to be
  skipped.\<close>

theorem skipped_block_kept:
  assumes "pem_codec P" and "x509_parses P c" and "fst (tlsCertsFromPEM P source) \<noteq> []"
    and "malformed = pem_begin @ junk"
    and "pem_Decode P (malformed @ pem_EncodeToMemory P (cert_block c)) = Some (cert_block c, [])"
  shows "tlsCertsFromPEM P (malformed @ pem_EncodeToMemory P (cert_block c)) = ([c], True) \<and>
     prefix malformed (mergeCACert P (malformed @ pem_EncodeToMemory P (cert_block c)) source)"
proof -
  let ?d = "malformed @ pem_EncodeToMemory P (cert_block c)"
  have i: "Index ?d pem_begin = Some 0" using assms(4) by (simp add: Index_begin)
  have t: "TrimLeftFunc is_trim_left ?d = ?d" and ne: "?d \<noteq> []"
    using assms(4) by (simp_all add: TrimLeftFunc_def pem_begin_def is_trim_left_def)
  have d: "tlsCertsFromPEM P ?d = ([c], True)"
    using pem_codec.tlsCertsFromPEM_run [OF assms(1), of ?d] t ne
      pem_codec.tls_run_begin [OF assms(1) i] pem_codec.tls_run_Nil [OF assms(1)] assms(2,5)
    by (simp add: cert_block_def)
  then show ?thesis
    using ne assms(3) by (auto simp: mergeCACert_def Let_def split: prod.splits)
qed

theorem skipped_block_kept_witness:
  "prefix (pem_begin @ ''CERTIFICATE-----'' @ [NL] @ ''????'' @ [NL] @ ''-----END CERTIFICATE-----'' @ [NL])
     (mergeCACert (pem_ref (\<lambda>_. True))
       ((pem_begin @ ''CERTIFICATE-----'' @ [NL] @ ''????'' @ [NL] @ ''-----END CERTIFICATE-----'' @ [NL])
        @ pem_of [''a'']) (pem_of [''b'']))"
proof -
  define junk where "junk = ''CERTIFICATE-----'' @ [NL] @ ''????'' @ [NL] @ ''-----END CERTIFICATE-----'' @ [NL]"
  have "pem_Decode (pem_ref (\<lambda>_. True))
      ((pem_begin @ junk) @ pem_EncodeToMemory (pem_ref (\<lambda>_. True)) (cert_block ''a'')) =
    Some (cert_block ''a'', [])"
    unfolding junk_def by code_simp
  moreover have "pem_EncodeToMemory (pem_ref (\<lambda>_. True)) (cert_block ''a'') = pem_of [''a'']"
    by (simp add: pem_of_def encs_def)
  ultimately have "prefix (pem_begin @ junk)
      (mergeCACert (pem_ref (\<lambda>_. True)) ((pem_begin @ junk) @ pem_of [''a'']) (pem_of [''b'']))"
    using skipped_block_kept [OF pem_ref_laws, of "\<lambda>_. True" "''a''" "pem_of [''b'']" "pem_begin @ junk" junk]
    by (simp add: certs_pem_of pem_ref_x509)
  then show ?thesis by (simp add: junk_def)
qed

end
