(* ===== verification/GoFloat.thy ===== *)
theory GoFloat
  imports Prelude Complex_Main
begin

text \<open>
  Go's \<^verbatim>\<open>float64\<close>: a finite real, an infinity or NaN. Every arithmetic operation rounds its
  exact result by the rounding of the platform, which is a parameter together with the value
  of a conversion to \<^verbatim>\<open>int64\<close> that is out of range (the language leaves it to the platform).
  Zeros of both signs are one value. The locale \<open>float_arch\<close> states what IEEE 754 promises
  of the rounding: it is monotone, exact on the integers up to 2 to the 53 and has the
  relative error of 53 bits.
\<close>

datatype f64 = Fin real | PInf | NInf | NaN

record go_arch =
  rnd :: "real \<Rightarrow> f64"
  f2i_out_of_range :: "f64 \<Rightarrow> i64"

section \<open>Arithmetic\<close>

definition inf_of :: "real \<Rightarrow> f64" where
  "inf_of s = (if s > 0 then PInf else if s < 0 then NInf else NaN)"

fun f_add :: "go_arch \<Rightarrow> f64 \<Rightarrow> f64 \<Rightarrow> f64" where
  "f_add A (Fin a) (Fin b) = rnd A (a + b)"
| "f_add A NaN y = NaN"
| "f_add A x NaN = NaN"
| "f_add A PInf NInf = NaN"
| "f_add A NInf PInf = NaN"
| "f_add A PInf y = PInf"
| "f_add A NInf y = NInf"
| "f_add A (Fin a) y = y"

fun f_neg :: "f64 \<Rightarrow> f64" where
  "f_neg (Fin a) = Fin (- a)"
| "f_neg PInf = NInf"
| "f_neg NInf = PInf"
| "f_neg NaN = NaN"

definition f_sub :: "go_arch \<Rightarrow> f64 \<Rightarrow> f64 \<Rightarrow> f64" where
  "f_sub A x y = f_add A x (f_neg y)"

fun f_sign :: "f64 \<Rightarrow> real" where
  "f_sign (Fin a) = sgn a"
| "f_sign PInf = 1"
| "f_sign NInf = -1"
| "f_sign NaN = 0"

fun f_mul :: "go_arch \<Rightarrow> f64 \<Rightarrow> f64 \<Rightarrow> f64" where
  "f_mul A (Fin a) (Fin b) = rnd A (a * b)"
| "f_mul A NaN y = NaN"
| "f_mul A x NaN = NaN"
| "f_mul A x y = inf_of (f_sign x * f_sign y)"

fun f_div :: "go_arch \<Rightarrow> f64 \<Rightarrow> f64 \<Rightarrow> f64" where
  "f_div A (Fin a) (Fin b) = (if b = 0 then inf_of a else rnd A (a / b))"
| "f_div A NaN y = NaN"
| "f_div A x NaN = NaN"
| "f_div A (Fin a) y = Fin 0"
| "f_div A x (Fin b) = inf_of (f_sign x * (if b < 0 then -1 else 1))"
| "f_div A x y = NaN"

fun f_lt :: "f64 \<Rightarrow> f64 \<Rightarrow> bool" where
  "f_lt (Fin a) (Fin b) \<longleftrightarrow> a < b"
| "f_lt NaN y \<longleftrightarrow> False"
| "f_lt x NaN \<longleftrightarrow> False"
| "f_lt NInf y \<longleftrightarrow> y \<noteq> NInf"
| "f_lt x PInf \<longleftrightarrow> x \<noteq> PInf"
| "f_lt x y \<longleftrightarrow> False"

fun f_le :: "f64 \<Rightarrow> f64 \<Rightarrow> bool" where
  "f_le (Fin a) (Fin b) \<longleftrightarrow> a \<le> b"
| "f_le NaN y \<longleftrightarrow> False"
| "f_le x NaN \<longleftrightarrow> False"
| "f_le NInf y \<longleftrightarrow> True"
| "f_le x PInf \<longleftrightarrow> True"
| "f_le x y \<longleftrightarrow> False"

abbreviation f_gt :: "f64 \<Rightarrow> f64 \<Rightarrow> bool" where
  "f_gt x y \<equiv> f_lt y x"

abbreviation f_ge :: "f64 \<Rightarrow> f64 \<Rightarrow> bool" where
  "f_ge x y \<equiv> f_le y x"

text \<open>\<^verbatim>\<open>x == 0\<close>\<close>

definition f_is_zero :: "f64 \<Rightarrow> bool" where
  "f_is_zero x \<longleftrightarrow> x = Fin 0"

text \<open>\<^verbatim>\<open>math.Round\<close> (halves away from zero) and \<^verbatim>\<open>math.Ceil\<close>.\<close>

fun f_round :: "f64 \<Rightarrow> f64" where
  "f_round (Fin a) = Fin (if a < 0 then - of_int \<lfloor>- a + 1 / 2\<rfloor> else of_int \<lfloor>a + 1 / 2\<rfloor>)"
| "f_round x = x"

fun f_ceil :: "f64 \<Rightarrow> f64" where
  "f_ceil (Fin a) = Fin (of_int \<lceil>a\<rceil>)"
| "f_ceil x = x"

section \<open>Conversions\<close>

definition i64_of_int :: "int \<Rightarrow> i64" where
  "i64_of_int n = word_of_int n"

definition f_of_i64 :: "go_arch \<Rightarrow> i64 \<Rightarrow> f64" where
  "f_of_i64 A w = rnd A (of_int (sint w))"

definition trunc :: "real \<Rightarrow> int" where
  "trunc r = (if r < 0 then \<lceil>r\<rceil> else \<lfloor>r\<rfloor>)"

fun f_to_i64 :: "go_arch \<Rightarrow> f64 \<Rightarrow> i64" where
  "f_to_i64 A (Fin r) =
     (if - (2 ^ 63) \<le> trunc r \<and> trunc r < 2 ^ 63 then i64_of_int (trunc r)
      else f2i_out_of_range A (Fin r))"
| "f_to_i64 A x = f2i_out_of_range A x"

lemma sint_i64_of_int: "- (2 ^ 63) \<le> n \<Longrightarrow> n < 2 ^ 63 \<Longrightarrow> sint (i64_of_int n) = n"
  unfolding i64_of_int_def by (simp add: sint_sbintrunc' signed_take_bit_int_eq_self)

lemma sint_range: "- (2 ^ 63) \<le> sint (w :: i64)" "sint (w :: i64) < 2 ^ 63"
  using sint_ge [of w] sint_lt [of w] by simp_all

section \<open>Order\<close>

lemma f_le_refl: "x \<noteq> NaN \<Longrightarrow> f_le x x"
  by (cases x) auto

lemma f_le_trans: "f_le x y \<Longrightarrow> f_le y z \<Longrightarrow> f_le x z"
  by (cases x; cases y; cases z) auto

lemma f_lt_irrefl [simp]: "\<not> f_lt x x"
  by (cases x) auto

lemma f_not_lt_trans: "y \<noteq> NaN \<Longrightarrow> \<not> f_lt x y \<Longrightarrow> \<not> f_lt y z \<Longrightarrow> \<not> f_lt x z"
  by (cases x; cases y; cases z) auto

lemma f_lt_trans: "f_lt x y \<Longrightarrow> f_lt y z \<Longrightarrow> f_lt x z"
  by (cases x; cases y; cases z) auto

lemma f_le_lt_trans: "f_le x y \<Longrightarrow> f_lt y z \<Longrightarrow> f_lt x z"
  by (cases x; cases y; cases z) auto

lemma f_le_antisym: "f_le x y \<Longrightarrow> f_le y x \<Longrightarrow> x = y"
  by (cases x; cases y) auto

lemma f_lt_iff: "x \<noteq> NaN \<Longrightarrow> y \<noteq> NaN \<Longrightarrow> f_lt x y \<longleftrightarrow> \<not> f_le y x"
  by (cases x; cases y) auto

lemma f_le_not_NaN: "f_le x y \<Longrightarrow> x \<noteq> NaN \<and> y \<noteq> NaN"
  by (cases x; cases y) auto

lemma f_le_total: "x \<noteq> NaN \<Longrightarrow> y \<noteq> NaN \<Longrightarrow> f_le x y \<or> f_le y x"
  by (cases x; cases y) auto

lemma f_lt_le: "f_lt x y \<Longrightarrow> f_le x y"
  by (cases x; cases y) auto

lemma f_between: "f_le (Fin a) x \<Longrightarrow> f_le x (Fin b) \<Longrightarrow> \<exists>r. x = Fin r \<and> a \<le> r \<and> r \<le> b"
  by (cases x) auto

lemma inf_of_not_NaN: "s \<noteq> 0 \<Longrightarrow> inf_of s \<noteq> NaN"
  by (simp add: inf_of_def)

lemma f_mul_NaN [simp]: "f_mul A x NaN = NaN" "f_mul A NaN x = NaN"
  and f_add_NaN [simp]: "f_add A x NaN = NaN" "f_add A NaN x = NaN"
  and f_lt_NaN [simp]: "\<not> f_lt x NaN" "\<not> f_lt NaN x"
  by (cases x; simp)+

section \<open>The promises of the rounding\<close>

locale float_arch =
  fixes A :: go_arch
  assumes rnd_mono: "a \<le> b \<Longrightarrow> f_le (rnd A a) (rnd A b)"
    and rnd_int: "\<bar>n\<bar> \<le> 2 ^ 53 \<Longrightarrow> rnd A (of_int n) = Fin (of_int n)"
    and rnd_error: "\<bar>x\<bar> \<le> 2 ^ 1000 \<Longrightarrow> \<exists>y. rnd A x = Fin y \<and> \<bar>y - x\<bar> \<le> \<bar>x\<bar> / 2 ^ 53 + 1 / 2 ^ 1000"
begin

lemma rnd_not_NaN: "rnd A a \<noteq> NaN"
  using rnd_mono [of a a] f_le_not_NaN by blast

lemma rnd_0 [simp]: "rnd A 0 = Fin 0"
  and rnd_100 [simp]: "rnd A 100 = Fin 100"
  and rnd_10000 [simp]: "rnd A 10000 = Fin 10000"
  using rnd_int [of 0] rnd_int [of 100] rnd_int [of 10000] by simp_all

lemma rnd_between_int:
  assumes "of_int m \<le> x" and "x \<le> of_int n" and "\<bar>m\<bar> \<le> 2 ^ 53" and "\<bar>n\<bar> \<le> 2 ^ 53"
  shows "\<exists>r. rnd A x = Fin r \<and> of_int m \<le> r \<and> r \<le> of_int n"
  using f_between [of "of_int m" "rnd A x" "of_int n"] rnd_mono [OF assms(1)] rnd_mono [OF assms(2)]
    rnd_int [OF assms(3)] rnd_int [OF assms(4)] by simp

lemma rnd_close:
  assumes "\<bar>x\<bar> \<le> 100000"
  shows "\<exists>y. rnd A x = Fin y \<and> \<bar>y - x\<bar> \<le> 1 / 1000000"
proof -
  have "(100000 :: real) \<le> 2 ^ 1000"
    by (rule order_trans [of _ "2 ^ 20"]) (simp_all add: power_increasing)
  with assms obtain y where y: "rnd A x = Fin y" "\<bar>y - x\<bar> \<le> \<bar>x\<bar> / 2 ^ 53 + 1 / 2 ^ 1000"
    using rnd_error [of x] by fastforce
  have "\<bar>x\<bar> / 2 ^ 53 \<le> 100000 / 2 ^ 53" using assms by (simp add: divide_right_mono)
  moreover have "(1 :: real) / 2 ^ 1000 \<le> 1 / 2 ^ 53"
    by (intro divide_left_mono power_increasing) simp_all
  ultimately have "\<bar>y - x\<bar> \<le> 1 / 1000000" using y(2) by simp
  with y(1) show ?thesis by blast
qed

lemma mul_not_NaN: "x \<noteq> NaN \<Longrightarrow> b \<noteq> 0 \<Longrightarrow> f_mul A x (Fin b) \<noteq> NaN"
  by (cases x) (auto simp: rnd_not_NaN inf_of_not_NaN sgn_zero_iff)

lemma div_not_NaN: "x \<noteq> NaN \<Longrightarrow> b \<noteq> 0 \<Longrightarrow> f_div A x (Fin b) \<noteq> NaN"
  by (cases x) (auto simp: rnd_not_NaN inf_of_not_NaN)

lemma sub_Fin_not_NaN: "x \<noteq> NaN \<Longrightarrow> f_sub A x (Fin b) \<noteq> NaN"
  by (cases x) (auto simp: f_sub_def rnd_not_NaN)

end

text \<open>Exact arithmetic keeps the promises; the witnesses compute with it.\<close>

definition ideal_arch :: go_arch where
  "ideal_arch = \<lparr>rnd = Fin, f2i_out_of_range = (\<lambda>_. i64_of_int (- (2 ^ 63)))\<rparr>"

lemma rnd_ideal [simp]: "rnd ideal_arch = Fin"
  by (simp add: ideal_arch_def)

interpretation ideal: float_arch ideal_arch
  by unfold_locales auto

end
