(* ===== verification/Quantity.thy ===== *)
theory Quantity
  imports GoFloat
begin

text \<open>
  Kubernetes quantities: \<^verbatim>\<open>controllers/migrationadvisor/util.go\<close>.

  \<^verbatim>\<open>strconv.ParseFloat\<close> is a parameter; the locale \<open>float_parser\<close> states what is used of it:
  a string of decimal digits reads as its value and a string that ends in a letter no
  number ends in is an error.
\<close>

type_synonym float_parse = "string \<Rightarrow> goerr + f64"

definition quantity_suffixes :: "(string \<times> int) list" where
  "quantity_suffixes =
     [(''Ti'', 2 ^ 40), (''Gi'', 2 ^ 30), (''Mi'', 2 ^ 20), (''Ki'', 2 ^ 10),
      (''T'', 10 ^ 12), (''G'', 10 ^ 9), (''M'', 10 ^ 6), (''K'', 10 ^ 3)]"

fun parseQuantity_loop ::
    "go_arch \<Rightarrow> float_parse \<Rightarrow> string \<Rightarrow> string \<Rightarrow> (string \<times> int) list \<Rightarrow> goerr + i64" where
  "parseQuantity_loop A ParseFloat q upper [] =
     (case ParseFloat (TrimSpace upper) of
        Inl err \<Rightarrow> Inl (Errorf ''parse quantity %q: %w'' [q] (Some err))
      | Inr val \<Rightarrow> Inr (f_to_i64 A val))"
| "parseQuantity_loop A ParseFloat q upper ((sfx, multiplier) # rest) =
     (if HasSuffix upper sfx then
        (case ParseFloat (TrimSpace (TrimSuffix upper sfx)) of
           Inl err \<Rightarrow> Inl (Errorf ''parse quantity %q: %w'' [q] (Some err))
         | Inr val \<Rightarrow> Inr (f_to_i64 A (f_mul A val (f_of_i64 A (i64_of_int multiplier)))))
      else parseQuantity_loop A ParseFloat q upper rest)"

definition parseQuantityToBytes :: "go_arch \<Rightarrow> float_parse \<Rightarrow> string \<Rightarrow> goerr + i64" where
  "parseQuantityToBytes A ParseFloat q =
     (if q = [] then Inr 0 else parseQuantity_loop A ParseFloat q (TrimSpace q) quantity_suffixes)"

definition parseCPUCores :: "go_arch \<Rightarrow> float_parse \<Rightarrow> string \<Rightarrow> goerr + f64" where
  "parseCPUCores A ParseFloat q0 =
     (if q0 = [] then Inr (Fin 0)
      else let q = TrimSpace q0
           in if HasSuffix q ''m'' then
                (case ParseFloat (TrimSuffix q ''m'') of
                   Inl err \<Rightarrow> Inl (Errorf ''parse CPU quantity %q: %w'' [q] (Some err))
                 | Inr m \<Rightarrow> Inr (f_div A m (Fin 1000)))
              else ParseFloat q)"

section \<open>Decimal digits\<close>

definition is_digit :: "char \<Rightarrow> bool" where
  "is_digit c \<longleftrightarrow> 48 \<le> (of_char c :: nat) \<and> (of_char c :: nat) \<le> 57"

definition digits_val :: "string \<Rightarrow> nat" where
  "digits_val ds = foldl (\<lambda>n c. 10 * n + (of_char c - 48)) 0 ds"

definition is_digits :: "string \<Rightarrow> bool" where
  "is_digits ds \<longleftrightarrow> ds \<noteq> [] \<and> list_all is_digit ds"

lemma digit_not_space: "is_digit c \<Longrightarrow> \<not> is_space c"
  by (auto simp: is_digit_def is_space_def)

lemma TrimSpace_solid:
  assumes "s \<noteq> []" and "\<not> is_space (hd s)" and "\<not> is_space (last s)"
  shows "TrimSpace s = s"
proof -
  have "dropWhile is_space s = s" using assms(1,2) by (cases s) auto
  moreover have "dropWhile is_space (rev s) = rev s"
    using assms(1,3) by (cases s rule: rev_cases) auto
  ultimately show ?thesis by (simp add: TrimSpace_def TrimLeftFunc_def TrimRightFunc_def)
qed

lemma TrimSpace_digits:
  assumes "is_digits ds" and "suf = [] \<or> \<not> is_space (last suf)"
  shows "TrimSpace (ds @ suf) = ds @ suf"
proof (rule TrimSpace_solid)
  show "ds @ suf \<noteq> []" using assms by (simp add: is_digits_def)
  have "hd ds \<in> set ds" "last ds \<in> set ds" using assms by (auto simp: is_digits_def)
  then have "\<not> is_space (hd ds)" "\<not> is_space (last ds)"
    using assms(1) digit_not_space by (auto simp: is_digits_def list_all_iff)
  then show "\<not> is_space (hd (ds @ suf))" "\<not> is_space (last (ds @ suf))"
    using assms by (auto simp: is_digits_def last_append)
qed

lemma HasSuffix_last:
  assumes "p \<noteq> []" and "s \<noteq> []" and "last s \<noteq> last p"
  shows "\<not> HasSuffix s p"
  using assms by (auto simp: HasSuffix_iff)

lemma digits_no_suffix:
  assumes "is_digits ds" and "p \<noteq> []" and "\<not> is_digit (last p)"
  shows "\<not> HasSuffix ds p"
proof (rule HasSuffix_last [OF assms(2)])
  show "ds \<noteq> []" using assms(1) by (simp add: is_digits_def)
  then have "is_digit (last ds)" using assms(1) by (simp add: is_digits_def list_all_iff)
  with assms(3) show "last ds \<noteq> last p" by auto
qed

lemma letters_not_digits:
  "\<not> is_digit CHR ''i''" "\<not> is_digit CHR ''T''" "\<not> is_digit CHR ''G''" "\<not> is_digit CHR ''M''"
  "\<not> is_digit CHR ''K''" "\<not> is_digit CHR ''m''"
  by (simp_all add: is_digit_def)

lemma digits_suffix2:
  assumes "is_digits ds"
  shows "HasSuffix (ds @ [c]) [a, b] \<Longrightarrow> is_digit a"
proof -
  assume "HasSuffix (ds @ [c]) [a, b]"
  then have "\<exists>t. ds = t @ [a]" by (auto simp: HasSuffix_iff)
  with assms show "is_digit a" by (auto simp: is_digits_def)
qed

section \<open>What the code relies on of ParseFloat\<close>

locale float_parser =
  fixes ParseFloat :: float_parse
  assumes parse_digits:
      "is_digits ds \<Longrightarrow> digits_val ds \<le> 2 ^ 53 \<Longrightarrow> ParseFloat ds = Inr (Fin (real (digits_val ds)))"
    and parse_letter:
      "s \<noteq> [] \<Longrightarrow> last s \<in> {CHR ''k'', CHR ''i'', CHR ''m'', CHR ''P'', CHR ''E''} \<Longrightarrow>
       \<exists>e. ParseFloat s = Inl e"

definition ParseFloat_ref :: float_parse where
  "ParseFloat_ref s =
     (if is_digits s then Inr (Fin (real (digits_val s)))
      else Inl (Errorf ''strconv.ParseFloat: parsing %q: invalid syntax'' [s] None))"

interpretation float_ref: float_parser ParseFloat_ref
proof unfold_locales
  fix s :: string
  assume s: "s \<noteq> []" "last s \<in> {CHR ''k'', CHR ''i'', CHR ''m'', CHR ''P'', CHR ''E''}"
  then have "\<not> is_digit (last s)" by (auto simp: is_digit_def)
  with s(1) have "\<not> is_digits s" by (auto simp: is_digits_def list_all_iff)
  then show "\<exists>e. ParseFloat_ref s = Inl e" by (simp add: ParseFloat_ref_def)
qed (simp add: ParseFloat_ref_def)

section \<open>Properties\<close>

lemma f_to_i64_nat: "n \<le> 2 ^ 53 \<Longrightarrow> f_to_i64 A (Fin (real n)) = i64_of_int (int n)"
proof -
  assume n: "n \<le> 2 ^ 53"
  have "trunc (real n) = int n" by (simp add: trunc_def)
  moreover have "int n < 2 ^ 63"
    by (rule order_le_less_trans [of _ "2 ^ 53"]) (use n in \<open>simp_all flip: of_nat_power_eq_of_nat_cancel_iff\<close>)
  ultimately show ?thesis by simp
qed

lemma rnd_nat:
  assumes "float_arch A" and "n \<le> 2 ^ 53"
  shows "rnd A (real n) = Fin (real n)"
  using float_arch.rnd_int [OF assms(1), of "int n"] assms(2) by simp

text \<open>Which entry of the table is taken for digits followed by a suffix.\<close>

lemma parseQuantity_find:
  "parseQuantity_loop A PF q u tbl =
     (case find (\<lambda>e. HasSuffix u (fst e)) tbl of
        None \<Rightarrow> (case PF (TrimSpace u) of
            Inl err \<Rightarrow> Inl (Errorf ''parse quantity %q: %w'' [q] (Some err))
          | Inr val \<Rightarrow> Inr (f_to_i64 A val))
      | Some (sfx, m) \<Rightarrow> (case PF (TrimSpace (TrimSuffix u sfx)) of
            Inl err \<Rightarrow> Inl (Errorf ''parse quantity %q: %w'' [q] (Some err))
          | Inr val \<Rightarrow> Inr (f_to_i64 A (f_mul A val (f_of_i64 A (i64_of_int m))))))"
  by (induction A PF q u tbl rule: parseQuantity_loop.induct) auto

lemma HasSuffix_tails:
  "HasSuffix (ds @ [c]) [d] \<longleftrightarrow> c = d"
  "HasSuffix (ds @ [a, b]) [c, d] \<longleftrightarrow> a = c \<and> b = d"
  "HasSuffix (ds @ [a, b]) [d] \<longleftrightarrow> b = d"
  by (auto simp: HasSuffix_iff)

lemma digits_no_pair: "is_digits ds \<Longrightarrow> \<not> is_digit a \<Longrightarrow> \<not> HasSuffix (ds @ [c]) [a, b]"
  using digits_suffix2 by blast

lemma find_suffix:
  assumes "is_digits ds" and "(sfx, m) \<in> set quantity_suffixes"
  shows "find (\<lambda>e. HasSuffix (ds @ sfx) (fst e)) quantity_suffixes = Some (sfx, m)"
proof -
  show ?thesis
    using assms(2) unfolding quantity_suffixes_def list.set insert_iff prod.inject empty_iff
    by (elim disjE conjE FalseE) (simp_all add: digits_no_pair [OF assms(1)] letters_not_digits HasSuffix_tails)
qed

lemma find_no_suffix:
  assumes "is_digits ds"
  shows "find (\<lambda>e. HasSuffix ds (fst e)) quantity_suffixes = None"
  using digits_no_suffix [OF assms] by (simp add: quantity_suffixes_def letters_not_digits)

lemma multiplier_pos: "(sfx, m) \<in> set quantity_suffixes \<Longrightarrow> 1 \<le> m \<and> m \<le> 2 ^ 40 \<and> last sfx \<noteq> CHR '' ''"
  by (auto simp: quantity_suffixes_def)

lemma scaled_exact:
  assumes "float_arch A" and "1 \<le> m" and "m \<le> 2 ^ 53" and "int n * m \<le> 2 ^ 53"
  shows "f_to_i64 A (f_mul A (Fin (real n)) (f_of_i64 A (i64_of_int m))) = i64_of_int (int n * m)"
proof -
  have "sint (i64_of_int m) = m" by (rule sint_i64_of_int) (use assms(2,3) in simp_all)
  then have m: "f_of_i64 A (i64_of_int m) = Fin (of_int m)"
    using float_arch.rnd_int [OF assms(1), of m] assms(2,3) by (simp add: f_of_i64_def)
  have nm: "int n * m = int (n * nat m)" using assms(2) by simp
  then have "n * nat m \<le> 2 ^ 53" using assms(4) by (metis numeral_power_eq_of_nat_cancel_iff of_nat_le_iff of_nat_numeral of_nat_power)
  moreover have "real n * of_int m = real (n * nat m)" using assms(2) by simp
  ultimately have "f_mul A (Fin (real n)) (Fin (of_int m)) = Fin (real (n * nat m))"
    and "f_to_i64 A (Fin (real (n * nat m))) = i64_of_int (int (n * nat m))"
    using rnd_nat [OF assms(1), of "n * nat m"] f_to_i64_nat [of "n * nat m" A] by (simp_all only: f_mul.simps)
  then show ?thesis by (simp only: m nm)
qed

text \<open>C33: decimal digits followed by a suffix of the table denote the number times the
  multiplier of that suffix, exactly, up to 2 to the 53 bytes; digits alone denote
  themselves.\<close>

theorem parse_quantity_exact:
  assumes "float_arch A" and "float_parser PF" and "is_digits ds"
    and "(sfx, m) \<in> insert ([], 1) (set quantity_suffixes)" and "int (digits_val ds) * m \<le> 2 ^ 53"
  shows "parseQuantityToBytes A PF (ds @ sfx) = Inr (i64_of_int (int (digits_val ds) * m))"
proof -
  have m: "1 \<le> m" "m \<le> 2 ^ 53" "sfx = [] \<or> \<not> is_space (last sfx)"
    using assms(4) by (auto simp: quantity_suffixes_def is_space_def)
  have "int (digits_val ds) \<le> int (digits_val ds) * m" using m(1) by (simp add: mult_le_cancel_left1)
  then have n: "digits_val ds \<le> 2 ^ 53" using assms(5) by simp
  have trim: "TrimSpace (ds @ sfx) = ds @ sfx" "TrimSpace ds = ds"
    using TrimSpace_digits [OF assms(3)] m(3) TrimSpace_digits [OF assms(3), of "[]"] by auto
  have pf: "PF ds = Inr (Fin (real (digits_val ds)))"
    by (rule float_parser.parse_digits [OF assms(2,3) n])
  have ne: "ds \<noteq> []" using assms(3) by (simp add: is_digits_def)
  show ?thesis
  proof (cases "(sfx, m) \<in> set quantity_suffixes")
    case True
    then show ?thesis
      using find_suffix [OF assms(3) True] trim pf ne scaled_exact [OF assms(1) m(1,2) assms(5)]
      by (simp add: parseQuantityToBytes_def parseQuantity_find)
  next
    case False
    then have "sfx = []" "m = 1" using assms(4) by auto
    then show ?thesis
      using find_no_suffix [OF assms(3)] trim pf ne f_to_i64_nat [OF n, of A]
      by (simp add: parseQuantityToBytes_def parseQuantity_find)
  qed
qed

theorem parse_quantity_exact_witness:
  "parseQuantityToBytes ideal_arch ParseFloat_ref ''4Gi'' = Inr (i64_of_int (4 * 2 ^ 30))"
proof -
  have "is_digits ''4''" "digits_val ''4'' = 4" by (simp_all add: is_digits_def is_digit_def digits_val_def)
  with parse_quantity_exact [OF ideal.float_arch_axioms float_ref.float_parser_axioms, of "''4''" "''Gi''" "2 ^ 30"]
  show ?thesis by (simp add: quantity_suffixes_def)
qed

text \<open>The quantity notation of Kubernetes that the table does not list is an error: the
  decimal kilo is a lower-case k, and Pi, Ei, P, E and m are suffixes as well; the function
  is documented to convert Kubernetes quantity strings.\<close>

theorem parse_quantity_unsupported:
  assumes "float_parser PF" and "is_digits ds"
    and "sfx \<in> {''k'', ''Pi'', ''Ei'', ''m'', ''P'', ''E''}"
  shows "\<exists>e. parseQuantityToBytes A PF (ds @ sfx) = Inl e"
proof -
  have sfx: "sfx \<noteq> []" "\<not> is_space (last sfx)"
    "last sfx \<in> {CHR ''k'', CHR ''i'', CHR ''m'', CHR ''P'', CHR ''E''}"
    using assms(3) by (auto simp: is_space_def)
  have none: "find (\<lambda>e. HasSuffix (ds @ sfx) (fst e)) quantity_suffixes = None"
    using assms(3) unfolding quantity_suffixes_def insert_iff empty_iff
    by (elim disjE FalseE) (simp_all add: digits_no_pair [OF assms(2)] letters_not_digits HasSuffix_tails)
  obtain e where "PF (ds @ sfx) = Inl e"
    using float_parser.parse_letter [OF assms(1), of "ds @ sfx"] sfx by auto
  with none TrimSpace_digits [OF assms(2), of sfx] sfx show ?thesis
    by (simp add: parseQuantityToBytes_def parseQuantity_find)
qed

theorem parse_quantity_unsupported_witness:
  "\<exists>e. parseQuantityToBytes ideal_arch ParseFloat_ref ''500k'' = Inl e"
proof -
  have "is_digits ''500''" by (simp add: is_digits_def is_digit_def)
  from parse_quantity_unsupported [OF float_ref.float_parser_axioms this, of "''k''" ideal_arch]
  show ?thesis by simp
qed

end
