(* ===== verification/Hub.thy ===== *)
theory Hub
  imports Prelude
begin

text \<open>
  The hub as the controllers see it: JSON values, the keys of objects, the objects that
  \<^verbatim>\<open>managedcluster_controller.go\<close> reads and writes, and the calls it makes of
  controller-runtime and client-go, gathered in the record \<open>mc_api\<close>. Clients are not part of
  the program: the record is a parameter, the locale \<open>kube_hub\<close> states what the documentation
  of the clients promises of every call (also of a call that returns an error), the locale
  \<open>kube_hub_live\<close> adds the promises of a hub without faults, and an in-memory hub
  interprets both.
\<close>

section \<open>JSON\<close>

datatype json =
    JNull
  | JBool bool
  | JNum int
  | JStr string
  | JArr "json list"
  | JObj "(string \<times> json) list"

fun jget :: "json \<Rightarrow> string \<Rightarrow> json option" where
  "jget (JObj kvs) k = map_of kvs k"
| "jget _ k = None"

definition jpath :: "json \<Rightarrow> string list \<Rightarrow> json option" where
  "jpath j ks = fold (\<lambda>k o'. Option.bind o' (\<lambda>j. jget j k)) ks (Some j)"

fun jstr :: "json option \<Rightarrow> string" where
  "jstr (Some (JStr s)) = s"
| "jstr _ = []"

lemma jpath_Nil [simp]: "jpath j [] = Some j"
  by (simp add: jpath_def)

lemma fold_bind_None: "fold (\<lambda>k o'. Option.bind o' (\<lambda>j. jget j k)) ks None = None"
  by (induction ks) simp_all

lemma jpath_Cons [simp]: "jpath j (k # ks) = Option.bind (jget j k) (\<lambda>j'. jpath j' ks)"
  by (cases "jget j k") (simp_all add: jpath_def fold_bind_None)

section \<open>Objects\<close>

record gvr =
  gvr_Group :: string
  gvr_Version :: string
  gvr_Resource :: string

text \<open>The key of a namespaced object: resource, namespace, name.\<close>

type_synonym okey = "gvr \<times> string \<times> string"

record ManagedCluster =
  mc_Name :: string
  mc_Labels :: "string \<rightharpoonup> string"
  mc_Finalizers :: "string list"
  mc_Deleting :: bool
  mc_ClientURLs :: "string list"

record owner_ref =
  owner_APIVersion :: string
  owner_Kind :: string
  owner_Name :: string
  owner_UID :: string
  owner_Controller :: "bool option"
  owner_BlockOwnerDeletion :: "bool option"

record ManagedServiceAccount =
  msa_Name :: string
  msa_Namespace :: string
  msa_RotationEnabled :: bool
  msa_ValidityMinutes :: nat
  msa_OwnerRefs :: "owner_ref list"
  msa_TokenSecretRef :: "string option"

record Secret =
  sec_Name :: string
  sec_Namespace :: string
  sec_Labels :: "(string \<times> string) list"
  sec_Data :: "(string \<rightharpoonup> bytes) option"

text \<open>Reading a key of the data of a secret; a nil map reads as an empty one.\<close>

definition data_get :: "Secret \<Rightarrow> string \<Rightarrow> bytes" where
  "data_get s k = (case sec_Data s of None \<Rightarrow> [] | Some d \<Rightarrow> map_get d k)"

record CRDCondition =
  cond_Type :: string
  cond_Status :: string

record Deployment =
  dep_Name :: string
  dep_Namespace :: string

datatype kobj = SecretObj Secret | MSAObj ManagedServiceAccount | Unstructured json

text \<open>What the API server stores. A deleted object with finalizers stays, marked as
  terminating.\<close>

record hub =
  hub_clusters :: "string \<rightharpoonup> ManagedCluster"
  hub_objs :: "okey \<rightharpoonup> kobj"
  hub_terminating :: "okey set"
  hub_crds :: "string \<rightharpoonup> CRDCondition list"
  hub_deployments :: "Deployment list"

definition released :: "hub \<Rightarrow> okey \<Rightarrow> bool" where
  "released h k \<longleftrightarrow> hub_objs h k = None \<or> k \<in> hub_terminating h"

definition same_obj :: "okey \<Rightarrow> hub \<Rightarrow> hub \<Rightarrow> bool" where
  "same_obj k h h' \<longleftrightarrow>
     hub_objs h' k = hub_objs h k \<and> (k \<in> hub_terminating h' \<longleftrightarrow> k \<in> hub_terminating h)"

text \<open>Only the object with key \<open>k\<close> may differ, and no cluster does.\<close>

definition only_obj :: "okey \<Rightarrow> hub \<Rightarrow> hub \<Rightarrow> bool" where
  "only_obj k h h' \<longleftrightarrow>
     hub_clusters h' = hub_clusters h \<and> hub_crds h' = hub_crds h \<and>
     hub_deployments h' = hub_deployments h \<and> (\<forall>k'. k' \<noteq> k \<longrightarrow> same_obj k' h h')"

lemma same_obj_refl [simp]: "same_obj k h h"
  by (simp add: same_obj_def)

lemma only_obj_refl [simp]: "only_obj k h h"
  by (simp add: only_obj_def)

lemma same_obj_released: "same_obj k h h' \<Longrightarrow> released h' k \<longleftrightarrow> released h k"
  by (simp add: same_obj_def released_def)

section \<open>The calls of the controller\<close>

definition SecretsGVR :: gvr where
  "SecretsGVR = \<lparr>gvr_Group = [], gvr_Version = ''v1'', gvr_Resource = ''secrets''\<rparr>"

definition MSAsGVR :: gvr where
  "MSAsGVR = \<lparr>gvr_Group = ''authentication.open-cluster-management.io'', gvr_Version = ''v1beta1'',
     gvr_Resource = ''managedserviceaccounts''\<rparr>"

text \<open>\<open>to_unstructured\<close> is \<^verbatim>\<open>json.Marshal\<close> followed by \<^verbatim>\<open>json.Unmarshal\<close> into an
  \<^verbatim>\<open>unstructured.Unstructured\<close>, with the error of either.\<close>

record 'w mc_api =
  getCRD :: "string \<Rightarrow> ('w, CRDCondition list) prog"
  getManagedCluster :: "string \<Rightarrow> ('w, ManagedCluster) prog"
  listManagedClusters :: "('w, ManagedCluster list) prog"
  patchManagedCluster :: "ManagedCluster \<Rightarrow> ManagedCluster \<Rightarrow> ('w, unit) prog"
  createNamespace :: "string \<Rightarrow> ('w, unit) prog"
  getMSA :: "string \<Rightarrow> string \<Rightarrow> ('w, ManagedServiceAccount) prog"
  createMSA :: "ManagedServiceAccount \<Rightarrow> ('w, unit) prog"
  listDeployments :: "('w, Deployment list) prog"
  getSecret :: "string \<Rightarrow> string \<Rightarrow> ('w, Secret) prog"
  createOrUpdateSecret :: "Secret \<Rightarrow> (Secret \<Rightarrow> Secret) \<Rightarrow> ('w, unit) prog"
  dynGet :: "gvr \<Rightarrow> string \<Rightarrow> string \<Rightarrow> ('w, unit) prog"
  dynCreate :: "gvr \<Rightarrow> string \<Rightarrow> json \<Rightarrow> ('w, unit) prog"
  dynDelete :: "gvr \<Rightarrow> string \<Rightarrow> string \<Rightarrow> ('w, unit) prog"
  ContainsFinalizer :: "ManagedCluster \<Rightarrow> string \<Rightarrow> bool"
  AddFinalizer :: "ManagedCluster \<Rightarrow> string \<Rightarrow> ManagedCluster"
  RemoveFinalizer :: "ManagedCluster \<Rightarrow> string \<Rightarrow> bool \<times> ManagedCluster"
  SetControllerReference :: "ManagedCluster \<Rightarrow> ManagedServiceAccount \<Rightarrow> goerr + ManagedServiceAccount"
  to_unstructured :: "json \<Rightarrow> goerr + json"

text \<open>The key under which a \<^verbatim>\<open>Create\<close> of the dynamic client stores a payload.\<close>

definition payload_key :: "gvr \<Rightarrow> string \<Rightarrow> json \<Rightarrow> okey" where
  "payload_key g ns j = (g, ns, jstr (jpath j [''metadata'', ''name'']))"

definition msa_key :: "ManagedServiceAccount \<Rightarrow> okey" where
  "msa_key m = (MSAsGVR, msa_Namespace m, msa_Name m)"

definition sec_key :: "Secret \<Rightarrow> okey" where
  "sec_key s = (SecretsGVR, sec_Namespace s, sec_Name s)"

section \<open>What the documentation of the clients promises\<close>

text \<open>A read leaves the hub as it is and reports an object that exists; a write changes the
  object it names and nothing else, even if it returns an error (the request may have been
  carried out before the answer was lost); a write that returns normally has been carried
  out.\<close>

locale kube_hub =
  fixes K :: "'w mc_api" and V :: "'w \<Rightarrow> hub"
  assumes reads:
      "V (snd (getCRD K n w)) = V w" "V (snd (getManagedCluster K n w)) = V w"
      "V (snd (listManagedClusters K w)) = V w" "V (snd (getMSA K n ns w)) = V w"
      "V (snd (listDeployments K w)) = V w" "V (snd (getSecret K n ns w)) = V w"
      "V (snd (dynGet K g n ns w)) = V w" "V (snd (createNamespace K n w)) = V w"
    and get_cluster: "getManagedCluster K n w = (Inr mc, w') \<Longrightarrow>
        hub_clusters (V w) n = Some mc \<and> mc_Name mc = n"
    and get_msa: "getMSA K n ns w = (Inr m, w') \<Longrightarrow>
        hub_objs (V w) (MSAsGVR, ns, n) = Some (MSAObj m) \<and> msa_Name m = n \<and> msa_Namespace m = ns"
    and get_secret: "getSecret K n ns w = (Inr s, w') \<Longrightarrow>
        hub_objs (V w) (SecretsGVR, ns, n) = Some (SecretObj s) \<and> sec_Name s = n \<and> sec_Namespace s = ns"
    and dyn_get: "dynGet K g n ns w = (Inr u, w') \<Longrightarrow> hub_objs (V w) (g, ns, n) \<noteq> None"
    and patch_frame: "hub_objs (V (snd (patchManagedCluster K mc orig w))) = hub_objs (V w)"
        "hub_terminating (V (snd (patchManagedCluster K mc orig w))) = hub_terminating (V w)"
        "hub_crds (V (snd (patchManagedCluster K mc orig w))) = hub_crds (V w)"
        "hub_deployments (V (snd (patchManagedCluster K mc orig w))) = hub_deployments (V w)"
        "n \<noteq> mc_Name mc \<Longrightarrow>
           hub_clusters (V (snd (patchManagedCluster K mc orig w))) n = hub_clusters (V w) n"
    and patch_finalizers: "hub_clusters (V w) (mc_Name mc) = Some c \<Longrightarrow>
        hub_clusters (V (snd (patchManagedCluster K mc orig w))) (mc_Name mc) = Some c' \<Longrightarrow>
        c' = c \<or> c' = c\<lparr>mc_Finalizers := mc_Finalizers mc\<rparr>"
    and patch_vanish: "hub_clusters (V w) (mc_Name mc) = Some c \<Longrightarrow> mc_Finalizers mc \<noteq> [] \<Longrightarrow>
        hub_clusters (V (snd (patchManagedCluster K mc orig w))) (mc_Name mc) \<noteq> None"
    and patch_ok: "patchManagedCluster K mc orig w = (Inr u, w') \<Longrightarrow>
        hub_clusters (V w') (mc_Name mc) = Some c' \<Longrightarrow> mc_Finalizers c' = mc_Finalizers mc"
    and create_msa: "only_obj (msa_key m) (V w) (V (snd (createMSA K m w)))"
    and create_update_secret: "only_obj (sec_key s) (V w) (V (snd (createOrUpdateSecret K s mutate w)))"
    and dyn_create: "only_obj (payload_key g ns j) (V w) (V (snd (dynCreate K g ns j w)))"
    and dyn_delete: "only_obj (g, ns, n) (V w) (V (snd (dynDelete K g n ns w)))"
    and delete_ok: "dynDelete K g n ns w = (Inr u, w') \<Longrightarrow> released (V w') (g, ns, n)"
    and delete_not_found: "dynDelete K g n ns w = (Inl e, w') \<Longrightarrow> IsNotFound e \<Longrightarrow> released (V w') (g, ns, n)"
    and delete_monotone: "released (V w) k \<Longrightarrow> released (V (snd (dynDelete K g n ns w))) k"
    and contains_finalizer: "ContainsFinalizer K mc f \<longleftrightarrow> f \<in> set (mc_Finalizers mc)"
    and add_finalizer: "f \<in> set (mc_Finalizers (AddFinalizer K mc f))"
        "set (mc_Finalizers mc) \<subseteq> set (mc_Finalizers (AddFinalizer K mc f))"
        "mc_Name (AddFinalizer K mc f) = mc_Name mc"
    and remove_finalizer: "RemoveFinalizer K mc f = (b, mc') \<Longrightarrow>
        (b \<longleftrightarrow> f \<in> set (mc_Finalizers mc)) \<and> mc_Name mc' = mc_Name mc \<and>
        set (mc_Finalizers mc') = set (mc_Finalizers mc) - {f}"
    and set_controller: "SetControllerReference K mc m = Inr m' \<Longrightarrow> msa_key m' = msa_key m"
    and json_copy: "to_unstructured K j = Inr j' \<Longrightarrow> jstr (jpath j' p) = jstr (jpath j p)"

text \<open>A hub without faults: reads find what is stored and writes are carried out.\<close>

locale kube_hub_live = kube_hub +
  assumes live_crd: "fst (getCRD K n w) =
        (case hub_crds (V w) n of Some cs \<Rightarrow> Inr cs | None \<Rightarrow> Inl (ApiStatus NotFound n))"
    and live_cluster: "hub_clusters (V w) n = Some mc \<Longrightarrow> mc_Name mc = n \<Longrightarrow>
        fst (getManagedCluster K n w) = Inr mc"
    and live_msa: "hub_objs (V w) (MSAsGVR, ns, n) = Some (MSAObj m) \<Longrightarrow> msa_key m = (MSAsGVR, ns, n) \<Longrightarrow>
        fst (getMSA K n ns w) = Inr m"
    and live_no_msa: "hub_objs (V w) (MSAsGVR, ns, n) = None \<Longrightarrow>
        fst (getMSA K n ns w) = Inl (ApiStatus NotFound n)"
    and live_secret: "hub_objs (V w) (SecretsGVR, ns, n) = Some (SecretObj s) \<Longrightarrow>
        sec_key s = (SecretsGVR, ns, n) \<Longrightarrow> fst (getSecret K n ns w) = Inr s"
    and live_no_secret: "hub_objs (V w) (SecretsGVR, ns, n) = None \<Longrightarrow>
        fst (getSecret K n ns w) = Inl (ApiStatus NotFound n)"
    and live_dyn: "fst (dynGet K g n ns w) =
        (if hub_objs (V w) (g, ns, n) = None then Inl (ApiStatus NotFound n) else Inr ())"
    and live_deployments: "fst (listDeployments K w) = Inr (hub_deployments (V w))"
    and live_namespace: "fst (createNamespace K n w) = Inl e \<Longrightarrow> IsAlreadyExists e"
    and live_patch: "hub_clusters (V w) (mc_Name mc) = Some c \<Longrightarrow>
        fst (patchManagedCluster K mc orig w) = Inr ()"
    and live_create_msa: "hub_objs (V w) (msa_key m) = None \<Longrightarrow>
        fst (createMSA K m w) = Inr () \<and>
        hub_objs (V (snd (createMSA K m w))) (msa_key m) = Some (MSAObj m)"
    and live_secret_update: "(\<And>x. sec_key (mutate x) = sec_key x) \<Longrightarrow>
        (case hub_objs (V w) (sec_key s) of None \<Rightarrow> cur = s | Some v \<Rightarrow> v = SecretObj cur) \<Longrightarrow>
        fst (createOrUpdateSecret K s mutate w) = Inr () \<and>
        hub_objs (V (snd (createOrUpdateSecret K s mutate w))) (sec_key s) = Some (SecretObj (mutate cur))"
    and live_dyn_create: "hub_objs (V w) (payload_key g ns j) = None \<Longrightarrow>
        fst (dynCreate K g ns j w) = Inr () \<and>
        hub_objs (V (snd (dynCreate K g ns j w))) (payload_key g ns j) = Some (Unstructured j)"
    and live_delete: "fst (dynDelete K g n ns w) =
        (if hub_objs (V w) (g, ns, n) = None then Inl (ApiStatus NotFound n) else Inr ())"
    and live_controller: "\<exists>m'. SetControllerReference K mc m = Inr m'"
    and live_json: "\<exists>j'. to_unstructured K (JObj kvs) = Inr j'"

section \<open>A hub in memory\<close>

text \<open>Objects in \<open>held\<close> carry finalizers of their own: deleting one marks it as terminating.\<close>

record mem =
  mem_hub :: hub
  mem_held :: "okey set"

definition not_found :: "string \<Rightarrow> goerr" where
  "not_found n = ApiStatus NotFound n"

definition put_obj :: "okey \<Rightarrow> kobj \<Rightarrow> mem \<Rightarrow> mem" where
  "put_obj k v w = w\<lparr>mem_hub := (mem_hub w)\<lparr>hub_objs := (hub_objs (mem_hub w))(k \<mapsto> v)\<rparr>\<rparr>"

definition mem_create :: "okey \<Rightarrow> kobj \<Rightarrow> (mem, unit) prog" where
  "mem_create k v w =
     (if hub_objs (mem_hub w) k = None then (Inr (), put_obj k v w)
      else (Inl (ApiStatus AlreadyExists (snd (snd k))), w))"

definition mem_delete :: "okey \<Rightarrow> (mem, unit) prog" where
  "mem_delete k w =
     (let h = mem_hub w in
      if hub_objs h k = None then (Inl (not_found (snd (snd k))), w)
      else if k \<in> mem_held w
      then (Inr (), w\<lparr>mem_hub := h\<lparr>hub_terminating := insert k (hub_terminating h)\<rparr>\<rparr>)
      else (Inr (), w\<lparr>mem_hub := h\<lparr>hub_objs := (hub_objs h)(k := None)\<rparr>\<rparr>))"

definition mem_patch :: "ManagedCluster \<Rightarrow> ManagedCluster \<Rightarrow> (mem, unit) prog" where
  "mem_patch mc orig w =
     (let h = mem_hub w in
      case hub_clusters h (mc_Name mc) of
        None \<Rightarrow> (Inl (not_found (mc_Name mc)), w)
      | Some c \<Rightarrow>
          let c' = (if mc_Deleting c \<and> mc_Finalizers mc = [] then None
                    else Some (c\<lparr>mc_Finalizers := mc_Finalizers mc\<rparr>))
          in (Inr (), w\<lparr>mem_hub := h\<lparr>hub_clusters := (hub_clusters h)(mc_Name mc := c')\<rparr>\<rparr>))"

definition mem_update_secret :: "Secret \<Rightarrow> (Secret \<Rightarrow> Secret) \<Rightarrow> (mem, unit) prog" where
  "mem_update_secret s mutate w =
     (Inr (), put_obj (sec_key s)
        (SecretObj (mutate (case hub_objs (mem_hub w) (sec_key s) of Some (SecretObj x) \<Rightarrow> x | _ \<Rightarrow> s))) w)"

definition mem_read :: "(hub \<Rightarrow> goerr + 'a) \<Rightarrow> (mem, 'a) prog" where
  "mem_read f w = (f (mem_hub w), w)"

definition mem_api :: "mem mc_api" where
  "mem_api = \<lparr>
     getCRD = (\<lambda>n. mem_read (\<lambda>h. case hub_crds h n of Some cs \<Rightarrow> Inr cs | None \<Rightarrow> Inl (not_found n))),
     getManagedCluster = (\<lambda>n. mem_read (\<lambda>h.
       case hub_clusters h n of
         Some c \<Rightarrow> if mc_Name c = n then Inr c else Inl (not_found n) | None \<Rightarrow> Inl (not_found n))),
     listManagedClusters = mem_read (\<lambda>h. Inr []),
     patchManagedCluster = mem_patch,
     createNamespace = (\<lambda>n. ret ()),
     getMSA = (\<lambda>n ns. mem_read (\<lambda>h. case hub_objs h (MSAsGVR, ns, n) of
       Some (MSAObj m) \<Rightarrow>
         if msa_key m = (MSAsGVR, ns, n) then Inr m else Inl (not_found n) | _ \<Rightarrow> Inl (not_found n))),
     createMSA = (\<lambda>m. mem_create (msa_key m) (MSAObj m)),
     listDeployments = mem_read (\<lambda>h. Inr (hub_deployments h)),
     getSecret = (\<lambda>n ns. mem_read (\<lambda>h. case hub_objs h (SecretsGVR, ns, n) of
       Some (SecretObj s) \<Rightarrow>
         if sec_key s = (SecretsGVR, ns, n) then Inr s else Inl (not_found n) | _ \<Rightarrow> Inl (not_found n))),
     createOrUpdateSecret = mem_update_secret,
     dynGet = (\<lambda>g n ns. mem_read (\<lambda>h.
       if hub_objs h (g, ns, n) = None then Inl (not_found n) else Inr ())),
     dynCreate = (\<lambda>g ns j. mem_create (payload_key g ns j) (Unstructured j)),
     dynDelete = (\<lambda>g n ns. mem_delete (g, ns, n)),
     ContainsFinalizer = (\<lambda>mc f. f \<in> set (mc_Finalizers mc)),
     AddFinalizer = (\<lambda>mc f. if f \<in> set (mc_Finalizers mc) then mc
       else mc\<lparr>mc_Finalizers := mc_Finalizers mc @ [f]\<rparr>),
     RemoveFinalizer = (\<lambda>mc f. (f \<in> set (mc_Finalizers mc),
       mc\<lparr>mc_Finalizers := filter (\<lambda>x. x \<noteq> f) (mc_Finalizers mc)\<rparr>)),
     SetControllerReference = (\<lambda>mc m. Inr (m\<lparr>msa_OwnerRefs := msa_OwnerRefs m @
       [\<lparr>owner_APIVersion = ''cluster.open-cluster-management.io/v1'', owner_Kind = ''ManagedCluster'',
         owner_Name = mc_Name mc, owner_UID = [], owner_Controller = Some True,
         owner_BlockOwnerDeletion = Some False\<rparr>]\<rparr>)),
     to_unstructured = Inr\<rparr>"

lemmas mem_defs = mem_api_def mem_read_def mem_patch_def mem_create_def mem_delete_def
  mem_update_secret_def put_obj_def not_found_def ret_def

interpretation mem_hub: kube_hub mem_api mem_hub
proof unfold_locales
  fix k g n ns w m mc mc' orig f s mutate j p w' u c c' e b j'
  show "released (mem_hub w) k \<Longrightarrow> released (mem_hub (snd (dynDelete mem_api g n ns w))) k"
    by (auto simp: mem_defs released_def Let_def)
  show "dynDelete mem_api g n ns w = (Inr u, w') \<Longrightarrow> released (mem_hub w') (g, ns, n)"
    by (auto simp: mem_defs released_def Let_def split: if_splits)
  show "dynDelete mem_api g n ns w = (Inl e, w') \<Longrightarrow> IsNotFound e \<Longrightarrow> released (mem_hub w') (g, ns, n)"
    by (auto simp: mem_defs released_def Let_def split: if_splits)
qed (auto simp: mem_defs api_err_defs only_obj_def same_obj_def Let_def msa_key_def sec_key_def
    split: option.splits kobj.splits if_splits)

interpretation mem_live: kube_hub_live mem_api mem_hub
  by unfold_locales (auto simp: mem_defs api_err_defs Let_def msa_key_def sec_key_def split: option.splits)

end
