(* ===== verification/Payloads.thy ===== *)
theory Payloads
  imports Hub
begin

text \<open>
  The constants and the payloads of the resources that the controller creates:
  \<^verbatim>\<open>controllers/payloads.go\<close>. Durations are in seconds.
\<close>

definition ManagedClusterFinalizer :: string where
  "ManagedClusterFinalizer = ''mtv-integrations.open-cluster-management.io/resource-cleanup''"

definition LabelCNVOperatorInstall :: string where
  "LabelCNVOperatorInstall = ''acm/cnv-operator-install''"

definition MTVIntegrationsNamespace :: string where
  "MTVIntegrationsNamespace = ''mtv-integrations''"

definition clusterPermissionAPIVersion :: string where
  "clusterPermissionAPIVersion = ''rbac.open-cluster-management.io/v1alpha1''"

definition clusterPermissionKind :: string where
  "clusterPermissionKind = ''ClusterPermission''"

definition TokenWaitDuration :: nat where
  "TokenWaitDuration = 4"

definition generateGVR :: "string \<Rightarrow> string \<Rightarrow> string \<Rightarrow> gvr" where
  "generateGVR grp version resource =
     \<lparr>gvr_Group = grp, gvr_Version = version, gvr_Resource = resource\<rparr>"

definition ClusterPermissionsGVR :: gvr where
  "ClusterPermissionsGVR = generateGVR ''rbac.open-cluster-management.io'' ''v1alpha1'' ''clusterpermissions''"

definition ManagedServiceAccountsGVR :: gvr where
  "ManagedServiceAccountsGVR =
     generateGVR ''authentication.open-cluster-management.io'' ''v1beta1'' ''managedserviceaccounts''"

definition ProvidersGVR :: gvr where
  "ProvidersGVR = generateGVR ''forklift.konveyor.io'' ''v1beta1'' ''providers''"

definition ProviderSecretGVR :: gvr where
  "ProviderSecretGVR = generateGVR [] ''v1'' ''secrets''"

text \<open>The first URL of the client configurations, or the empty string.\<close>

definition clusterURL :: "ManagedCluster \<Rightarrow> string" where
  "clusterURL mc = (case mc_ClientURLs mc of [] \<Rightarrow> [] | url # _ \<Rightarrow> url)"

definition providerPayload :: "ManagedCluster \<Rightarrow> json" where
  "providerPayload mc =
     (let managedClusterMTV = mc_Name mc @ ''-mtv'' in
      JObj [
        (''apiVersion'', JStr ''forklift.konveyor.io/v1beta1''),
        (''kind'', JStr ''Provider''),
        (''metadata'', JObj [
          (''name'', JStr managedClusterMTV),
          (''namespace'', JStr MTVIntegrationsNamespace)]),
        (''spec'', JObj [
          (''type'', JStr ''openshift''),
          (''url'', JStr (clusterURL mc)),
          (''secret'', JObj [
            (''name'', JStr managedClusterMTV),
            (''namespace'', JStr MTVIntegrationsNamespace)])])])"

definition clusterPermissionPayload :: "ManagedCluster \<Rightarrow> string \<Rightarrow> json" where
  "clusterPermissionPayload mc msaaNamespace =
     (let managedClusterMTV = mc_Name mc @ ''-mtv'' in
      JObj [
        (''apiVersion'', JStr clusterPermissionAPIVersion),
        (''kind'', JStr clusterPermissionKind),
        (''metadata'', JObj [
          (''name'', JStr managedClusterMTV),
          (''namespace'', JStr (mc_Name mc))]),
        (''spec'', JObj [
          (''clusterRoleBinding'', JObj [
            (''subject'', JObj [
              (''kind'', JStr ''ServiceAccount''),
              (''name'', JStr managedClusterMTV),
              (''namespace'', JStr msaaNamespace)]),
            (''roleRef'', JObj [
              (''kind'', JStr ''ClusterRole''),
              (''name'', JStr ''cluster-admin''),
              (''apiGroup'', JStr ''rbac.authorization.k8s.io'')])])])])"

definition advisorClusterPermissionPayload :: "ManagedCluster \<Rightarrow> string \<Rightarrow> json" where
  "advisorClusterPermissionPayload mc managerNamespace =
     (let managedClusterMTVAdvisor = mc_Name mc @ ''-mtv-advisor'' in
      JObj [
        (''apiVersion'', JStr clusterPermissionAPIVersion),
        (''kind'', JStr clusterPermissionKind),
        (''metadata'', JObj [
          (''name'', JStr managedClusterMTVAdvisor),
          (''namespace'', JStr (mc_Name mc))]),
        (''spec'', JObj [
          (''clusterRoleBinding'', JObj [
            (''subject'', JObj [
              (''kind'', JStr ''ServiceAccount''),
              (''name'', JStr ''mtv-integrations-manager''),
              (''namespace'', JStr managerNamespace)]),
            (''roleRef'', JObj [
              (''kind'', JStr ''ClusterRole''),
              (''name'', JStr ''acm-vm-extended:admin''),
              (''apiGroup'', JStr ''rbac.authorization.k8s.io'')])])])])"

lemma gvr_eqs [simp]: "ProviderSecretGVR = SecretsGVR" "ManagedServiceAccountsGVR = MSAsGVR"
  by (simp_all add: ProviderSecretGVR_def SecretsGVR_def ManagedServiceAccountsGVR_def MSAsGVR_def
      generateGVR_def)

lemma gvr_distinct [simp]:
  "ClusterPermissionsGVR \<noteq> MSAsGVR" "ClusterPermissionsGVR \<noteq> SecretsGVR"
  "ClusterPermissionsGVR \<noteq> ProvidersGVR" "MSAsGVR \<noteq> SecretsGVR" "MSAsGVR \<noteq> ProvidersGVR"
  "SecretsGVR \<noteq> ProvidersGVR"
  "MSAsGVR \<noteq> ClusterPermissionsGVR" "SecretsGVR \<noteq> ClusterPermissionsGVR"
  "ProvidersGVR \<noteq> ClusterPermissionsGVR" "SecretsGVR \<noteq> MSAsGVR" "ProvidersGVR \<noteq> MSAsGVR"
  "ProvidersGVR \<noteq> SecretsGVR"
  by (simp_all add: ClusterPermissionsGVR_def SecretsGVR_def MSAsGVR_def ProvidersGVR_def
      generateGVR_def)

lemma payload_keys [simp]:
  "payload_key g ns (providerPayload mc) = (g, ns, mc_Name mc @ ''-mtv'')"
  "payload_key g ns (clusterPermissionPayload mc msaa) = (g, ns, mc_Name mc @ ''-mtv'')"
  "payload_key g ns (advisorClusterPermissionPayload mc mgr) = (g, ns, mc_Name mc @ ''-mtv-advisor'')"
  by (simp_all add: payload_key_def providerPayload_def clusterPermissionPayload_def
      advisorClusterPermissionPayload_def Let_def)

end
