(* ===== verification/ManagedClusterController.thy ===== *)
theory ManagedClusterController
  imports Payloads CaCert
begin

text \<open>
  The reconciler of \<^verbatim>\<open>controllers/managedcluster_controller.go\<close>, function by function, over the
  client calls \<open>K\<close> and the PEM package \<open>P\<close>. A Go function that returns an error is a program
  (\<open>prog\<close>); \<open>Reconcile\<close> and \<open>reconcileActiveCluster\<close> return the pair of result and error
  as the code does. Logging is left out, durations are in seconds.
\<close>

record ctrl_Result =
  RequeueAfter :: nat

definition no_requeue :: ctrl_Result where
  "no_requeue = \<lparr>RequeueAfter = 0\<rparr>"

type_synonym ('w) reconcile = "('w, ctrl_Result \<times> goerr option) prog"

definition ProviderCRDName :: string where
  "ProviderCRDName = ''providers.forklift.konveyor.io''"

definition cnvOperatorInstallEnabled :: string where
  "cnvOperatorInstallEnabled = ''true''"

definition msaaDeploymentName :: string where
  "msaaDeploymentName = ''managed-serviceaccount-addon-agent''"

definition managedClusterMTVName :: "string \<Rightarrow> string" where
  "managedClusterMTVName name = name @ ''-mtv''"

section \<open>Selection\<close>

definition shouldCleanupCluster :: "'w mc_api \<Rightarrow> ManagedCluster \<Rightarrow> bool" where
  "shouldCleanupCluster K mc =
     (if mc_Deleting mc then True
      else map_get (mc_Labels mc) LabelCNVOperatorInstall \<noteq> cnvOperatorInstallEnabled \<and>
           ContainsFinalizer K mc ManagedClusterFinalizer)"

definition shouldManageCluster :: "ManagedCluster \<Rightarrow> bool" where
  "shouldManageCluster mc \<longleftrightarrow>
     \<not> mc_Deleting mc \<and> map_get (mc_Labels mc) LabelCNVOperatorInstall = cnvOperatorInstallEnabled"

definition checkProviderCRD :: "'w mc_api \<Rightarrow> ('w, bool) prog" where
  "checkProviderCRD K =
     onResult (getCRD K ProviderCRDName) (\<lambda>r. case r of
       Inl err \<Rightarrow> if IsNotFound err then ret False else fail err
     | Inr conditions \<Rightarrow>
         ret (list_ex (\<lambda>c. cond_Type c = ''Established'' \<and> cond_Status c = ''True'') conditions))"

section \<open>Creation\<close>

definition ensureFinalizerAndNamespace :: "'w mc_api \<Rightarrow> ManagedCluster \<Rightarrow> ('w, unit) prog" where
  "ensureFinalizerAndNamespace K mc =
     (if ContainsFinalizer K mc ManagedClusterFinalizer then ret ()
      else let original = mc; mc' = AddFinalizer K mc ManagedClusterFinalizer
           in onResult (createNamespace K MTVIntegrationsNamespace) (\<lambda>r. case r of
                Inl err \<Rightarrow> if \<not> IsAlreadyExists err then fail err
                           else patchManagedCluster K mc' original
              | Inr _ \<Rightarrow> patchManagedCluster K mc' original))"

definition createManagedServiceAccount ::
    "'w mc_api \<Rightarrow> ManagedCluster \<Rightarrow> string \<Rightarrow> string \<Rightarrow>
     ('w, ManagedServiceAccount \<times> ctrl_Result) prog" where
  "createManagedServiceAccount K mc managedClusterMTV managedClusterNamespace =
     (let msa = \<lparr>msa_Name = managedClusterMTV, msa_Namespace = managedClusterNamespace,
                 msa_RotationEnabled = True, msa_ValidityMinutes = 60,
                 msa_OwnerRefs = [], msa_TokenSecretRef = None\<rparr>
      in case SetControllerReference K mc msa of
           Inl err \<Rightarrow> fail err
         | Inr msa' \<Rightarrow> andThen (createMSA K msa')
             (\<lambda>_. ret (msa', \<lparr>RequeueAfter = TokenWaitDuration\<rparr>)))"

definition handleManagedServiceAccount ::
    "'w mc_api \<Rightarrow> ManagedCluster \<Rightarrow> string \<Rightarrow> ('w, ManagedServiceAccount \<times> ctrl_Result) prog" where
  "handleManagedServiceAccount K mc managedClusterMTV =
     onResult (getMSA K managedClusterMTV (mc_Name mc)) (\<lambda>r. case r of
       Inl err \<Rightarrow> if IsNotFound err then createManagedServiceAccount K mc managedClusterMTV (mc_Name mc)
                  else fail err
     | Inr msa \<Rightarrow> ret (msa, no_requeue))"

definition reconcileResource ::
    "'w mc_api \<Rightarrow> gvr \<Rightarrow> string \<Rightarrow> string \<Rightarrow> json \<Rightarrow> ('w, unit) prog" where
  "reconcileResource K gvr resourceName namespace payload =
     onResult (dynGet K gvr resourceName namespace) (\<lambda>r. case r of
       Inl err \<Rightarrow>
         if IsNotFound err then
           (case to_unstructured K payload of
              Inl err' \<Rightarrow> fail err'
            | Inr unstructuredPayload \<Rightarrow> dynCreate K gvr namespace unstructuredPayload)
         else fail err
     | Inr _ \<Rightarrow> ret ())"

fun msaaNamespaceOf :: "Deployment list \<Rightarrow> string option" where
  "msaaNamespaceOf [] = None"
| "msaaNamespaceOf (d # ds) =
     (if dep_Name d = msaaDeploymentName then Some (dep_Namespace d) else msaaNamespaceOf ds)"

definition findMsaaDeploymentNs :: "'w mc_api \<Rightarrow> ('w, string) prog" where
  "findMsaaDeploymentNs K =
     andThen (listDeployments K) (\<lambda>items. case msaaNamespaceOf items of
       Some ns \<Rightarrow> ret ns
     | None \<Rightarrow> fail (ApiStatus NotFound msaaDeploymentName))"

definition reconcileClusterPermissions :: "'w mc_api \<Rightarrow> string \<Rightarrow> ManagedCluster \<Rightarrow> ('w, unit) prog" where
  "reconcileClusterPermissions K managerNamespace mc =
     andThen (findMsaaDeploymentNs K) (\<lambda>msaaNamespace.
       if msaaNamespace = [] then ret ()
       else andThen (reconcileResource K ClusterPermissionsGVR (managedClusterMTVName (mc_Name mc))
                       (mc_Name mc) (clusterPermissionPayload mc msaaNamespace)) (\<lambda>_.
         if managerNamespace \<noteq> [] \<and>
            map_get (mc_Labels mc) LabelCNVOperatorInstall = cnvOperatorInstallEnabled
         then reconcileResource K ClusterPermissionsGVR (mc_Name mc @ ''-mtv-advisor'') (mc_Name mc)
                (advisorClusterPermissionPayload mc managerNamespace)
         else ret ()))"

section \<open>The provider secret\<close>

definition secretNeedsUpdate :: "pem_lib \<Rightarrow> Secret \<Rightarrow> Secret \<Rightarrow> bool" where
  "secretNeedsUpdate P providerSecret sourceSecret =
     (let currentCA = data_get providerSecret ''cacert'';
          currentToken = data_get providerSecret ''token'';
          mergedCA = mergeCACert P currentCA (data_get sourceSecret ''ca.crt'')
      in currentCA \<noteq> mergedCA \<or> currentToken \<noteq> data_get sourceSecret ''token'')"

text \<open>The function passed to \<^verbatim>\<open>controllerutil.CreateOrUpdate\<close>.\<close>

definition mutateProviderSecret :: "pem_lib \<Rightarrow> Secret \<Rightarrow> Secret \<Rightarrow> Secret" where
  "mutateProviderSecret P sourceSecret s =
     (let d = (case sec_Data s of None \<Rightarrow> Map.empty | Some d \<Rightarrow> d);
          d1 = d(''cacert'' \<mapsto> mergeCACert P (map_get d ''cacert'') (data_get sourceSecret ''ca.crt''))
      in s\<lparr>sec_Data := Some (d1(''token'' \<mapsto> data_get sourceSecret ''token''))\<rparr>)"

definition updateProviderSecret :: "'w mc_api \<Rightarrow> pem_lib \<Rightarrow> Secret \<Rightarrow> Secret \<Rightarrow> ('w, unit) prog" where
  "updateProviderSecret K P providerSecret sourceSecret =
     createOrUpdateSecret K providerSecret (mutateProviderSecret P sourceSecret)"

definition newProviderSecret :: "ManagedCluster \<Rightarrow> string \<Rightarrow> Secret" where
  "newProviderSecret mc managedClusterMTV =
     \<lparr>sec_Name = managedClusterMTV, sec_Namespace = MTVIntegrationsNamespace,
      sec_Labels = [(''createdForProviderType'', ''openshift''), (''createdForResourceType'', ''providers'')],
      sec_Data = Some [''insecureSkipVerify'' \<mapsto> ''false'', ''url'' \<mapsto> clusterURL mc]\<rparr>"

text \<open>\<^verbatim>\<open>r.Get\<close> reads into the prepared secret: a secret that exists replaces it.\<close>

definition syncProviderSecret ::
    "'w mc_api \<Rightarrow> pem_lib \<Rightarrow> ManagedCluster \<Rightarrow> Secret \<Rightarrow> string \<Rightarrow> ('w, unit) prog" where
  "syncProviderSecret K P mc sourceSecret managedClusterMTV =
     onResult (getSecret K managedClusterMTV MTVIntegrationsNamespace) (\<lambda>r.
       let sync = (\<lambda>providerSecret.
             if secretNeedsUpdate P providerSecret sourceSecret
             then updateProviderSecret K P providerSecret sourceSecret else ret ())
       in case r of
            Inl err \<Rightarrow> if \<not> IsNotFound err then fail err
                       else sync (newProviderSecret mc managedClusterMTV)
          | Inr existing \<Rightarrow> sync existing)"

definition handleProviderSecrets ::
    "'w mc_api \<Rightarrow> pem_lib \<Rightarrow> ManagedCluster \<Rightarrow> ManagedServiceAccount \<Rightarrow> string \<Rightarrow> ('w, unit) prog" where
  "handleProviderSecrets K P mc msa managedClusterMTV =
     (case msa_TokenSecretRef msa of
        None \<Rightarrow> ret ()
      | Some name \<Rightarrow>
          if name = [] then ret ()
          else andThen (getSecret K name (mc_Name mc)) (\<lambda>ogSecret.
                 syncProviderSecret K P mc ogSecret managedClusterMTV))"

definition reconcileProviderResources :: "'w mc_api \<Rightarrow> ManagedCluster \<Rightarrow> ('w, unit) prog" where
  "reconcileProviderResources K mc =
     reconcileResource K ProvidersGVR (managedClusterMTVName (mc_Name mc)) MTVIntegrationsNamespace
       (providerPayload mc)"

text \<open>A call whose error ends the reconciliation with an empty result.\<close>

definition orReturn :: "('w, 'a) prog \<Rightarrow> ('a \<Rightarrow> 'w reconcile) \<Rightarrow> 'w reconcile" where
  "orReturn m k = onResult m (\<lambda>r. case r of Inl err \<Rightarrow> ret (no_requeue, Some err) | Inr x \<Rightarrow> k x)"

definition reconcileActiveCluster ::
    "'w mc_api \<Rightarrow> pem_lib \<Rightarrow> string \<Rightarrow> ManagedCluster \<Rightarrow> 'w reconcile" where
  "reconcileActiveCluster K P managerNamespace mc =
     (let managedClusterMTV = managedClusterMTVName (mc_Name mc);
          finalizerWasAdded = (\<not> ContainsFinalizer K mc ManagedClusterFinalizer)
      in orReturn (ensureFinalizerAndNamespace K mc) (\<lambda>_.
         if finalizerWasAdded then ret (no_requeue, None)
         else orReturn (handleManagedServiceAccount K mc managedClusterMTV) (\<lambda>(msa, result).
           if RequeueAfter result > 0 then ret (result, None)
           else orReturn (reconcileClusterPermissions K managerNamespace mc) (\<lambda>_.
             orReturn (handleProviderSecrets K P mc msa managedClusterMTV) (\<lambda>_.
               orReturn (reconcileProviderResources K mc) (\<lambda>_. ret (no_requeue, None)))))))"

section \<open>Cleanup\<close>

definition deleteResource :: "'w mc_api \<Rightarrow> gvr \<Rightarrow> string \<Rightarrow> string \<Rightarrow> ('w, unit) prog" where
  "deleteResource K gvr resourceName namespace =
     onResult (dynDelete K gvr resourceName namespace) (\<lambda>r. case r of
       Inl err \<Rightarrow> if IsNotFound err then ret () else fail err
     | Inr _ \<Rightarrow> ret ())"

definition cleanupManagedClusterResources :: "'w mc_api \<Rightarrow> ManagedCluster \<Rightarrow> ('w, unit) prog" where
  "cleanupManagedClusterResources K mc =
     (let managedClusterName = mc_Name mc; mtvName = managedClusterMTVName managedClusterName in
      andThen (deleteResource K ClusterPermissionsGVR mtvName managedClusterName) (\<lambda>_.
      andThen (deleteResource K ClusterPermissionsGVR (managedClusterName @ ''-mtv-advisor'') managedClusterName) (\<lambda>_.
      andThen (deleteResource K ManagedServiceAccountsGVR mtvName managedClusterName) (\<lambda>_.
      andThen (deleteResource K ProviderSecretGVR mtvName MTVIntegrationsNamespace) (\<lambda>_.
      andThen (deleteResource K ProvidersGVR mtvName MTVIntegrationsNamespace) (\<lambda>_.
        let original = mc; (removed, mc') = RemoveFinalizer K mc ManagedClusterFinalizer
        in if \<not> removed then ret () else patchManagedCluster K mc' original))))))"

section \<open>Reconcile\<close>

definition Reconcile :: "'w mc_api \<Rightarrow> pem_lib \<Rightarrow> string \<Rightarrow> string \<Rightarrow> 'w reconcile" where
  "Reconcile K P managerNamespace reqName =
     onResult (checkProviderCRD K) (\<lambda>r. case r of
       Inl err \<Rightarrow> ret (\<lparr>RequeueAfter = 10\<rparr>, Some err)
     | Inr crdEstablished \<Rightarrow>
         if \<not> crdEstablished then ret (no_requeue, None)
         else onResult (getManagedCluster K reqName) (\<lambda>r. case r of
           Inl err \<Rightarrow> ret (no_requeue, if IsNotFound err then None else Some err)
         | Inr mc \<Rightarrow>
             if shouldCleanupCluster K mc
             then onResult (cleanupManagedClusterResources K mc) (\<lambda>r. case r of
                    Inl err \<Rightarrow> ret (no_requeue, Some err) | Inr _ \<Rightarrow> ret (no_requeue, None))
             else if shouldManageCluster mc then reconcileActiveCluster K P managerNamespace mc
             else ret (no_requeue, None)))"

text \<open>The map function of the watch on custom resource definitions: the names enqueued.\<close>

definition providerCRDRequests :: "'w mc_api \<Rightarrow> string \<Rightarrow> ('w, string list) prog" where
  "providerCRDRequests K objName =
     (if objName \<noteq> ProviderCRDName then ret []
      else onResult (listManagedClusters K) (\<lambda>r. case r of
        Inl err \<Rightarrow> ret [] | Inr items \<Rightarrow> ret (map mc_Name items)))"

end
