(* ===== verification/ManagedClusterProps.thy ===== *)
theory ManagedClusterProps
  imports ManagedClusterController PemRef
begin

text \<open>
  The properties of the ManagedCluster reconciler, for every hub with the laws of
  \<open>kube_hub\<close>: what a cleanup guarantees, that resources never outlive the finalizer that
  guards them, that clusters do not interfere, and, for a hub without faults, that the
  reconciler reaches the intended state and rests there.
\<close>

section \<open>Steps of a program on a view\<close>

definition steps :: "('w \<Rightarrow> 'h) \<Rightarrow> ('h \<Rightarrow> 'h \<Rightarrow> bool) \<Rightarrow> ('w, 'a) prog \<Rightarrow> bool" where
  "steps V R m \<longleftrightarrow> (\<forall>w. R (V w) (V (snd (m w))))"

lemma stepsD: "steps V R m \<Longrightarrow> R (V w) (V (snd (m w)))"
  by (simp add: steps_def)

lemma steps_mono: "steps V R m \<Longrightarrow> (\<And>h h'. R h h' \<Longrightarrow> S h h') \<Longrightarrow> steps V S m"
  by (simp add: steps_def)

lemma steps_ret: "reflp R \<Longrightarrow> steps V R (ret x)"
  and steps_fail: "reflp R \<Longrightarrow> steps V R (fail e)"
  by (simp_all add: steps_def prog_defs reflpD)

lemma steps_onResult:
  assumes "transp R" and "steps V R m" and "\<And>r. steps V R (f r)"
  shows "steps V R (onResult m f)"
proof -
  have "R (V w) (V (snd (onResult m f w)))" for w
  proof -
    obtain r w1 where m: "m w = (r, w1)" by (cases "m w")
    have "R (V w) (V w1)" using stepsD [OF assms(2), of w] m by simp
    moreover have "R (V w1) (V (snd (f r w1)))" by (rule stepsD [OF assms(3)])
    ultimately show ?thesis using assms(1) m by (auto simp: onResult_def dest: transpD)
  qed
  then show ?thesis by (simp add: steps_def)
qed

lemma andThen_onResult:
  "andThen m f = onResult m (\<lambda>r. case r of Inl e \<Rightarrow> fail e | Inr x \<Rightarrow> f x)"
  by (auto simp: prog_defs fun_eq_iff split: prod.splits sum.splits)

lemma steps_andThen:
  assumes "reflp R" and "transp R" and "steps V R m" and "\<And>x. steps V R (f x)"
  shows "steps V R (andThen m f)"
  unfolding andThen_onResult
  by (rule steps_onResult [OF assms(2,3)]) (simp split: sum.split add: assms(4) steps_fail [OF assms(1)])

lemma steps_orReturn:
  assumes "reflp R" and "transp R" and "steps V R m" and "\<And>x. steps V R (f x)"
  shows "steps V R (orReturn m f)"
  unfolding orReturn_def
  by (rule steps_onResult [OF assms(2,3)]) (simp split: sum.split add: assms(4) steps_ret [OF assms(1)])

section \<open>The resources of a cluster\<close>

definition cluster_keys :: "string \<Rightarrow> okey list" where
  "cluster_keys n =
     [(ClusterPermissionsGVR, n, n @ ''-mtv''), (ClusterPermissionsGVR, n, n @ ''-mtv-advisor''),
      (MSAsGVR, n, n @ ''-mtv''), (SecretsGVR, MTVIntegrationsNamespace, n @ ''-mtv''),
      (ProvidersGVR, MTVIntegrationsNamespace, n @ ''-mtv'')]"

definition all_released :: "string \<Rightarrow> hub \<Rightarrow> bool" where
  "all_released n h \<longleftrightarrow> list_all (released h) (cluster_keys n)"

definition has_finalizer :: "string \<Rightarrow> hub \<Rightarrow> bool" where
  "has_finalizer n h \<longleftrightarrow>
     (case hub_clusters h n of None \<Rightarrow> False | Some c \<Rightarrow> ManagedClusterFinalizer \<in> set (mc_Finalizers c))"

text \<open>The finalizer guards the resources: without it there are none.\<close>

definition guarded :: "string \<Rightarrow> hub \<Rightarrow> bool" where
  "guarded n h \<longleftrightarrow> has_finalizer n h \<or> all_released n h"

lemma cluster_keys_disjoint: "n \<noteq> m \<Longrightarrow> set (cluster_keys n) \<inter> set (cluster_keys m) = {}"
  by (auto simp: cluster_keys_def)

text \<open>Nothing but the cluster \<open>n\<close> and its five resources differs.\<close>

definition within :: "string \<Rightarrow> hub \<Rightarrow> hub \<Rightarrow> bool" where
  "within n h h' \<longleftrightarrow>
     (\<forall>m. m \<noteq> n \<longrightarrow> hub_clusters h' m = hub_clusters h m) \<and>
     (\<forall>k. k \<notin> set (cluster_keys n) \<longrightarrow> same_obj k h h') \<and>
     hub_crds h' = hub_crds h \<and> hub_deployments h' = hub_deployments h"

lemma within_refl: "reflp (within n)"
  by (rule reflpI) (simp add: within_def)

lemma within_trans: "transp (within n)"
  by (rule transpI) (simp add: within_def same_obj_def)

lemma only_obj_within: "only_obj k h h' \<Longrightarrow> k \<in> set (cluster_keys n) \<Longrightarrow> within n h h'"
  unfolding only_obj_def within_def by metis

text \<open>Only the resources of \<open>n\<close> differ: the cluster itself does not.\<close>

definition res_within :: "string \<Rightarrow> hub \<Rightarrow> hub \<Rightarrow> bool" where
  "res_within n h h' \<longleftrightarrow> within n h h' \<and> hub_clusters h' = hub_clusters h"

lemma res_within_refl: "reflp (res_within n)"
  using within_refl by (simp add: res_within_def reflp_def)

lemma res_within_trans: "transp (res_within n)"
  using within_trans unfolding res_within_def transp_def by metis

lemma only_obj_res_within: "only_obj k h h' \<Longrightarrow> k \<in> set (cluster_keys n) \<Longrightarrow> res_within n h h'"
  by (simp add: res_within_def only_obj_within) (simp add: only_obj_def)

text \<open>The program after the cluster has been read.\<close>

definition dispatch :: "'w mc_api \<Rightarrow> pem_lib \<Rightarrow> string \<Rightarrow> ManagedCluster \<Rightarrow> 'w reconcile" where
  "dispatch K P mgr mc =
     (if shouldCleanupCluster K mc
      then orReturn (cleanupManagedClusterResources K mc) (\<lambda>_. ret (no_requeue, None))
      else if shouldManageCluster mc then reconcileActiveCluster K P mgr mc
      else ret (no_requeue, None))"

section \<open>The cleanup as a sequence of deletions\<close>

definition rel_mono :: "hub \<Rightarrow> hub \<Rightarrow> bool" where
  "rel_mono h h' \<longleftrightarrow> hub_clusters h' = hub_clusters h \<and> (\<forall>k. released h k \<longrightarrow> released h' k)"

lemma rel_mono_refl: "reflp rel_mono"
  and rel_mono_trans: "transp rel_mono"
  by (simp_all add: reflp_def transp_def rel_mono_def)

fun deleteAll :: "'w mc_api \<Rightarrow> okey list \<Rightarrow> ('w, unit) prog \<Rightarrow> ('w, unit) prog" where
  "deleteAll K [] m = m"
| "deleteAll K ((g, ns, n) # ks) m = andThen (deleteResource K g n ns) (\<lambda>_. deleteAll K ks m)"

definition removeFinalizer :: "'w mc_api \<Rightarrow> ManagedCluster \<Rightarrow> ('w, unit) prog" where
  "removeFinalizer K mc =
     (case RemoveFinalizer K mc ManagedClusterFinalizer of
        (removed, mc') \<Rightarrow> if removed then patchManagedCluster K mc' mc else ret ())"

lemma cleanup_deleteAll:
  "mc_Name mc = n \<Longrightarrow>
   cleanupManagedClusterResources K mc = deleteAll K (cluster_keys n) (removeFinalizer K mc)"
  by (auto simp: cleanupManagedClusterResources_def removeFinalizer_def cluster_keys_def
      managedClusterMTVName_def Let_def split: prod.split)

lemmas res_rules = steps_andThen [OF res_within_refl res_within_trans]
  steps_onResult [OF res_within_trans] steps_orReturn [OF res_within_refl res_within_trans]
  steps_ret [OF res_within_refl] steps_fail [OF res_within_refl]

context kube_hub
begin

lemma steps_reads:
  assumes "reflp R"
  shows "steps V R (getCRD K n)" "steps V R (getManagedCluster K n)"
    "steps V R (getMSA K n ns)" "steps V R (listDeployments K)" "steps V R (getSecret K n ns)"
    "steps V R (dynGet K g n ns)" "steps V R (createNamespace K n)"
  using assms by (simp_all add: steps_def reads reflpD)

lemma steps_delete: "(g, ns, n) \<in> set (cluster_keys m) \<Longrightarrow> steps V (res_within m) (dynDelete K g n ns)"
  unfolding steps_def using dyn_delete only_obj_res_within by blast

lemma steps_deleteResource:
  "(g, ns, n) \<in> set (cluster_keys m) \<Longrightarrow> steps V (res_within m) (deleteResource K g n ns)"
  unfolding deleteResource_def
  by (intro res_rules steps_delete) (auto split: sum.split intro: res_rules)

lemma steps_patch: "mc_Name mc = m \<Longrightarrow> steps V (within m) (patchManagedCluster K mc orig)"
  unfolding steps_def within_def same_obj_def by (auto simp: patch_frame)

lemma steps_reconcileResource:
  assumes "payload_key g ns j \<in> set (cluster_keys m)"
  shows "steps V (res_within m) (reconcileResource K g n ns j)"
  unfolding reconcileResource_def
proof (intro res_rules steps_reads(6) res_within_refl)
  have "steps V (res_within m) (dynCreate K g ns j')" if "to_unstructured K j = Inr j'" for j'
  proof -
    have "payload_key g ns j' = payload_key g ns j"
      using json_copy [OF that] by (simp add: payload_key_def del: jpath_Cons)
    then show ?thesis using assms dyn_create only_obj_res_within unfolding steps_def by metis
  qed
  then show "steps V (res_within m) (case r of
      Inl err \<Rightarrow> if IsNotFound err then
           (case to_unstructured K j of Inl err' \<Rightarrow> fail err' | Inr x \<Rightarrow> dynCreate K g ns x)
         else fail err | Inr _ \<Rightarrow> ret ())" for r
    by (auto split: sum.split intro: res_rules)
qed

lemma key_member:
  "(ClusterPermissionsGVR, n, n @ ''-mtv'') \<in> set (cluster_keys n)"
  "(ClusterPermissionsGVR, n, n @ ''-mtv-advisor'') \<in> set (cluster_keys n)"
  "(MSAsGVR, n, n @ ''-mtv'') \<in> set (cluster_keys n)"
  "(SecretsGVR, MTVIntegrationsNamespace, n @ ''-mtv'') \<in> set (cluster_keys n)"
  "(ProvidersGVR, MTVIntegrationsNamespace, n @ ''-mtv'') \<in> set (cluster_keys n)"
  by (simp_all add: cluster_keys_def)

lemma steps_createMSA:
  assumes "msa_key m \<in> set (cluster_keys n)"
  shows "steps V (res_within n) (createMSA K m)"
  unfolding steps_def using create_msa only_obj_res_within [OF _ assms] by blast

lemma steps_handleMSA:
  "steps V (res_within (mc_Name mc)) (handleManagedServiceAccount K mc (managedClusterMTVName (mc_Name mc)))"
proof -
  have "steps V (res_within (mc_Name mc))
      (createManagedServiceAccount K mc (managedClusterMTVName (mc_Name mc)) (mc_Name mc))"
    unfolding createManagedServiceAccount_def Let_def managedClusterMTVName_def
    using set_controller key_member(3) [of "mc_Name mc"]
    by (auto split: sum.split intro!: res_rules steps_createMSA simp: msa_key_def)
  then show ?thesis
    unfolding handleManagedServiceAccount_def
    by (intro res_rules steps_reads res_within_refl) (auto split: sum.split intro: res_rules)
qed

lemma steps_permissions: "steps V (res_within (mc_Name mc)) (reconcileClusterPermissions K mgr mc)"
proof -
  have find: "steps V (res_within (mc_Name mc)) (findMsaaDeploymentNs K)"
    unfolding findMsaaDeploymentNs_def
    by (intro res_rules steps_reads res_within_refl) (auto split: option.split intro: res_rules)
  show ?thesis
    unfolding reconcileClusterPermissions_def managedClusterMTVName_def
    by (intro res_rules find)
      (auto intro!: res_rules steps_reconcileResource simp: key_member)
qed

lemma steps_secrets:
  "steps V (res_within (mc_Name mc)) (handleProviderSecrets K P mc msa (managedClusterMTVName (mc_Name mc)))"
proof -
  let ?n = "managedClusterMTVName (mc_Name mc)"
  have upd: "steps V (res_within (mc_Name mc)) (updateProviderSecret K P s src)"
    if "sec_key s = (SecretsGVR, MTVIntegrationsNamespace, ?n)" for s src
    unfolding steps_def updateProviderSecret_def
    using create_update_secret [of s] only_obj_res_within [of _ _ _ "mc_Name mc"] that key_member(4)
    by (metis managedClusterMTVName_def)
  have "steps V (res_within (mc_Name mc)) (syncProviderSecret K P mc src ?n)" for src
  proof -
    have "res_within (mc_Name mc) (V w) (V (snd (syncProviderSecret K P mc src ?n w)))" for w
    proof -
      obtain r w1 where g: "getSecret K ?n MTVIntegrationsNamespace w = (r, w1)"
        by (cases "getSecret K ?n MTVIntegrationsNamespace w")
      have w1: "V w1 = V w" using reads(6) g by (metis snd_conv)
      have new: "sec_key (newProviderSecret mc ?n) = (SecretsGVR, MTVIntegrationsNamespace, ?n)"
        by (simp add: sec_key_def newProviderSecret_def)
      have old: "r = Inr s \<Longrightarrow> sec_key s = (SecretsGVR, MTVIntegrationsNamespace, ?n)" for s
        using get_secret g by (simp add: sec_key_def)
      show ?thesis
        using w1 g stepsD [OF upd [OF new, of src], where w = w1] stepsD [OF upd, where w = w1] old
          reflpD [OF res_within_refl]
        by (auto simp: syncProviderSecret_def onResult_def Let_def fail_def ret_def split: sum.splits)
    qed
    then show ?thesis by (simp add: steps_def)
  qed
  then show ?thesis
    unfolding handleProviderSecrets_def
    by (auto split: option.split intro!: res_rules steps_reads res_within_refl)
qed

lemma steps_provider: "steps V (res_within (mc_Name mc)) (reconcileProviderResources K mc)"
  unfolding reconcileProviderResources_def
  by (rule steps_reconcileResource) (simp add: key_member)

lemmas creation_steps = steps_handleMSA steps_permissions steps_secrets steps_provider

text \<open>With the finalizer in place, an active cluster is reconciled without touching it.\<close>

lemma steps_active:
  assumes "ContainsFinalizer K mc ManagedClusterFinalizer"
  shows "steps V (res_within (mc_Name mc)) (reconcileActiveCluster K P mgr mc)"
  unfolding reconcileActiveCluster_def ensureFinalizerAndNamespace_def Let_def
  using assms by (auto intro!: res_rules creation_steps split: prod.split)

lemma steps_five_deletes:
  "mc_Name mc = n \<Longrightarrow> steps V (within n) (cleanupManagedClusterResources K mc)"
proof -
  assume n: "mc_Name mc = n"
  have del: "steps V (within n) (deleteResource K g r ns)" if "(g, ns, r) \<in> set (cluster_keys n)" for g ns r
    using steps_mono [OF steps_deleteResource [OF that]] by (simp add: res_within_def)
  note rules = steps_andThen [OF within_refl within_trans] steps_ret [OF within_refl]
  have "steps V (within n) (if \<not> removed then ret () else patchManagedCluster K mc' mc)"
    if "RemoveFinalizer K mc ManagedClusterFinalizer = (removed, mc')" for removed mc'
    using remove_finalizer [OF that] n by (auto intro: rules steps_patch)
  then show ?thesis
    unfolding cleanupManagedClusterResources_def Let_def managedClusterMTVName_def n gvr_eqs
    by (intro rules del) (auto simp: key_member split: prod.split)
qed

lemma steps_ensure: "mc_Name mc = n \<Longrightarrow> steps V (within n) (ensureFinalizerAndNamespace K mc)"
  unfolding ensureFinalizerAndNamespace_def Let_def
  by (auto split: sum.split intro!: steps_onResult [OF within_trans] steps_ret [OF within_refl]
      steps_fail [OF within_refl] steps_reads within_refl steps_patch simp: add_finalizer)

lemma steps_active_within:
  assumes "mc_Name mc = n"
  shows "steps V (within n) (reconcileActiveCluster K P mgr mc)"
proof (cases "ContainsFinalizer K mc ManagedClusterFinalizer")
  case True
  show ?thesis using steps_mono [OF steps_active [OF True]] assms by (simp add: res_within_def)
next
  case False
  then show ?thesis
    unfolding reconcileActiveCluster_def Let_def
    by (auto intro!: steps_orReturn within_refl within_trans steps_ensure steps_ret assms)
qed

lemma steps_dispatch: "mc_Name mc = n \<Longrightarrow> steps V (within n) (dispatch K P mgr mc)"
  unfolding dispatch_def
  by (auto intro!: steps_orReturn within_refl within_trans steps_five_deletes steps_active_within steps_ret)

text \<open>A reconciliation either leaves the hub alone or reads the cluster and goes on with it.\<close>

lemma Reconcile_cases:
  obtains (stop) "V (snd (Reconcile K P mgr n w)) = V w"
      and "fst (Reconcile K P mgr n w) = Inr (no_requeue, None) \<or>
           (\<exists>r e. fst (Reconcile K P mgr n w) = Inr (r, Some e))"
      and "\<not> (\<exists>w1. checkProviderCRD K w = (Inr True, w1) \<and>
             (\<exists>mc. fst (getManagedCluster K n w1) = Inr mc))"
  | (run) mc w2 where "hub_clusters (V w) n = Some mc" and "mc_Name mc = n" and "V w2 = V w"
      and "Reconcile K P mgr n w = dispatch K P mgr mc w2"
proof -
  obtain r w1 where c: "checkProviderCRD K w = (r, w1)" by (cases "checkProviderCRD K w")
  have w1: "V w1 = V w"
    using c reads(1) [of ProviderCRDName w]
    by (auto simp: checkProviderCRD_def prog_defs split: prod.splits sum.splits if_splits)
  obtain g w2 where g: "getManagedCluster K n w1 = (g, w2)" by (cases "getManagedCluster K n w1")
  have w2: "V w2 = V w" using g reads(2) w1 by (metis snd_conv)
  show ?thesis
  proof (cases "r = Inr True \<and> (\<exists>mc. g = Inr mc)")
    case True
    then obtain mc where mc: "g = Inr mc" by blast
    have "Reconcile K P mgr n w = dispatch K P mgr mc w2"
      using c g True mc by (simp add: Reconcile_def onResult_def dispatch_def orReturn_def)
    moreover have "hub_clusters (V w) n = Some mc" "mc_Name mc = n"
      using get_cluster [of n w1 mc w2] g mc w1 by auto
    ultimately show ?thesis using run w2 by blast
  next
    case False
    with c g w1 w2 show ?thesis
      by (intro stop) (auto simp: Reconcile_def onResult_def ret_def split: sum.splits if_splits)
  qed
qed

lemma Reconcile_within: "steps V (within n) (Reconcile K P mgr n)"
  unfolding steps_def
proof
  fix w
  show "within n (V w) (V (snd (Reconcile K P mgr n w)))"
  proof (cases rule: Reconcile_cases [of P mgr n w])
    case stop
    then show ?thesis by (simp add: within_def)
  next
    case (run mc w2)
    then show ?thesis using stepsD [OF steps_dispatch [OF run(2), of P mgr], where w = w2] by simp
  qed
qed

section \<open>Deletion\<close>

lemma deleteResource_releases: "deleteResource K g n ns w = (Inr u, w') \<Longrightarrow> released (V w') (g, ns, n)"
  using delete_ok [of g n ns w] delete_not_found [of g n ns w]
  by (auto simp: deleteResource_def prog_defs split: prod.splits sum.splits if_splits)

lemma deleteResource_monotone: "released (V w) k \<Longrightarrow> released (V (snd (deleteResource K g n ns w))) k"
  using delete_monotone [of w k g n ns]
  by (auto simp: deleteResource_def prog_defs split: prod.splits sum.splits)

lemma steps_deleteResource_mono: "steps V rel_mono (deleteResource K g n ns)"
proof -
  have "hub_clusters (V (snd (deleteResource K g n ns w))) = hub_clusters (V w)" for w
    using dyn_delete [of g ns n w]
    by (auto simp: deleteResource_def prog_defs only_obj_def split: prod.splits sum.splits)
  then show ?thesis unfolding steps_def rel_mono_def using deleteResource_monotone by blast
qed

lemma deleteAll_cases:
  obtains (failed) e w' where "deleteAll K ks m w = (Inl e, w')" and "rel_mono (V w) (V w')"
  | (deleted) w' where "deleteAll K ks m w = m w'" and "rel_mono (V w) (V w')"
      and "list_all (released (V w')) ks"
proof (induction ks arbitrary: w thesis)
  case Nil
  then show ?case by (simp add: reflpD [OF rel_mono_refl])
next
  case (Cons k ks)
  obtain g ns n where k: "k = (g, ns, n)" by (cases k)
  obtain r w1 where d: "deleteResource K g n ns w = (r, w1)" by (cases "deleteResource K g n ns w")
  have m1: "rel_mono (V w) (V w1)" using stepsD [OF steps_deleteResource_mono, of w g n ns] d by simp
  show ?case
  proof (cases r)
    case (Inl e)
    with d k m1 show ?thesis using Cons.prems(1) by (simp add: andThen_def)
  next
    case (Inr u)
    then have rel: "released (V w1) (g, ns, n)" using deleteResource_releases d by blast
    have step: "deleteAll K (k # ks) m w = deleteAll K ks m w1" using d k Inr by (simp add: andThen_def)
    show ?thesis
    proof (rule Cons.IH [of w1])
      show thesis if "deleteAll K ks m w1 = (Inl e, w')" "rel_mono (V w1) (V w')" for e w'
        using Cons.prems(1) [of e w'] step that(1) transpD [OF rel_mono_trans m1 that(2)] by simp
      show thesis if "deleteAll K ks m w1 = m w'" "rel_mono (V w1) (V w')"
          "list_all (released (V w')) ks" for w'
      proof (rule Cons.prems(2))
        show "deleteAll K (k # ks) m w = m w'" using step that(1) by simp
        show "rel_mono (V w) (V w')" using transpD [OF rel_mono_trans m1 that(2)] .
        show "list_all (released (V w')) (k # ks)" using that(2,3) rel k by (simp add: rel_mono_def)
      qed
    qed
  qed
qed

lemma removeFinalizer_patch:
  assumes "mc_Name mc = n" and "hub_clusters (V w) n = Some mc"
  shows "hub_objs (V (snd (removeFinalizer K mc w))) = hub_objs (V w)"
    and "hub_terminating (V (snd (removeFinalizer K mc w))) = hub_terminating (V w)"
    and "fst (removeFinalizer K mc w) = Inr u \<Longrightarrow> \<not> has_finalizer n (V (snd (removeFinalizer K mc w)))"
proof -
  obtain removed mc' where r: "RemoveFinalizer K mc ManagedClusterFinalizer = (removed, mc')"
    by (cases "RemoveFinalizer K mc ManagedClusterFinalizer")
  note law = remove_finalizer [OF r]
  show "hub_objs (V (snd (removeFinalizer K mc w))) = hub_objs (V w)"
    and "hub_terminating (V (snd (removeFinalizer K mc w))) = hub_terminating (V w)"
    using r by (simp_all add: removeFinalizer_def ret_def patch_frame)
  assume ok: "fst (removeFinalizer K mc w) = Inr u"
  show "\<not> has_finalizer n (V (snd (removeFinalizer K mc w)))"
  proof (cases removed)
    case True
    then have "removeFinalizer K mc w = patchManagedCluster K mc' mc w"
      using r by (simp add: removeFinalizer_def)
    with ok show ?thesis
      using patch_ok [of mc' mc w u "snd (removeFinalizer K mc w)"] law assms(1)
      by (auto simp: has_finalizer_def prod_eq_iff split: option.splits)
  next
    case False
    with r law assms(2) show ?thesis
      by (auto simp: removeFinalizer_def ret_def has_finalizer_def)
  qed
qed

lemma cleanup_ok:
  assumes "mc_Name mc = n" and "hub_clusters (V w) n = Some mc"
    and "fst (cleanupManagedClusterResources K mc w) = Inr u"
  shows "all_released n (V (snd (cleanupManagedClusterResources K mc w)))"
    and "\<not> has_finalizer n (V (snd (cleanupManagedClusterResources K mc w)))"
proof -
  have "all_released n (V (snd (cleanupManagedClusterResources K mc w))) \<and>
      \<not> has_finalizer n (V (snd (cleanupManagedClusterResources K mc w)))"
    unfolding cleanup_deleteAll [OF assms(1)]
  proof (rule deleteAll_cases [of "cluster_keys n" "removeFinalizer K mc" w], goal_cases)
    case (1 e w')
    then show ?case using assms(3) by (simp add: cleanup_deleteAll [OF assms(1)])
  next
    case (2 w')
    then have c: "hub_clusters (V w') n = Some mc" using assms(2) by (simp add: rel_mono_def)
    show ?case
      using 2 removeFinalizer_patch [OF assms(1) c] assms(3)
      by (simp add: cleanup_deleteAll [OF assms(1)] all_released_def released_def list_all_iff)
  qed
  then show "all_released n (V (snd (cleanupManagedClusterResources K mc w)))"
    and "\<not> has_finalizer n (V (snd (cleanupManagedClusterResources K mc w)))" by simp_all
qed

section \<open>The guard\<close>

lemma guarded_rel_mono: "guarded n h \<Longrightarrow> rel_mono h h' \<Longrightarrow> guarded n h'"
  by (auto simp: guarded_def rel_mono_def has_finalizer_def all_released_def list_all_iff)

lemma cleanup_guarded:
  assumes "mc_Name mc = n" and "hub_clusters (V w) n = Some mc" and "guarded n (V w)"
  shows "guarded n (V (snd (cleanupManagedClusterResources K mc w)))"
  unfolding cleanup_deleteAll [OF assms(1)]
proof (rule deleteAll_cases [of "cluster_keys n" "removeFinalizer K mc" w], goal_cases)
  case (1 e w')
  then show ?case using guarded_rel_mono [OF assms(3)] by simp
next
  case (2 w')
  then have c: "hub_clusters (V w') n = Some mc" using assms(2) by (simp add: rel_mono_def)
  show ?case
    using 2 removeFinalizer_patch [OF assms(1) c]
    by (simp add: guarded_def all_released_def released_def list_all_iff)
qed

lemma active_guarded:
  assumes "mc_Name mc = n" and "hub_clusters (V w) n = Some mc" and "guarded n (V w)"
  shows "guarded n (V (snd (reconcileActiveCluster K P mgr mc w)))"
proof (cases "ContainsFinalizer K mc ManagedClusterFinalizer")
  case True
  have "hub_clusters (V (snd (reconcileActiveCluster K P mgr mc w))) = hub_clusters (V w)"
    using stepsD [OF steps_active [OF True, of P mgr], where w = w] by (simp add: res_within_def)
  with True assms(2) show ?thesis by (simp add: guarded_def has_finalizer_def contains_finalizer)
next
  case False
  then have rel: "all_released n (V w)"
    using assms(2,3) by (simp add: guarded_def has_finalizer_def contains_finalizer)
  let ?mc' = "AddFinalizer K mc ManagedClusterFinalizer"
  obtain r w1 where ns: "createNamespace K MTVIntegrationsNamespace w = (r, w1)"
    by (cases "createNamespace K MTVIntegrationsNamespace w")
  have w1: "V w1 = V w" using reads(8) [of MTVIntegrationsNamespace w] ns by simp
  have fin: "snd (reconcileActiveCluster K P mgr mc w) = w1 \<or>
      snd (reconcileActiveCluster K P mgr mc w) = snd (patchManagedCluster K ?mc' mc w1)"
    using False ns
    by (auto simp: reconcileActiveCluster_def ensureFinalizerAndNamespace_def Let_def orReturn_def
        onResult_def ret_def fail_def split: sum.splits prod.splits)
  then show ?thesis
    using rel w1 patch_frame(1,2) [of ?mc' mc w1]
    by (auto simp: guarded_def all_released_def released_def list_all_iff)
qed

lemma Reconcile_guarded:
  assumes "guarded n (V w)"
  shows "guarded n (V (snd (Reconcile K P mgr m w)))"
proof (cases "n = m")
  case True
  show ?thesis
  proof (cases rule: Reconcile_cases [of P mgr n w])
    case stop
    then show ?thesis using assms True by simp
  next
    case (run mc w2)
    have "snd (dispatch K P mgr mc w2) \<in>
        {w2, snd (cleanupManagedClusterResources K mc w2), snd (reconcileActiveCluster K P mgr mc w2)}"
      by (auto simp: dispatch_def orReturn_def onResult_def ret_def split: prod.splits sum.splits)
    then show ?thesis
      using run True assms cleanup_guarded [of mc n w2] active_guarded [of mc n w2] by auto
  qed
next
  case False
  have w: "within m (V w) (V (snd (Reconcile K P mgr m w)))" by (rule stepsD [OF Reconcile_within])
  then have "\<forall>k\<in>set (cluster_keys n). same_obj k (V w) (V (snd (Reconcile K P mgr m w)))"
    using cluster_keys_disjoint [OF False] unfolding within_def by blast
  with w False assms show ?thesis
    by (auto simp: guarded_def has_finalizer_def within_def all_released_def list_all_iff
        same_obj_released split: option.splits)
qed

end

section \<open>Histories of the hub\<close>

text \<open>What other clients do between two reconciliations: they may add clusters and edit them,
  but leave the finalizer of this controller in place, and they do not create resources
  under the names of this controller.\<close>

definition env_step :: "hub \<Rightarrow> hub \<Rightarrow> bool" where
  "env_step h h' \<longleftrightarrow>
     (\<forall>n. has_finalizer n h \<longrightarrow> has_finalizer n h') \<and>
     (\<forall>n. \<forall>k\<in>set (cluster_keys n). released h k \<longrightarrow> released h' k)"

inductive reachable :: "'w mc_api \<Rightarrow> ('w \<Rightarrow> hub) \<Rightarrow> pem_lib \<Rightarrow> string \<Rightarrow> 'w \<Rightarrow> bool"
  for K V P mgr where
  start: "hub_objs (V w) = Map.empty \<Longrightarrow> reachable K V P mgr w"
| reconcile: "reachable K V P mgr w \<Longrightarrow> reachable K V P mgr (snd (Reconcile K P mgr n w))"
| others: "reachable K V P mgr w \<Longrightarrow> env_step (V w) (V w') \<Longrightarrow> reachable K V P mgr w'"

lemma env_step_guarded: "env_step h h' \<Longrightarrow> guarded n h \<Longrightarrow> guarded n h'"
  unfolding env_step_def guarded_def all_released_def list_all_iff by blast

lemma reachable_guarded:
  assumes "kube_hub K V" and "reachable K V P mgr w"
  shows "guarded n (V w)"
  using assms(2)
proof (induction rule: reachable.induct)
  case (start w)
  then show ?case by (simp add: guarded_def all_released_def list_all_iff released_def)
next
  case (reconcile w m)
  then show ?case using kube_hub.Reconcile_guarded [OF assms(1)] by blast
next
  case (others w w')
  then show ?case using env_step_guarded by blast
qed

section \<open>A hub without faults\<close>

text \<open>At most the object \<open>k\<close> is new; it exists, and if it existed nothing changed.\<close>

definition ensured :: "okey \<Rightarrow> hub \<Rightarrow> hub \<Rightarrow> bool" where
  "ensured k h h' \<longleftrightarrow> only_obj k h h' \<and> hub_objs h' k \<noteq> None \<and> (hub_objs h k \<noteq> None \<longrightarrow> h' = h)"

lemma ensured_other: "ensured k h h' \<Longrightarrow> k' \<noteq> k \<Longrightarrow> hub_objs h' k' = hub_objs h k'"
  unfolding ensured_def only_obj_def same_obj_def by blast

lemma ensured_rest: "ensured k h h' \<Longrightarrow> hub_deployments h' = hub_deployments h"
  "ensured k h h' \<Longrightarrow> hub_clusters h' = hub_clusters h" "ensured k h h' \<Longrightarrow> hub_crds h' = hub_crds h"
  by (simp_all add: ensured_def only_obj_def)

lemma ensured_grows: "ensured k h h' \<Longrightarrow> hub_objs h k' \<noteq> None \<Longrightarrow> hub_objs h' k' = hub_objs h k'"
  by (metis ensured_def ensured_other)

definition established :: "hub \<Rightarrow> bool" where
  "established h \<longleftrightarrow>
     (\<exists>cs. hub_crds h ProviderCRDName = Some cs \<and>
        list_ex (\<lambda>c. cond_Type c = ''Established'' \<and> cond_Status c = ''True'') cs)"

text \<open>What is left of an active reconciliation once the service account has been read.\<close>

definition Reconcile_tail ::
    "'w mc_api \<Rightarrow> pem_lib \<Rightarrow> string \<Rightarrow> ManagedCluster \<Rightarrow> ManagedServiceAccount \<Rightarrow> 'w reconcile" where
  "Reconcile_tail K P mgr mc msa =
     orReturn (reconcileClusterPermissions K mgr mc) (\<lambda>_.
       orReturn (handleProviderSecrets K P mc msa (managedClusterMTVName (mc_Name mc))) (\<lambda>_.
         orReturn (reconcileProviderResources K mc) (\<lambda>_. ret (no_requeue, None))))"

text \<open>The token secret of the service account is there.\<close>

definition ready_token :: "hub \<Rightarrow> ManagedCluster \<Rightarrow> ManagedServiceAccount \<Rightarrow> Secret \<Rightarrow> bool" where
  "ready_token h mc msa src \<longleftrightarrow>
     (\<exists>t. msa_TokenSecretRef msa = Some t \<and> t \<noteq> [] \<and>
        hub_objs h (SecretsGVR, mc_Name mc, t) = Some (SecretObj src) \<and>
        sec_key src = (SecretsGVR, mc_Name mc, t))"

definition secret_ok :: "hub \<Rightarrow> okey \<Rightarrow> bool" where
  "secret_ok h k \<longleftrightarrow>
     (case hub_objs h k of None \<Rightarrow> True | Some v \<Rightarrow> (\<exists>s. v = SecretObj s \<and> sec_key s = k))"

definition provider_secret :: "ManagedCluster \<Rightarrow> hub \<Rightarrow> Secret option" where
  "provider_secret mc h =
     (case hub_objs h (SecretsGVR, MTVIntegrationsNamespace, mc_Name mc @ ''-mtv'') of
        Some (SecretObj s) \<Rightarrow> Some s | _ \<Rightarrow> None)"

definition settled :: "pem_lib \<Rightarrow> ManagedCluster \<Rightarrow> Secret \<Rightarrow> hub \<Rightarrow> bool" where
  "settled P mc src h \<longleftrightarrow>
     (case provider_secret mc h of None \<Rightarrow> False | Some s \<Rightarrow> \<not> secretNeedsUpdate P s src)"

text \<open>The provider secret after a synchronisation, from the one before it.\<close>

definition synced :: "pem_lib \<Rightarrow> ManagedCluster \<Rightarrow> Secret \<Rightarrow> hub \<Rightarrow> hub \<Rightarrow> bool" where
  "synced P mc src h h' \<longleftrightarrow>
     (\<exists>s. provider_secret mc h' = Some s \<and>
        data_get s ''token'' = data_get src ''token'' \<and>
        data_get s ''cacert'' =
          mergeCACert P (case provider_secret mc h of None \<Rightarrow> [] | Some c \<Rightarrow> data_get c ''cacert'')
            (data_get src ''ca.crt'') \<and>
        (\<forall>f. f \<notin> {''token'', ''cacert''} \<longrightarrow>
           data_get s f = data_get (case provider_secret mc h of
             None \<Rightarrow> newProviderSecret mc (mc_Name mc @ ''-mtv'') | Some c \<Rightarrow> c) f))"

text \<open>Everything a reconciliation needs from others: the add-on deployment and the token.\<close>

definition ready :: "hub \<Rightarrow> ManagedCluster \<Rightarrow> ManagedServiceAccount \<Rightarrow> Secret \<Rightarrow> bool" where
  "ready h mc msa src \<longleftrightarrow>
     (\<exists>ns. msaaNamespaceOf (hub_deployments h) = Some ns \<and> ns \<noteq> []) \<and>
     ready_token h mc msa src \<and> data_get src ''token'' \<noteq> [] \<and>
     secret_ok h (SecretsGVR, MTVIntegrationsNamespace, mc_Name mc @ ''-mtv'')"

text \<open>The resources an active cluster ends up with, beside the service account.\<close>

definition goal_keys :: "string \<Rightarrow> string \<Rightarrow> okey list" where
  "goal_keys mgr n =
     [(ClusterPermissionsGVR, n, n @ ''-mtv''), (SecretsGVR, MTVIntegrationsNamespace, n @ ''-mtv''),
      (ProvidersGVR, MTVIntegrationsNamespace, n @ ''-mtv'')] @
     (if mgr = [] then [] else [(ClusterPermissionsGVR, n, n @ ''-mtv-advisor'')])"

definition complete :: "pem_lib \<Rightarrow> string \<Rightarrow> ManagedCluster \<Rightarrow> Secret \<Rightarrow> hub \<Rightarrow> bool" where
  "complete P mgr mc src h \<longleftrightarrow>
     list_all (\<lambda>k. hub_objs h k \<noteq> None) (goal_keys mgr (mc_Name mc)) \<and> settled P mc src h"

lemma mutate_fields:
  "data_get (mutateProviderSecret P src s) ''token'' = data_get src ''token''"
  "data_get (mutateProviderSecret P src s) ''cacert'' =
     mergeCACert P (data_get s ''cacert'') (data_get src ''ca.crt'')"
  "f \<notin> {''token'', ''cacert''} \<Longrightarrow> data_get (mutateProviderSecret P src s) f = data_get s f"
  by (auto simp: mutateProviderSecret_def data_get_def Let_def split: option.splits)

lemma new_secret_fields:
  "data_get (newProviderSecret mc n) ''token'' = []" "data_get (newProviderSecret mc n) ''cacert'' = []"
  by (simp_all add: newProviderSecret_def data_get_def)

lemma settled_mutate:
  "pem_codec P \<Longrightarrow> \<not> secretNeedsUpdate P (mutateProviderSecret P src s) src"
  by (simp add: secretNeedsUpdate_def mutate_fields pem_codec.merge_idempotent Let_def)

context kube_hub_live
begin

text \<open>After \<open>reconcileResource\<close> the resource exists, and one that existed is left alone.\<close>

lemma reconcileResource_live:
  assumes "payload_key g ns (JObj kvs) = (g, ns, n)"
  obtains w' where "reconcileResource K g n ns (JObj kvs) w = (Inr (), w')"
    and "only_obj (g, ns, n) (V w) (V w')"
    and "hub_objs (V w') (g, ns, n) \<noteq> None"
    and "hub_objs (V w) (g, ns, n) \<noteq> None \<Longrightarrow> V w' = V w"
proof -
  obtain r w1 where g: "dynGet K g n ns w = (r, w1)" by (cases "dynGet K g n ns w")
  have w1: "V w1 = V w" using reads(7) [of g n ns w] g by simp
  have r: "r = (if hub_objs (V w) (g, ns, n) = None then Inl (ApiStatus NotFound n) else Inr ())"
    using live_dyn [of g n ns w] g by simp
  show ?thesis
  proof (cases "hub_objs (V w) (g, ns, n) = None")
    case False
    with g r w1 show ?thesis by (intro that [of w1]) (simp_all add: reconcileResource_def prog_defs)
  next
    case True
    obtain j' where j': "to_unstructured K (JObj kvs) = Inr j'" using live_json by blast
    have key: "payload_key g ns j' = (g, ns, n)"
      using json_copy [OF j'] assms by (simp add: payload_key_def del: jpath_Cons)
    obtain u w2 where c: "dynCreate K g ns j' w1 = (u, w2)" by (cases "dynCreate K g ns j' w1")
    have "u = Inr ()" "hub_objs (V w2) (g, ns, n) \<noteq> None" "only_obj (g, ns, n) (V w) (V w2)"
      using live_dyn_create [of w1 g ns j'] dyn_create [of g ns j' w1] True key w1 c by simp_all
    with True g r c j' show ?thesis
      by (intro that [of w2]) (simp_all add: reconcileResource_def prog_defs api_err_defs)
  qed
qed

lemma payload_is_object:
  "\<exists>kvs. providerPayload mc = JObj kvs" "\<exists>kvs. clusterPermissionPayload mc ns = JObj kvs"
  "\<exists>kvs. advisorClusterPermissionPayload mc mgr = JObj kvs"
  by (simp_all add: providerPayload_def clusterPermissionPayload_def advisorClusterPermissionPayload_def Let_def)

lemma reconcilePayload_live:
  assumes "\<exists>kvs. j = JObj kvs" and "payload_key g ns j = (g, ns, n)"
  shows "\<exists>w'. reconcileResource K g n ns j w = (Inr (), w') \<and> ensured (g, ns, n) (V w) (V w')"
proof -
  obtain kvs where j: "j = JObj kvs" using assms(1) by blast
  show ?thesis
    unfolding j
    by (rule reconcileResource_live [OF assms(2) [unfolded j], of w]) (auto simp: ensured_def)
qed

lemma permissions_live:
  assumes "msaaNamespaceOf (hub_deployments (V w)) = Some ns" and "ns \<noteq> []" and "shouldManageCluster mc"
  obtains w1 w' where "reconcileClusterPermissions K mgr mc w = (Inr (), w')"
    and "ensured (ClusterPermissionsGVR, mc_Name mc, mc_Name mc @ ''-mtv'') (V w) (V w1)"
    and "if mgr = [] then V w' = V w1
         else ensured (ClusterPermissionsGVR, mc_Name mc, mc_Name mc @ ''-mtv-advisor'') (V w1) (V w')"
proof -
  obtain r w0 where l: "listDeployments K w = (r, w0)" by (cases "listDeployments K w")
  have w0: "V w0 = V w" "r = Inr (hub_deployments (V w))"
    using reads(5) [of w] live_deployments [of w] l by simp_all
  have find: "findMsaaDeploymentNs K w = (Inr ns, w0)"
    using assms(1) l w0 by (simp add: findMsaaDeploymentNs_def prog_defs)
  obtain w1 where w1: "reconcileResource K ClusterPermissionsGVR (mc_Name mc @ ''-mtv'') (mc_Name mc)
        (clusterPermissionPayload mc ns) w0 = (Inr (), w1)"
      "ensured (ClusterPermissionsGVR, mc_Name mc, mc_Name mc @ ''-mtv'') (V w) (V w1)"
    using reconcilePayload_live [OF payload_is_object(2), of ClusterPermissionsGVR "mc_Name mc" mc ns "mc_Name mc @ ''-mtv''" w0]
      w0 by auto
  obtain w2 where w2: "reconcileResource K ClusterPermissionsGVR (mc_Name mc @ ''-mtv-advisor'') (mc_Name mc)
        (advisorClusterPermissionPayload mc mgr) w1 = (Inr (), w2)"
      "ensured (ClusterPermissionsGVR, mc_Name mc, mc_Name mc @ ''-mtv-advisor'') (V w1) (V w2)"
    using reconcilePayload_live [OF payload_is_object(3), of ClusterPermissionsGVR "mc_Name mc" mc mgr
        "mc_Name mc @ ''-mtv-advisor''" w1] by auto
  have label: "map_get (mc_Labels mc) LabelCNVOperatorInstall = cnvOperatorInstallEnabled"
    using assms(3) by (simp add: shouldManageCluster_def)
  show ?thesis
  proof (cases "mgr = []")
    case True
    with find w1 assms(2) show ?thesis
      by (intro that [of w1 w1]) (simp_all add: reconcileClusterPermissions_def prog_defs managedClusterMTVName_def)
  next
    case False
    with find w1 w2 assms(2) label show ?thesis
      by (intro that [of w2 w1]) (simp_all add: reconcileClusterPermissions_def prog_defs managedClusterMTVName_def)
  qed
qed

lemma secrets_live:
  assumes "pem_codec P" and "ready_token (V w) mc msa src" and "data_get src ''token'' \<noteq> []"
    and "secret_ok (V w) (SecretsGVR, MTVIntegrationsNamespace, mc_Name mc @ ''-mtv'')"
  obtains w' where "handleProviderSecrets K P mc msa (managedClusterMTVName (mc_Name mc)) w = (Inr (), w')"
    and "only_obj (SecretsGVR, MTVIntegrationsNamespace, mc_Name mc @ ''-mtv'') (V w) (V w')"
    and "synced P mc src (V w) (V w')"
    and "settled P mc src (V w) \<longrightarrow> V w' = V w"
proof -
  let ?n = "mc_Name mc @ ''-mtv''"
  let ?k = "(SecretsGVR, MTVIntegrationsNamespace, ?n)"
  obtain t where t: "msa_TokenSecretRef msa = Some t" "t \<noteq> []"
      "hub_objs (V w) (SecretsGVR, mc_Name mc, t) = Some (SecretObj src)"
      "sec_key src = (SecretsGVR, mc_Name mc, t)"
    using assms(2) by (auto simp: ready_token_def)
  obtain r1 w1 where g1: "getSecret K t (mc_Name mc) w = (r1, w1)" by (cases "getSecret K t (mc_Name mc) w")
  have w1: "V w1 = V w" "r1 = Inr src"
    using reads(6) [of t "mc_Name mc" w] live_secret [OF t(3,4)] g1 by simp_all
  obtain r2 w2 where g2: "getSecret K ?n MTVIntegrationsNamespace w1 = (r2, w2)"
    by (cases "getSecret K ?n MTVIntegrationsNamespace w1")
  have w2: "V w2 = V w" using reads(6) [of ?n MTVIntegrationsNamespace w1] g2 w1 by simp
  define cur where "cur = (case hub_objs (V w) ?k of Some (SecretObj c) \<Rightarrow> c | _ \<Rightarrow> newProviderSecret mc ?n)"
  have key: "sec_key cur = ?k"
    using assms(4) by (auto simp: cur_def secret_ok_def newProviderSecret_def sec_key_def split: option.splits)
  have r2: "r2 = (if hub_objs (V w) ?k = None then Inl (ApiStatus NotFound ?n) else Inr cur)"
    using live_no_secret [of w1 MTVIntegrationsNamespace ?n] live_secret [of w1 MTVIntegrationsNamespace ?n cur]
      g2 w1 assms(4) key by (auto simp: cur_def secret_ok_def split: option.splits)
  have prog: "handleProviderSecrets K P mc msa (managedClusterMTVName (mc_Name mc)) w =
      (if secretNeedsUpdate P cur src then createOrUpdateSecret K cur (mutateProviderSecret P src) w2
       else (Inr (), w2))"
    using t(1,2) g1 g2 w1 r2
    by (auto simp: handleProviderSecrets_def syncProviderSecret_def managedClusterMTVName_def prog_defs
        updateProviderSecret_def api_err_defs cur_def Let_def)
  obtain u w3 where up: "createOrUpdateSecret K cur (mutateProviderSecret P src) w2 = (u, w3)"
    by (cases "createOrUpdateSecret K cur (mutateProviderSecret P src) w2")
  have mk: "sec_key (mutateProviderSecret P src x) = sec_key x" for x
    by (simp add: mutateProviderSecret_def sec_key_def Let_def)
  have stored: "case hub_objs (V w2) (sec_key cur) of None \<Rightarrow> cur = cur | Some v \<Rightarrow> v = SecretObj cur"
    using assms(4) w2 key by (auto simp: cur_def secret_ok_def split: option.splits)
  have u: "u = Inr ()" "hub_objs (V w3) ?k = Some (SecretObj (mutateProviderSecret P src cur))"
    using live_secret_update [OF mk stored] up key by simp_all
  have only: "only_obj ?k (V w) (V w3)"
    using create_update_secret [of cur w2 "mutateProviderSecret P src"] up w2 key by simp
  have ps: "provider_secret mc (V w) = (if hub_objs (V w) ?k = None then None else Some cur)"
    using assms(4) by (auto simp: provider_secret_def secret_ok_def cur_def split: option.splits)
  have cur_fields: "data_get cur ''cacert'' =
      (case provider_secret mc (V w) of None \<Rightarrow> [] | Some c \<Rightarrow> data_get c ''cacert'')"
    "cur = (case provider_secret mc (V w) of None \<Rightarrow> newProviderSecret mc ?n | Some c \<Rightarrow> c)"
    using ps by (auto simp: cur_def new_secret_fields)
  show ?thesis
  proof (cases "secretNeedsUpdate P cur src")
    case True
    have "synced P mc src (V w) (V w3)"
      unfolding synced_def cur_fields(2) [symmetric] cur_fields(1) [symmetric]
      using u(2) by (auto simp: provider_secret_def mutate_fields)
    moreover have "\<not> settled P mc src (V w)" using True ps assms(3) by (auto simp: settled_def)
    ultimately show ?thesis using True prog up u(1) only by (intro that [of w3]) simp_all
  next
    case False
    then have same: "data_get cur ''cacert'' = mergeCACert P (data_get cur ''cacert'') (data_get src ''ca.crt'')"
      "data_get cur ''token'' = data_get src ''token''" by (auto simp: secretNeedsUpdate_def Let_def)
    have "hub_objs (V w) ?k \<noteq> None"
    proof
      assume "hub_objs (V w) ?k = None"
      then have "cur = newProviderSecret mc ?n" by (simp add: cur_def)
      with same(2) assms(3) show False by (simp add: new_secret_fields)
    qed
    with same have "synced P mc src (V w) (V w2)"
      unfolding synced_def cur_fields(2) [symmetric] cur_fields(1) [symmetric]
      using ps w2 by (intro exI [of _ cur]) simp
    with False prog w2 show ?thesis by (intro that [of w2]) simp_all
  qed
qed

lemma crd_live: "established (V w) \<Longrightarrow> \<exists>w'. checkProviderCRD K w = (Inr True, w') \<and> V w' = V w"
  using live_crd [of ProviderCRDName w] reads(1) [of ProviderCRDName w]
  by (cases "getCRD K ProviderCRDName w")
    (auto simp: established_def checkProviderCRD_def prog_defs split: option.splits)

text \<open>On a hub without faults a reconciliation of a stored cluster goes on with it.\<close>

lemma Reconcile_live:
  assumes "established (V w)" and "hub_clusters (V w) n = Some mc" and "mc_Name mc = n"
  obtains w2 where "Reconcile K P mgr n w = dispatch K P mgr mc w2" and "V w2 = V w"
proof -
  obtain w1 where w1: "checkProviderCRD K w = (Inr True, w1)" "V w1 = V w"
    using crd_live [OF assms(1)] by blast
  obtain g w2 where g: "getManagedCluster K n w1 = (g, w2)" by (cases "getManagedCluster K n w1")
  have "g = Inr mc" "V w2 = V w"
    using live_cluster [of w1 n mc] reads(2) [of n w1] assms(2,3) w1(2) g by simp_all
  with w1 g show ?thesis
    by (intro that [of w2]) (simp_all add: Reconcile_def onResult_def dispatch_def orReturn_def)
qed

lemma active_live:
  assumes "shouldManageCluster mc" and "ContainsFinalizer K mc ManagedClusterFinalizer"
    and "hub_objs (V w) (MSAsGVR, mc_Name mc, mc_Name mc @ ''-mtv'') = Some (MSAObj msa)"
    and "msa_key msa = (MSAsGVR, mc_Name mc, mc_Name mc @ ''-mtv'')"
  obtains w1 where "V w1 = V w" and "Reconcile_tail K P mgr mc msa w1 = reconcileActiveCluster K P mgr mc w"
proof -
  let ?n = "managedClusterMTVName (mc_Name mc)"
  obtain r w1 where g: "getMSA K ?n (mc_Name mc) w = (r, w1)" by (cases "getMSA K ?n (mc_Name mc) w")
  have "V w1 = V w" "r = Inr msa"
    using reads(4) [of ?n "mc_Name mc" w] live_msa [of w "mc_Name mc" ?n msa] g assms(3,4)
    by (simp_all add: managedClusterMTVName_def)
  with g assms(2) show ?thesis
    by (intro that [of w1]) (simp_all add: reconcileActiveCluster_def ensureFinalizerAndNamespace_def
        handleManagedServiceAccount_def Reconcile_tail_def orReturn_def prog_defs no_requeue_def Let_def)
qed

lemma tail_live:
  assumes "pem_codec P" and "shouldManageCluster mc" and "ready (V w) mc msa src"
  obtains w' where "Reconcile_tail K P mgr mc msa w = (Inr (no_requeue, None), w')"
    and "list_all (\<lambda>k. hub_objs (V w') k \<noteq> None) (goal_keys mgr (mc_Name mc))"
    and "synced P mc src (V w) (V w')"
    and "complete P mgr mc src (V w) \<longrightarrow> V w' = V w"
proof -
  let ?n = "mc_Name mc"
  let ?cp = "(ClusterPermissionsGVR, ?n, ?n @ ''-mtv'')" and ?adv = "(ClusterPermissionsGVR, ?n, ?n @ ''-mtv-advisor'')"
  let ?sec = "(SecretsGVR, MTVIntegrationsNamespace, ?n @ ''-mtv'')"
  let ?prov = "(ProvidersGVR, MTVIntegrationsNamespace, ?n @ ''-mtv'')"
  obtain ns where ns: "msaaNamespaceOf (hub_deployments (V w)) = Some ns" "ns \<noteq> []"
    using assms(3) by (auto simp: ready_def)
  obtain w1 w2 where w2: "reconcileClusterPermissions K mgr mc w = (Inr (), w2)"
      "ensured ?cp (V w) (V w1)" "if mgr = [] then V w2 = V w1 else ensured ?adv (V w1) (V w2)"
    by (rule permissions_live [OF ns assms(2)])
  have keep: "hub_objs (V w2) k = hub_objs (V w) k" if "fst k \<noteq> ClusterPermissionsGVR" for k
  proof -
    have "k \<noteq> ?cp" "k \<noteq> ?adv" using that by auto
    then show ?thesis
      using w2(2,3) ensured_other [of ?cp "V w" "V w1" k] ensured_other [of ?adv "V w1" "V w2" k]
      by (simp split: if_splits)
  qed
  have cp: "hub_objs (V w2) ?cp \<noteq> None" "mgr \<noteq> [] \<Longrightarrow> hub_objs (V w2) ?adv \<noteq> None"
    using w2(2,3) ensured_other [of ?adv "V w1" "V w2" ?cp] by (auto simp: ensured_def split: if_splits)
  have ps: "provider_secret mc (V w2) = provider_secret mc (V w)" using keep by (simp add: provider_secret_def)
  have tok: "ready_token (V w2) mc msa src" "secret_ok (V w2) ?sec" "data_get src ''token'' \<noteq> []"
    using assms(3) keep by (simp_all add: ready_def ready_token_def secret_ok_def)
  obtain w3 where w3: "handleProviderSecrets K P mc msa (managedClusterMTVName ?n) w2 = (Inr (), w3)"
      "only_obj ?sec (V w2) (V w3)" "synced P mc src (V w2) (V w3)" "settled P mc src (V w2) \<longrightarrow> V w3 = V w2"
    by (rule secrets_live [OF assms(1) tok(1,3,2)])
  obtain w4 where w4: "reconcileProviderResources K mc w3 = (Inr (), w4)" "ensured ?prov (V w3) (V w4)"
    using reconcilePayload_live [OF payload_is_object(1), of ProvidersGVR MTVIntegrationsNamespace mc "?n @ ''-mtv''" w3]
    by (auto simp: reconcileProviderResources_def managedClusterMTVName_def)
  have k3: "hub_objs (V w3) k = hub_objs (V w2) k" if "k \<noteq> ?sec" for k
    using w3(2) that unfolding only_obj_def same_obj_def by blast
  have sec4: "provider_secret mc (V w4) = provider_secret mc (V w3)"
    using ensured_other [OF w4(2), of ?sec] by (simp add: provider_secret_def)
  show ?thesis
  proof (rule that [of w4])
    show "Reconcile_tail K P mgr mc msa w = (Inr (no_requeue, None), w4)"
      using w2(1) w3(1) w4(1) by (simp add: Reconcile_tail_def orReturn_def prog_defs)
    show "synced P mc src (V w) (V w4)" using w3(3) ps sec4 by (simp add: synced_def)
    have "hub_objs (V w3) ?sec \<noteq> None" using w3(3) by (auto simp: synced_def provider_secret_def split: option.splits)
    then show "list_all (\<lambda>k. hub_objs (V w4) k \<noteq> None) (goal_keys mgr ?n)"
      using cp k3 [of ?cp] k3 [of ?adv] ensured_other [OF w4(2)] w4(2)
      by (auto simp: goal_keys_def ensured_def)
    show "complete P mgr mc src (V w) \<longrightarrow> V w4 = V w"
    proof
      assume c: "complete P mgr mc src (V w)"
      have "V w1 = V w" using c w2(2) by (simp add: complete_def goal_keys_def ensured_def)
      then have "V w2 = V w" using c w2(3) by (auto simp: complete_def goal_keys_def ensured_def split: if_splits)
      then have "V w3 = V w" using c w3(4) by (simp add: complete_def)
      then show "V w4 = V w" using c w4(2) by (simp add: complete_def goal_keys_def ensured_def)
    qed
  qed
qed

lemma tail_no_token:
  assumes "msaaNamespaceOf (hub_deployments (V w)) = Some ns" and "ns \<noteq> []" and "shouldManageCluster mc"
    and "msa_TokenSecretRef msa = None"
    and "hub_objs (V w) (SecretsGVR, MTVIntegrationsNamespace, mc_Name mc @ ''-mtv'') = None"
  shows "\<exists>w'. Reconcile_tail K P mgr mc msa w = (Inr (no_requeue, None), w') \<and>
    hub_objs (V w') (ProvidersGVR, MTVIntegrationsNamespace, mc_Name mc @ ''-mtv'') \<noteq> None \<and>
    hub_objs (V w') (SecretsGVR, MTVIntegrationsNamespace, mc_Name mc @ ''-mtv'') = None"
proof -
  let ?n = "mc_Name mc" and ?sec = "(SecretsGVR, MTVIntegrationsNamespace, mc_Name mc @ ''-mtv'')"
  obtain w1 w2 where w2: "reconcileClusterPermissions K mgr mc w = (Inr (), w2)"
      "ensured (ClusterPermissionsGVR, ?n, ?n @ ''-mtv'') (V w) (V w1)"
      "if mgr = [] then V w2 = V w1 else ensured (ClusterPermissionsGVR, ?n, ?n @ ''-mtv-advisor'') (V w1) (V w2)"
    by (rule permissions_live [OF assms(1-3)])
  then have sec: "hub_objs (V w2) ?sec = None"
    using ensured_other [OF w2(2), of ?sec] ensured_other [of _ "V w1" "V w2" ?sec] assms(5)
    by (auto split: if_splits)
  obtain w4 where w4: "reconcileProviderResources K mc w2 = (Inr (), w4)"
      "ensured (ProvidersGVR, MTVIntegrationsNamespace, ?n @ ''-mtv'') (V w2) (V w4)"
    using reconcilePayload_live [OF payload_is_object(1), of ProvidersGVR MTVIntegrationsNamespace mc "?n @ ''-mtv''" w2]
    by (auto simp: reconcileProviderResources_def managedClusterMTVName_def)
  show ?thesis
    using w2(1) w4 sec assms(4) ensured_other [OF w4(2), of ?sec]
    by (intro exI [of _ w4]) (auto simp: Reconcile_tail_def orReturn_def prog_defs handleProviderSecrets_def ensured_def)
qed

lemma add_finalizer_live:
  assumes "hub_clusters (V w) n = Some mc" and "mc_Name mc = n"
    and "\<not> ContainsFinalizer K mc ManagedClusterFinalizer"
  shows "has_finalizer n (V (snd (reconcileActiveCluster K P mgr mc w)))"
    and "hub_objs (V (snd (reconcileActiveCluster K P mgr mc w))) = hub_objs (V w)"
proof -
  let ?mc' = "AddFinalizer K mc ManagedClusterFinalizer"
  obtain r w1 where ns: "createNamespace K MTVIntegrationsNamespace w = (r, w1)"
    by (cases "createNamespace K MTVIntegrationsNamespace w")
  have w1: "V w1 = V w" "\<forall>e. r = Inl e \<longrightarrow> IsAlreadyExists e"
    using reads(8) [of MTVIntegrationsNamespace w] live_namespace [of MTVIntegrationsNamespace w] ns by simp_all
  obtain u w2 where p: "patchManagedCluster K ?mc' mc w1 = (u, w2)"
    by (cases "patchManagedCluster K ?mc' mc w1")
  have u: "u = Inr ()" using live_patch [of w1 ?mc' mc mc] add_finalizer(3) assms(1,2) w1(1) p by simp
  have fin: "snd (reconcileActiveCluster K P mgr mc w) = w2"
    using assms(3) ns w1(2) p u
    by (auto simp: reconcileActiveCluster_def ensureFinalizerAndNamespace_def Let_def orReturn_def
        onResult_def ret_def split: sum.splits)
  show "hub_objs (V (snd (reconcileActiveCluster K P mgr mc w))) = hub_objs (V w)"
    using fin patch_frame(1) [of ?mc' mc w1] p w1(1) by simp
  have ne: "mc_Finalizers ?mc' \<noteq> []" using add_finalizer(1) [of ManagedClusterFinalizer mc] by auto
  obtain c where c: "hub_clusters (V w2) n = Some c"
    using patch_vanish [of w1 ?mc' mc mc] ne add_finalizer(3) assms(1,2) w1(1) p by auto
  then have "mc_Finalizers c = mc_Finalizers ?mc'"
    using patch_ok [of ?mc' mc w1 "()" w2 c] p u add_finalizer(3) assms(2) by simp
  then show "has_finalizer n (V (snd (reconcileActiveCluster K P mgr mc w)))"
    using fin c add_finalizer(1) by (simp add: has_finalizer_def)
qed

lemma create_msa_live:
  assumes "mc_Name mc = n" and "ContainsFinalizer K mc ManagedClusterFinalizer"
    and "hub_objs (V w) (MSAsGVR, n, n @ ''-mtv'') = None"
  shows "hub_objs (V (snd (reconcileActiveCluster K P mgr mc w))) (MSAsGVR, n, n @ ''-mtv'') \<noteq> None"
    and "fst (reconcileActiveCluster K P mgr mc w) = Inr (\<lparr>RequeueAfter = TokenWaitDuration\<rparr>, None)"
proof -
  let ?m = "\<lparr>msa_Name = n @ ''-mtv'', msa_Namespace = n, msa_RotationEnabled = True,
    msa_ValidityMinutes = 60, msa_OwnerRefs = [], msa_TokenSecretRef = None\<rparr>"
  obtain m where m: "SetControllerReference K mc ?m = Inr m" using live_controller by blast
  have key: "msa_key m = (MSAsGVR, n, n @ ''-mtv'')" using set_controller [OF m] by (simp add: msa_key_def)
  obtain r w1 where g: "getMSA K (n @ ''-mtv'') n w = (r, w1)" by (cases "getMSA K (n @ ''-mtv'') n w")
  have w1: "V w1 = V w" "r = Inl (ApiStatus NotFound (n @ ''-mtv''))"
    using reads(4) [of "n @ ''-mtv''" n w] live_no_msa [OF assms(3)] g by simp_all
  obtain u w2 where c: "createMSA K m w1 = (u, w2)" by (cases "createMSA K m w1")
  have w2: "u = Inr ()" "hub_objs (V w2) (MSAsGVR, n, n @ ''-mtv'') \<noteq> None"
    using live_create_msa [of w1 m] assms(3) w1(1) key c by simp_all
  have "reconcileActiveCluster K P mgr mc w = (Inr (\<lparr>RequeueAfter = TokenWaitDuration\<rparr>, None), w2)"
    using assms(1,2) g w1 m c w2(1)
    by (simp add: reconcileActiveCluster_def ensureFinalizerAndNamespace_def handleManagedServiceAccount_def
        createManagedServiceAccount_def managedClusterMTVName_def orReturn_def prog_defs api_err_defs
        TokenWaitDuration_def Let_def)
  with w2(2) show "hub_objs (V (snd (reconcileActiveCluster K P mgr mc w))) (MSAsGVR, n, n @ ''-mtv'') \<noteq> None"
    and "fst (reconcileActiveCluster K P mgr mc w) = Inr (\<lparr>RequeueAfter = TokenWaitDuration\<rparr>, None)"
    by simp_all
qed

lemma complete_after:
  assumes "pem_codec P" and "synced P mc src h h'" and "list_all (\<lambda>k. hub_objs h' k \<noteq> None) (goal_keys mgr (mc_Name mc))"
  shows "complete P mgr mc src h'"
proof -
  obtain s where s: "provider_secret mc h' = Some s" "data_get s ''token'' = data_get src ''token''"
    "\<exists>e. data_get s ''cacert'' = mergeCACert P e (data_get src ''ca.crt'')"
    using assms(2) by (auto simp: synced_def)
  then have "\<not> secretNeedsUpdate P s src"
    using pem_codec.merge_idempotent [OF assms(1)] by (auto simp: secretNeedsUpdate_def Let_def)
  with s(1) assms(3) show ?thesis by (simp add: complete_def settled_def)
qed

end

text \<open>A cluster that is stored, to be managed and carries the finalizer, with its service account.\<close>

definition managed :: "hub \<Rightarrow> string \<Rightarrow> ManagedCluster \<Rightarrow> ManagedServiceAccount \<Rightarrow> bool" where
  "managed h n mc msa \<longleftrightarrow>
     established h \<and> hub_clusters h n = Some mc \<and> mc_Name mc = n \<and> shouldManageCluster mc \<and>
     has_finalizer n h \<and> hub_objs h (MSAsGVR, n, n @ ''-mtv'') = Some (MSAObj msa) \<and>
     msa_key msa = (MSAsGVR, n, n @ ''-mtv'')"

lemma manage_not_cleanup: "shouldManageCluster mc \<Longrightarrow> \<not> shouldCleanupCluster K mc"
  by (simp add: shouldManageCluster_def shouldCleanupCluster_def)

lemma managed_tail:
  assumes "kube_hub_live K V" and "managed (V w) n mc msa"
  obtains w1 where "V w1 = V w" and "Reconcile K P mgr n w = Reconcile_tail K P mgr mc msa w1"
proof -
  have hub: "kube_hub K V" using assms(1) by (simp add: kube_hub_live_def)
  note m = assms(2) [unfolded managed_def]
  obtain w2 where w2: "Reconcile K P mgr n w = dispatch K P mgr mc w2" "V w2 = V w"
    by (rule kube_hub_live.Reconcile_live [OF assms(1)]) (use m in auto)
  have fin: "ContainsFinalizer K mc ManagedClusterFinalizer"
    using m kube_hub.contains_finalizer [OF hub] by (auto simp: has_finalizer_def)
  obtain w1 where "V w1 = V w2"
      "Reconcile_tail K P mgr mc msa w1 = reconcileActiveCluster K P mgr mc w2"
    by (rule kube_hub_live.active_live [OF assms(1) _ fin, of w2 msa]) (use m w2(2) in auto)
  then show ?thesis
    using that [of w1] w2 manage_not_cleanup [of mc K] m by (simp add: dispatch_def)
qed

section \<open>Inputs of the witnesses\<close>

definition demo_mc :: "bool \<Rightarrow> string list \<Rightarrow> ManagedCluster" where
  "demo_mc labelled fs = \<lparr>mc_Name = ''c1'',
     mc_Labels = [LabelCNVOperatorInstall \<mapsto> if labelled then ''true'' else ''false''],
     mc_Finalizers = fs, mc_Deleting = False, mc_ClientURLs = [''https://c1'']\<rparr>"

definition demo_mem :: "ManagedCluster \<Rightarrow> (okey \<rightharpoonup> kobj) \<Rightarrow> mem" where
  "demo_mem mc objs = \<lparr>mem_hub = \<lparr>hub_clusters = [''c1'' \<mapsto> mc], hub_objs = objs, hub_terminating = {},
     hub_crds = [ProviderCRDName \<mapsto> [\<lparr>cond_Type = ''Established'', cond_Status = ''True''\<rparr>]],
     hub_deployments = [\<lparr>dep_Name = msaaDeploymentName, dep_Namespace = ''agent''\<rparr>]\<rparr>, mem_held = {}\<rparr>"

abbreviation demo_P :: pem_lib where
  "demo_P \<equiv> pem_ref (\<lambda>_. True)"

definition demo_run :: "mem reconcile" where
  "demo_run = Reconcile mem_api demo_P ''mgr'' ''c1''"

definition demo_msa :: "string option \<Rightarrow> ManagedServiceAccount" where
  "demo_msa tok = \<lparr>msa_Name = ''c1-mtv'', msa_Namespace = ''c1'', msa_RotationEnabled = True,
     msa_ValidityMinutes = 60, msa_OwnerRefs = [], msa_TokenSecretRef = tok\<rparr>"

definition demo_src :: Secret where
  "demo_src = \<lparr>sec_Name = ''tok'', sec_Namespace = ''c1'', sec_Labels = [],
     sec_Data = Some [''token'' \<mapsto> ''t1'', ''ca.crt'' \<mapsto> ''ca'']\<rparr>"

definition demo_provider_secret :: Secret where
  "demo_provider_secret = \<lparr>sec_Name = ''c1-mtv'', sec_Namespace = MTVIntegrationsNamespace, sec_Labels = [],
     sec_Data = Some [''token'' \<mapsto> ''t1'', ''cacert'' \<mapsto> ''ca'']\<rparr>"

definition demo_ready :: "(okey \<rightharpoonup> kobj) \<Rightarrow> mem" where
  "demo_ready objs = demo_mem (demo_mc True [ManagedClusterFinalizer])
     (objs((MSAsGVR, ''c1'', ''c1-mtv'') \<mapsto> MSAObj (demo_msa (Some ''tok'')),
           (SecretsGVR, ''c1'', ''tok'') \<mapsto> SecretObj demo_src))"

definition demo_done :: "okey \<rightharpoonup> kobj" where
  "demo_done = [(SecretsGVR, MTVIntegrationsNamespace, ''c1-mtv'') \<mapsto> SecretObj demo_provider_secret,
     (ClusterPermissionsGVR, ''c1'', ''c1-mtv'') \<mapsto> Unstructured JNull,
     (ClusterPermissionsGVR, ''c1'', ''c1-mtv-advisor'') \<mapsto> Unstructured JNull,
     (ProvidersGVR, MTVIntegrationsNamespace, ''c1-mtv'') \<mapsto> Unstructured JNull]"

lemma demo_managed:
  "managed (mem_hub (demo_ready objs)) ''c1'' (demo_mc True [ManagedClusterFinalizer]) (demo_msa (Some ''tok''))"
  by (simp add: managed_def demo_ready_def demo_mem_def demo_mc_def demo_msa_def established_def
      has_finalizer_def shouldManageCluster_def cnvOperatorInstallEnabled_def msa_key_def)

lemma demo_is_ready:
  assumes "objs = Map.empty \<or> objs = demo_done"
  shows "ready (mem_hub (demo_ready objs)) (demo_mc True [ManagedClusterFinalizer]) (demo_msa (Some ''tok'')) demo_src"
  using assms
  by (auto simp: ready_def ready_token_def secret_ok_def demo_ready_def demo_mem_def demo_mc_def demo_msa_def
      demo_src_def demo_done_def demo_provider_secret_def sec_key_def data_get_def MTVIntegrationsNamespace_def)

lemmas demo_laws = mem_live.kube_hub_live_axioms pem_ref.pem_codec_axioms [of "\<lambda>_. True"]

section \<open>Properties\<close>

text \<open>C1: in every history of reconciliations, with any failures of the API server and any edits
  by others that respect the finalizer, the resources of a cluster never outlive the
  finalizer: a cluster that does not carry it, or is gone, has no cluster permission, no
  service account, no provider secret and no provider left that is not being deleted. Reads are
  not stale. So a provider is never created before the finalizer is persisted, which the
  comment on \<^verbatim>\<open>shouldCleanupCluster\<close> gives as the reason to clean up without a finalizer; that
  cleanup matters for stale reads and for a finalizer that others remove.\<close>

theorem no_orphans:
  assumes "kube_hub K V" and "reachable K V P mgr w" and "\<not> has_finalizer n (V w)"
  shows "\<forall>k\<in>set (cluster_keys n). released (V w) k"
  using reachable_guarded [OF assms(1,2), of n] assms(3)
  by (simp add: guarded_def all_released_def list_all_iff)

theorem no_orphans_witness:
  "\<exists>w. reachable mem_api mem_hub demo_P ''mgr'' w \<and> list_all (released (mem_hub w)) (cluster_keys ''c1'')"
proof -
  let ?F = "[ManagedClusterFinalizer]"
  define w0 where "w0 = demo_mem (demo_mc True ?F) Map.empty"
  define w1 where "w1 = demo_run w0"
  define w2 where "w2 = (snd w1)\<lparr>mem_hub := (mem_hub (snd w1))\<lparr>hub_clusters := [''c1'' \<mapsto> demo_mc False ?F]\<rparr>\<rparr>"
  have r0: "reachable mem_api mem_hub demo_P ''mgr'' w0"
    by (rule reachable.start) (simp add: w0_def demo_mem_def)
  then have r1: "reachable mem_api mem_hub demo_P ''mgr'' (snd w1)"
    unfolding w1_def demo_run_def by (rule reachable.reconcile)
  have "within ''c1'' (mem_hub w0) (mem_hub (snd w1))"
    unfolding w1_def demo_run_def by (rule stepsD [OF mem_hub.Reconcile_within])
  then have "has_finalizer n (mem_hub (snd w1)) \<Longrightarrow> n = ''c1''" for n
    by (auto simp: within_def w0_def demo_mem_def has_finalizer_def split: option.splits if_splits)
  then have "env_step (mem_hub (snd w1)) (mem_hub w2)"
    by (auto simp: env_step_def w2_def released_def has_finalizer_def demo_mc_def)
  with r1 have "reachable mem_api mem_hub demo_P ''mgr'' w2" by (rule reachable.others)
  then have r3: "reachable mem_api mem_hub demo_P ''mgr'' (snd (demo_run w2))"
    unfolding demo_run_def by (rule reachable.reconcile)
  have "\<not> has_finalizer ''c1'' (mem_hub (snd (demo_run w2)))"
    unfolding w2_def w1_def w0_def by code_simp
  with r3 no_orphans [OF mem_hub.kube_hub_axioms r3] show ?thesis unfolding list_all_iff by blast
qed

text \<open>C2: a reconciliation that finds a cluster to clean up (being deleted, or no longer labelled
  but with the finalizer) and reports no error has released all five resources and removed
  the finalizer.\<close>

theorem cleanup_complete:
  assumes "kube_hub K V" and "checkProviderCRD K w = (Inr True, w1)"
    and "fst (getManagedCluster K n w1) = Inr mc" and "shouldCleanupCluster K mc"
    and "Reconcile K P mgr n w = (Inr (result, None), w')"
  shows "(\<forall>k\<in>set (cluster_keys n). released (V w') k) \<and> \<not> has_finalizer n (V w')"
proof (cases rule: kube_hub.Reconcile_cases [OF assms(1), of P mgr n w])
  case 1
  then show ?thesis using assms(2,3) by auto
next
  case (2 mc' w2)
  have w1: "V w1 = V w"
    using stepsD [of V "(=)" "checkProviderCRD K" w] assms(2) kube_hub.reads(1) [OF assms(1)]
    by (auto simp: checkProviderCRD_def prog_defs split: prod.splits sum.splits if_splits)
      (metis snd_conv)+
  have "mc' = mc"
    using kube_hub.get_cluster [OF assms(1), of n w1 mc "snd (getManagedCluster K n w1)"] assms(3) 2(1) w1
    by (simp add: prod_eq_iff)
  with 2(4) assms(4,5) have "dispatch K P mgr mc w2 = (Inr (result, None), w')" by simp
  then have ok: "fst (cleanupManagedClusterResources K mc w2) = Inr ()"
      and w': "snd (cleanupManagedClusterResources K mc w2) = w'"
    using assms(4) by (auto simp: dispatch_def orReturn_def prog_defs split: prod.splits sum.splits)
  show ?thesis
    using kube_hub.cleanup_ok [OF assms(1), of mc n w2] 2 \<open>mc' = mc\<close> ok w'
    by (simp add: all_released_def list_all_iff)
qed

theorem cleanup_complete_witness:
  "list_all (released (mem_hub (snd (demo_run
     (demo_mem (demo_mc False [ManagedClusterFinalizer])
       [(MSAsGVR, ''c1'', ''c1-mtv'') \<mapsto> Unstructured JNull]))))) (cluster_keys ''c1'')"
proof -
  define mc where "mc = demo_mc False [ManagedClusterFinalizer]"
  define w where "w = demo_mem mc [(MSAsGVR, ''c1'', ''c1-mtv'') \<mapsto> Unstructured JNull]"
  have 1: "checkProviderCRD mem_api w = (Inr True, w)"
    by (simp add: checkProviderCRD_def w_def demo_mem_def mem_defs prog_defs)
  have 2: "fst (getManagedCluster mem_api ''c1'' w) = Inr mc"
    by (simp add: w_def mc_def demo_mem_def demo_mc_def mem_defs)
  have 3: "shouldCleanupCluster mem_api mc"
    by (simp add: shouldCleanupCluster_def mc_def demo_mc_def cnvOperatorInstallEnabled_def mem_api_def)
  have "fst (demo_run w) = Inr (no_requeue, None)" unfolding w_def mc_def by code_simp
  then have 4: "Reconcile mem_api demo_P ''mgr'' ''c1'' w = (Inr (no_requeue, None), snd (demo_run w))"
    by (simp add: demo_run_def prod_eq_iff)
  show ?thesis
    using cleanup_complete [OF mem_hub.kube_hub_axioms 1 2 3 4] by (simp add: w_def mc_def list_all_iff)
qed

text \<open>C3: reconciling a cluster changes no other cluster and none of the resources of another
  cluster, whatever happens.\<close>

theorem clusters_isolated:
  assumes "kube_hub K V" and "m \<noteq> n"
  shows "hub_clusters (V (snd (Reconcile K P mgr n w))) m = hub_clusters (V w) m \<and>
     (\<forall>k\<in>set (cluster_keys m). same_obj k (V w) (V (snd (Reconcile K P mgr n w))))"
proof -
  have "within n (V w) (V (snd (Reconcile K P mgr n w)))"
    by (rule stepsD [OF kube_hub.Reconcile_within [OF assms(1)]])
  then show ?thesis using cluster_keys_disjoint [OF assms(2)] assms(2) unfolding within_def by blast
qed

theorem clusters_isolated_witness:
  "same_obj (ProvidersGVR, MTVIntegrationsNamespace, ''c2-mtv'') (mem_hub (demo_mem (demo_mc True []) Map.empty))
     (mem_hub (snd (demo_run (demo_mem (demo_mc True []) Map.empty))))"
  using clusters_isolated [OF mem_hub.kube_hub_axioms, of "''c2''" "''c1''" demo_P "''mgr''"]
  by (simp add: demo_run_def cluster_keys_def)

text \<open>While the Provider CRD is absent, not established or cannot be read, a reconciliation
  changes nothing; only a failed read is reported, with a retry after ten seconds.\<close>

theorem crd_gate:
  assumes "kube_hub K V" and "fst (getCRD K ProviderCRDName w) = r"
    and "\<forall>cs. r = Inr cs \<longrightarrow> \<not> list_ex (\<lambda>c. cond_Type c = ''Established'' \<and> cond_Status c = ''True'') cs"
  shows "V (snd (Reconcile K P mgr n w)) = V w \<and>
     fst (Reconcile K P mgr n w) =
       Inr (case r of
              Inr cs \<Rightarrow> (no_requeue, None)
            | Inl e \<Rightarrow> if IsNotFound e then (no_requeue, None) else (\<lparr>RequeueAfter = 10\<rparr>, Some e))"
  using assms kube_hub.reads(1) [OF assms(1), of ProviderCRDName w]
  by (cases "getCRD K ProviderCRDName w")
    (auto simp: Reconcile_def checkProviderCRD_def prog_defs split: sum.splits)

theorem crd_gate_witness:
  "fst (Reconcile mem_api demo_P ''mgr'' ''c1''
     \<lparr>mem_hub = \<lparr>hub_clusters = Map.empty, hub_objs = Map.empty, hub_terminating = {}, hub_crds = Map.empty,
        hub_deployments = []\<rparr>, mem_held = {}\<rparr>) = Inr (no_requeue, None)"
  using crd_gate [OF mem_hub.kube_hub_axioms, of "\<lparr>mem_hub = \<lparr>hub_clusters = Map.empty,
      hub_objs = Map.empty, hub_terminating = {}, hub_crds = Map.empty,
      hub_deployments = []\<rparr>, mem_held = {}\<rparr>" "Inl (not_found ProviderCRDName)" demo_P "''mgr''" "''c1''"]
  by (simp add: mem_defs api_err_defs)

text \<open>C4: on a hub without faults, one reconciliation of a managed cluster whose service account
  has its token creates every missing resource, stores the token and the merged CA bundle in
  the provider secret, keeps the other fields of that secret, and asks for no retry.\<close>

theorem reconcile_reaches_goal:
  assumes "kube_hub_live K V" and "pem_codec P" and "managed (V w) n mc msa" and "ready (V w) mc msa src"
  shows "\<exists>w'. Reconcile K P mgr n w = (Inr (no_requeue, None), w') \<and>
     (\<forall>k\<in>set (goal_keys mgr n). hub_objs (V w') k \<noteq> None) \<and> synced P mc src (V w) (V w') \<and>
     complete P mgr mc src (V w')"
proof -
  have n: "mc_Name mc = n" "shouldManageCluster mc" using assms(3) by (auto simp: managed_def)
  obtain w1 where w1: "V w1 = V w" "Reconcile K P mgr n w = Reconcile_tail K P mgr mc msa w1"
    by (rule managed_tail [OF assms(1,3)])
  obtain w' where w': "Reconcile_tail K P mgr mc msa w1 = (Inr (no_requeue, None), w')"
      "list_all (\<lambda>k. hub_objs (V w') k \<noteq> None) (goal_keys mgr (mc_Name mc))"
      "synced P mc src (V w1) (V w')"
    by (rule kube_hub_live.tail_live [OF assms(1,2) n(2), of w1 msa src mgr]) (use assms(4) w1(1) in auto)
  with w1 n(1) kube_hub_live.complete_after [OF assms(1,2) w'(3,2)] show ?thesis
    by (intro exI [of _ w']) (simp add: list_all_iff)
qed

theorem reconcile_reaches_goal_witness:
  "\<exists>w'. demo_run (demo_ready Map.empty) = (Inr (no_requeue, None), w') \<and>
     hub_objs (mem_hub w') (ProvidersGVR, MTVIntegrationsNamespace, ''c1-mtv'') \<noteq> None \<and>
     complete demo_P ''mgr'' (demo_mc True [ManagedClusterFinalizer]) demo_src (mem_hub w')"
  using reconcile_reaches_goal [OF demo_laws(1,2) demo_managed demo_is_ready, of Map.empty "''mgr''"]
  by (auto simp: demo_run_def goal_keys_def)

text \<open>C19: that state is at rest: reconciling a managed cluster whose resources are complete
  writes nothing.\<close>

theorem reconcile_at_rest:
  assumes "kube_hub_live K V" and "pem_codec P" and "managed (V w) n mc msa" and "ready (V w) mc msa src"
    and "complete P mgr mc src (V w)"
  shows "V (snd (Reconcile K P mgr n w)) = V w \<and> fst (Reconcile K P mgr n w) = Inr (no_requeue, None)"
proof -
  have n: "mc_Name mc = n" "shouldManageCluster mc" using assms(3) by (auto simp: managed_def)
  obtain w1 where w1: "V w1 = V w" "Reconcile K P mgr n w = Reconcile_tail K P mgr mc msa w1"
    by (rule managed_tail [OF assms(1,3)])
  obtain w' where "Reconcile_tail K P mgr mc msa w1 = (Inr (no_requeue, None), w')"
      "complete P mgr mc src (V w1) \<longrightarrow> V w' = V w1"
    by (rule kube_hub_live.tail_live [OF assms(1,2) n(2), of w1 msa src mgr]) (use assms(4) w1(1) in auto)
  with w1 assms(5) show ?thesis by simp
qed

theorem reconcile_at_rest_witness:
  "mem_hub (snd (demo_run (demo_ready demo_done))) = mem_hub (demo_ready demo_done)"
proof -
  have "complete demo_P ''mgr'' (demo_mc True [ManagedClusterFinalizer]) demo_src (mem_hub (demo_ready demo_done))"
    by (simp add: complete_def settled_def provider_secret_def goal_keys_def demo_ready_def demo_mem_def
        demo_mc_def demo_done_def demo_provider_secret_def demo_src_def secretNeedsUpdate_def data_get_def
        mergeCACert_def MTVIntegrationsNamespace_def)
  with reconcile_at_rest [OF demo_laws(1,2) demo_managed demo_is_ready, of demo_done "''mgr''"] show ?thesis
    by (simp add: demo_run_def)
qed

text \<open>C20: the first two steps towards that state: a labelled cluster without the finalizer gets
  it and nothing else, and a cluster with the finalizer but no service account gets the
  service account, with a retry after the token wait.\<close>

theorem reconcile_progress:
  assumes "kube_hub_live K V" and "established (V w)" and "hub_clusters (V w) n = Some mc"
    and "mc_Name mc = n" and "shouldManageCluster mc"
  shows "(\<not> has_finalizer n (V w) \<longrightarrow>
       has_finalizer n (V (snd (Reconcile K P mgr n w))) \<and>
       hub_objs (V (snd (Reconcile K P mgr n w))) = hub_objs (V w)) \<and>
     (has_finalizer n (V w) \<longrightarrow> hub_objs (V w) (MSAsGVR, n, n @ ''-mtv'') = None \<longrightarrow>
       hub_objs (V (snd (Reconcile K P mgr n w))) (MSAsGVR, n, n @ ''-mtv'') \<noteq> None \<and>
       fst (Reconcile K P mgr n w) = Inr (\<lparr>RequeueAfter = TokenWaitDuration\<rparr>, None))"
proof -
  have hub: "kube_hub K V" using assms(1) by (simp add: kube_hub_live_def)
  obtain w2 where w2: "Reconcile K P mgr n w = dispatch K P mgr mc w2" "V w2 = V w"
    by (rule kube_hub_live.Reconcile_live [OF assms(1-4)])
  have d: "dispatch K P mgr mc w2 = reconcileActiveCluster K P mgr mc w2"
    using manage_not_cleanup [OF assms(5), of K] assms(5) by (simp add: dispatch_def)
  have fin: "ContainsFinalizer K mc ManagedClusterFinalizer \<longleftrightarrow> has_finalizer n (V w)"
    using assms(3) by (simp add: has_finalizer_def kube_hub.contains_finalizer [OF hub])
  show ?thesis
    using kube_hub_live.add_finalizer_live [OF assms(1), of w2 n mc P mgr]
      kube_hub_live.create_msa_live [OF assms(1), of mc n w2 P mgr] w2 d fin assms(3,4) by simp
qed

theorem reconcile_progress_witness:
  "has_finalizer ''c1'' (mem_hub (snd (demo_run (demo_mem (demo_mc True []) Map.empty)))) \<and>
   fst (demo_run (demo_mem (demo_mc True [ManagedClusterFinalizer]) Map.empty)) =
     Inr (\<lparr>RequeueAfter = TokenWaitDuration\<rparr>, None)"
proof -
  have est: "established (mem_hub (demo_mem mc objs))" for mc objs
    by (simp add: established_def demo_mem_def)
  have mc: "hub_clusters (mem_hub (demo_mem mc objs)) ''c1'' = Some mc" for mc objs
    by (simp add: demo_mem_def)
  have manage: "mc_Name (demo_mc True fs) = ''c1''" "shouldManageCluster (demo_mc True fs)" for fs
    by (simp_all add: demo_mc_def shouldManageCluster_def cnvOperatorInstallEnabled_def)
  note step = reconcile_progress [OF demo_laws(1) est mc manage, of _ _ demo_P "''mgr''"]
  show ?thesis
    using step [of "[]" Map.empty] step [of "[ManagedClusterFinalizer]" Map.empty]
    by (simp add: demo_run_def has_finalizer_def demo_mem_def demo_mc_def)
qed

text \<open>C21: the Provider is created although neither the token of the service account nor the
  provider secret that the Provider refers to exists; the documentation of the architecture
  says that the Provider is created only once the secret is ready.\<close>

theorem provider_before_secret:
  assumes "kube_hub_live K V" and "managed (V w) n mc msa" and "msa_TokenSecretRef msa = None"
    and "msaaNamespaceOf (hub_deployments (V w)) = Some ns" and "ns \<noteq> []"
    and "hub_objs (V w) (SecretsGVR, MTVIntegrationsNamespace, n @ ''-mtv'') = None"
  shows "hub_objs (V (snd (Reconcile K P mgr n w))) (ProvidersGVR, MTVIntegrationsNamespace, n @ ''-mtv'') \<noteq> None \<and>
     hub_objs (V (snd (Reconcile K P mgr n w))) (SecretsGVR, MTVIntegrationsNamespace, n @ ''-mtv'') = None \<and>
     fst (Reconcile K P mgr n w) = Inr (no_requeue, None)"
proof -
  have n: "mc_Name mc = n" "shouldManageCluster mc" using assms(2) by (auto simp: managed_def)
  obtain w1 where w1: "V w1 = V w" "Reconcile K P mgr n w = Reconcile_tail K P mgr mc msa w1"
    by (rule managed_tail [OF assms(1,2)])
  have "\<exists>w'. Reconcile_tail K P mgr mc msa w1 = (Inr (no_requeue, None), w') \<and>
      hub_objs (V w') (ProvidersGVR, MTVIntegrationsNamespace, mc_Name mc @ ''-mtv'') \<noteq> None \<and>
      hub_objs (V w') (SecretsGVR, MTVIntegrationsNamespace, mc_Name mc @ ''-mtv'') = None"
    by (rule kube_hub_live.tail_no_token [OF assms(1) _ assms(5) n(2) assms(3)]) (use assms(4,6) w1(1) n(1) in auto)
  with w1 n show ?thesis by auto
qed

theorem provider_before_secret_witness:
  "hub_objs (mem_hub (snd (demo_run (demo_mem (demo_mc True [ManagedClusterFinalizer])
      [(MSAsGVR, ''c1'', ''c1-mtv'') \<mapsto> MSAObj (demo_msa None)]))))
     (ProvidersGVR, MTVIntegrationsNamespace, ''c1-mtv'') \<noteq> None"
proof -
  let ?w = "demo_mem (demo_mc True [ManagedClusterFinalizer])
      [(MSAsGVR, ''c1'', ''c1-mtv'') \<mapsto> MSAObj (demo_msa None)]"
  have "managed (mem_hub ?w) ''c1'' (demo_mc True [ManagedClusterFinalizer]) (demo_msa None)"
    by (simp add: managed_def demo_mem_def demo_mc_def demo_msa_def established_def
        has_finalizer_def shouldManageCluster_def cnvOperatorInstallEnabled_def msa_key_def)
  then show ?thesis
    using provider_before_secret [OF demo_laws(1), where w = ?w and n = "''c1''" and ns = "''agent''"
        and mc = "demo_mc True [ManagedClusterFinalizer]" and msa = "demo_msa None" and P = demo_P and mgr = "''mgr''"]
    by (simp add: demo_run_def) (simp add: demo_mem_def demo_msa_def)
qed

end
