(* ===== verification/Unstructured.thy ===== *)
theory Unstructured
  imports Hub
begin

text \<open>
  The accessors of \<^verbatim>\<open>k8s.io/apimachinery/pkg/apis/meta/v1/unstructured\<close> that the sources call,
  a parameter with their documented contract: a value of the expected type at the path is
  returned as found, anything else is reported as not found (with an error if the path
  holds a value of another type) together with the zero value.
\<close>

record unstr =
  NestedString :: "json \<Rightarrow> string list \<Rightarrow> string \<times> bool \<times> goerr option"
  NestedSlice :: "json \<Rightarrow> string list \<Rightarrow> json list \<times> bool \<times> goerr option"
  NestedMap :: "json \<Rightarrow> string list \<Rightarrow> json \<times> bool \<times> goerr option"
  NestedInt64 :: "json \<Rightarrow> string list \<Rightarrow> int \<times> bool \<times> goerr option"

fun as_slice :: "json option \<Rightarrow> json list option" where
  "as_slice (Some (JArr xs)) = Some xs"
| "as_slice _ = None"

fun as_str :: "json option \<Rightarrow> string option" where
  "as_str (Some (JStr s)) = Some s"
| "as_str _ = None"

fun as_map :: "json option \<Rightarrow> json option" where
  "as_map (Some (JObj kvs)) = Some (JObj kvs)"
| "as_map _ = None"

text \<open>A number of the document that does not fit an \<^verbatim>\<open>int64\<close> is decoded as a \<^verbatim>\<open>float64\<close>, so it is not
  an integer for the accessor.\<close>

fun as_int :: "json option \<Rightarrow> int option" where
  "as_int (Some (JNum n)) = (if - (2 ^ 63) \<le> n \<and> n < 2 ^ 63 then Some n else None)"
| "as_int _ = None"

locale unstructured_lib =
  fixes U :: unstr
  assumes slice: "(fst (NestedSlice U j p), fst (snd (NestedSlice U j p))) =
        (case as_slice (jpath j p) of Some xs \<Rightarrow> (xs, True) | None \<Rightarrow> ([], False))"
    and slice_err: "snd (snd (NestedSlice U j p)) \<noteq> None \<Longrightarrow> as_slice (jpath j p) = None"
    and str: "(fst (NestedString U j p), fst (snd (NestedString U j p))) =
        (case as_str (jpath j p) of Some s \<Rightarrow> (s, True) | None \<Rightarrow> ([], False))"
    and str_err: "snd (snd (NestedString U j p)) \<noteq> None \<Longrightarrow> as_str (jpath j p) = None"
    and obj: "(fst (NestedMap U j p), fst (snd (NestedMap U j p))) =
        (case as_map (jpath j p) of Some m \<Rightarrow> (m, True) | None \<Rightarrow> (JObj [], False))"
    and obj_err: "snd (snd (NestedMap U j p)) \<noteq> None \<Longrightarrow> as_map (jpath j p) = None"
    and num: "(fst (NestedInt64 U j p), fst (snd (NestedInt64 U j p))) =
        (case as_int (jpath j p) of Some n \<Rightarrow> (n, True) | None \<Rightarrow> (0, False))"
    and num_err: "snd (snd (NestedInt64 U j p)) \<noteq> None \<Longrightarrow> as_int (jpath j p) = None"
begin

lemma slice_cases:
  obtains (found) xs where "NestedSlice U j p = (xs, True, None)" and "as_slice (jpath j p) = Some xs"
  | (missing) e where "NestedSlice U j p = ([], False, e)" and "as_slice (jpath j p) = None"
  using slice [of j p] slice_err [of j p]
  by (cases "as_slice (jpath j p)"; cases "NestedSlice U j p") (auto split: option.splits)

lemma str_cases:
  obtains (found) s where "NestedString U j p = (s, True, None)" and "as_str (jpath j p) = Some s"
  | (missing) e where "NestedString U j p = ([], False, e)" and "as_str (jpath j p) = None"
  using str [of j p] str_err [of j p]
  by (cases "as_str (jpath j p)"; cases "NestedString U j p") (auto split: option.splits)

lemma str_value: "fst (NestedString U j p) = jstr (jpath j p)"
proof -
  have "as_str o' = None \<Longrightarrow> jstr o' = []" "as_str o' = Some s \<Longrightarrow> jstr o' = s" for o' s
    by (cases o' rule: jstr.cases; simp)+
  then show ?thesis by (cases rule: str_cases [of j p]) auto
qed

end

section \<open>A reference implementation\<close>

definition nested :: "(json option \<Rightarrow> 'a option) \<Rightarrow> 'a \<Rightarrow> json \<Rightarrow> string list \<Rightarrow> 'a \<times> bool \<times> goerr option" where
  "nested as zero j p =
     (case as (jpath j p) of
        Some x \<Rightarrow> (x, True, None)
      | None \<Rightarrow> (zero, False,
          if jpath j p = None then None else Some (Errorf ''accessor error: unexpected type'' [] None)))"

definition unstr_ref :: unstr where
  "unstr_ref = \<lparr>NestedString = nested as_str [], NestedSlice = nested as_slice [],
     NestedMap = nested as_map (JObj []), NestedInt64 = nested as_int 0\<rparr>"

interpretation unstr_ref: unstructured_lib unstr_ref
  by unfold_locales (auto simp: unstr_ref_def nested_def split: option.splits if_splits)

end
