(* ===== verification/PlanController.thy ===== *)
theory PlanController
  imports Unstructured
begin

text \<open>
  The plan reconciler: \<^verbatim>\<open>controllers/plan/plan_controller.go\<close>. It makes a plan the controlling
  owner of the network map and the storage map the plan refers to.

  An unstructured object is its metadata and its JSON content. The client calls are the
  record \<open>plan_api\<close>, a parameter; the locale \<open>plan_hub\<close> states what the documentation of the
  client promises of them on the stored objects.
\<close>

record gvk =
  gvk_Group :: string
  gvk_Version :: string
  gvk_Kind :: string

record uobj =
  o_GVK :: gvk
  o_Name :: string
  o_Namespace :: string
  o_UID :: string
  o_Labels :: "string \<rightharpoonup> string"
  o_OwnerReferences :: "owner_ref list"
  o_Object :: json

type_synonym obj_id = "gvk \<times> string \<times> string"

record 'w plan_api =
  getObj :: "gvk \<Rightarrow> string \<Rightarrow> string \<Rightarrow> ('w, uobj) prog"
  patchObj :: "uobj \<Rightarrow> uobj \<Rightarrow> ('w, unit) prog"
  listPlans :: "string \<Rightarrow> string \<times> string \<Rightarrow> string \<times> string \<Rightarrow> ('w, uobj list) prog"

definition labelCreatedBy :: string where
  "labelCreatedBy = ''app.kubernetes.io/created-by''"

definition labelCCLMValue :: string where
  "labelCCLMValue = ''cclm''"

definition forkliftAPIGroup :: string where
  "forkliftAPIGroup = ''forklift.konveyor.io''"

definition forkliftAPIVersion :: string where
  "forkliftAPIVersion = ''v1beta1''"

definition planGVK :: gvk where
  "planGVK = \<lparr>gvk_Group = forkliftAPIGroup, gvk_Version = forkliftAPIVersion, gvk_Kind = ''Plan''\<rparr>"

definition networkMapGVK :: gvk where
  "networkMapGVK = \<lparr>gvk_Group = forkliftAPIGroup, gvk_Version = forkliftAPIVersion, gvk_Kind = ''NetworkMap''\<rparr>"

definition storageMapGVK :: gvk where
  "storageMapGVK = \<lparr>gvk_Group = forkliftAPIGroup, gvk_Version = forkliftAPIVersion, gvk_Kind = ''StorageMap''\<rparr>"

section \<open>Owner references\<close>

text \<open>The loop of \<^verbatim>\<open>setOwner\<close>: \<^const>\<open>None\<close> if it returns, otherwise the references kept.\<close>

fun setOwner_loop :: "string \<Rightarrow> string \<Rightarrow> owner_ref list \<Rightarrow> owner_ref list \<Rightarrow> owner_ref list option" where
  "setOwner_loop planUID planName filtered [] = Some filtered"
| "setOwner_loop planUID planName filtered (r # refs) =
     (if owner_UID r = planUID then None
      else if owner_Controller r = Some True then
        (if owner_Kind r = gvk_Kind planGVK \<and> owner_Name r = planName
         then setOwner_loop planUID planName filtered refs
         else None)
      else setOwner_loop planUID planName (filtered @ [r]) refs)"

definition planOwnerRef :: "uobj \<Rightarrow> owner_ref" where
  "planOwnerRef plan = \<lparr>
     owner_APIVersion = gvk_Group planGVK @ ''/'' @ gvk_Version planGVK,
     owner_Kind = gvk_Kind planGVK, owner_Name = o_Name plan, owner_UID = o_UID plan,
     owner_Controller = Some True, owner_BlockOwnerDeletion = Some False\<rparr>"

definition setOwner :: "'w plan_api \<Rightarrow> uobj \<Rightarrow> uobj \<Rightarrow> ('w, unit) prog" where
  "setOwner K plan obj =
     (case setOwner_loop (o_UID plan) (o_Name plan) [] (o_OwnerReferences obj) of
        None \<Rightarrow> ret ()
      | Some filtered \<Rightarrow>
          wrapErr (\<lambda>err. Errorf ''patch owner reference on %s %s/%s: %w''
              [gvk_Kind (o_GVK obj), o_Namespace obj, o_Name obj] (Some err))
            (patchObj K (obj\<lparr>o_OwnerReferences := filtered @ [planOwnerRef plan]\<rparr>) obj))"

definition reconcileMapRef :: "'w plan_api \<Rightarrow> uobj \<Rightarrow> gvk \<Rightarrow> string \<Rightarrow> string \<Rightarrow> ('w, unit) prog" where
  "reconcileMapRef K plan gvk name ns0 =
     (if name = [] then ret ()
      else let planNS = o_Namespace plan; ns = (if ns0 = [] then planNS else ns0)
           in if ns \<noteq> planNS then ret ()
              else onResult (getObj K gvk name ns) (\<lambda>r. case r of
                Inl err \<Rightarrow> if IsNotFound err then ret ()
                           else fail (Errorf ''get %s %s/%s: %w'' [gvk_Kind gvk, ns, name] (Some err))
              | Inr obj \<Rightarrow> if map_get (o_Labels obj) labelCreatedBy \<noteq> labelCCLMValue then ret ()
                           else setOwner K plan obj))"

section \<open>Reconcile\<close>

text \<open>The string at a path of the plan; what \<^verbatim>\<open>NestedString\<close> reports beside it is dropped.\<close>

definition planString :: "unstr \<Rightarrow> uobj \<Rightarrow> string list \<Rightarrow> string" where
  "planString U plan p = fst (NestedString U (o_Object plan) p)"

fun reconcileRefs :: "'w plan_api \<Rightarrow> uobj \<Rightarrow> (gvk \<times> string \<times> string) list \<Rightarrow> ('w, unit) prog" where
  "reconcileRefs K plan [] = ret ()"
| "reconcileRefs K plan ((gvk, name, ns) # refs) =
     andThen (wrapErr (\<lambda>err. Errorf ''reconcile %s %s/%s for plan %s/%s: %w''
          [gvk_Kind gvk, ns, name, o_Namespace plan, o_Name plan] (Some err))
        (reconcileMapRef K plan gvk name ns))
      (\<lambda>_. reconcileRefs K plan refs)"

definition planRefs :: "unstr \<Rightarrow> uobj \<Rightarrow> (gvk \<times> string \<times> string) list" where
  "planRefs U plan =
     [(networkMapGVK, planString U plan [''spec'', ''map'', ''network'', ''name''],
         planString U plan [''spec'', ''map'', ''network'', ''namespace'']),
      (storageMapGVK, planString U plan [''spec'', ''map'', ''storage'', ''name''],
         planString U plan [''spec'', ''map'', ''storage'', ''namespace''])]"

definition PlanReconcile :: "'w plan_api \<Rightarrow> unstr \<Rightarrow> string \<Rightarrow> string \<Rightarrow> ('w, unit) prog" where
  "PlanReconcile K U ns name =
     onResult (getObj K planGVK name ns) (\<lambda>r. case r of
       Inl err \<Rightarrow> if IsNotFound err then ret () else fail err
     | Inr plan \<Rightarrow> reconcileRefs K plan (planRefs U plan))"

section \<open>Watches\<close>

definition fieldIndexNetworkMap :: string where
  "fieldIndexNetworkMap = ''.spec.map.network.name''"

definition fieldIndexStorageMap :: string where
  "fieldIndexStorageMap = ''.spec.map.storage.name''"

text \<open>The index function of a path.\<close>

definition indexPlan :: "unstr \<Rightarrow> string list \<Rightarrow> uobj \<Rightarrow> string list" where
  "indexPlan U path obj = (let name = planString U obj path in if name = [] then [] else [name])"

text \<open>The requests for a changed map: namespace and name of the plans listed.\<close>

definition mapToPlan :: "'w plan_api \<Rightarrow> string \<Rightarrow> uobj \<Rightarrow> ('w, (string \<times> string) list) prog" where
  "mapToPlan K fieldIndex obj =
     onResult (listPlans K (o_Namespace obj) (fieldIndex, o_Name obj) (labelCreatedBy, labelCCLMValue)) (\<lambda>r.
       case r of Inl err \<Rightarrow> ret [] | Inr items \<Rightarrow> ret (map (\<lambda>p. (o_Namespace p, o_Name p)) items))"

section \<open>Which references are set\<close>

abbreviation is_controller :: "owner_ref \<Rightarrow> bool" where
  "is_controller r \<equiv> owner_Controller r = Some True"

definition may_own :: "uobj \<Rightarrow> owner_ref list \<Rightarrow> bool" where
  "may_own plan refs \<longleftrightarrow>
     (\<forall>r\<in>set refs. owner_UID r \<noteq> o_UID plan \<and>
        (is_controller r \<longrightarrow> owner_Kind r = ''Plan'' \<and> owner_Name r = o_Name plan))"

lemma setOwner_loop_eq:
  "setOwner_loop (o_UID plan) (o_Name plan) filtered refs =
     (if may_own plan refs then Some (filtered @ filter (\<lambda>r. \<not> is_controller r) refs) else None)"
  by (induction refs arbitrary: filtered) (auto simp: may_own_def planGVK_def)

text \<open>The owner references after a successful call.\<close>

definition owned :: "uobj \<Rightarrow> owner_ref list \<Rightarrow> owner_ref list" where
  "owned plan refs =
     (if may_own plan refs then filter (\<lambda>r. \<not> is_controller r) refs @ [planOwnerRef plan] else refs)"

lemma setOwner_owned:
  "setOwner K plan obj =
     (if may_own plan (o_OwnerReferences obj)
      then wrapErr (\<lambda>err. Errorf ''patch owner reference on %s %s/%s: %w''
              [gvk_Kind (o_GVK obj), o_Namespace obj, o_Name obj] (Some err))
            (patchObj K (obj\<lparr>o_OwnerReferences := owned plan (o_OwnerReferences obj)\<rparr>) obj)
      else ret ())"
  by (simp add: setOwner_def setOwner_loop_eq owned_def)

interpretation owned_step: idempotent_op "owned plan" for plan
  by unfold_locales (auto simp: owned_def may_own_def planOwnerRef_def)

lemma owned_controllers:
  "may_own plan refs \<Longrightarrow> filter is_controller (owned plan refs) = [planOwnerRef plan]"
  by (simp add: owned_def planOwnerRef_def filter_empty_conv)

lemma owned_others: "filter (\<lambda>r. \<not> is_controller r) (owned plan refs) = filter (\<lambda>r. \<not> is_controller r) refs"
  by (simp add: owned_def planOwnerRef_def)

section \<open>The store\<close>

text \<open>Reads do not change the store and return stored objects under their own names; a patch
  changes at most the object it names, to the object given.\<close>

definition obj_id :: "uobj \<Rightarrow> obj_id" where
  "obj_id x = (o_GVK x, o_Namespace x, o_Name x)"

definition stamp :: "uobj \<Rightarrow> uobj \<Rightarrow> uobj" where
  "stamp plan x = x\<lparr>o_OwnerReferences := owned plan (o_OwnerReferences x)\<rparr>"

text \<open>The map a reference names, if it is in the namespace of the plan and carries the label.\<close>

definition eligible :: "(obj_id \<rightharpoonup> uobj) \<Rightarrow> uobj \<Rightarrow> gvk \<times> string \<times> string \<Rightarrow> uobj option" where
  "eligible s plan ref =
     (case ref of (g, name, ns) \<Rightarrow>
        if name = [] \<or> (ns \<noteq> [] \<and> ns \<noteq> o_Namespace plan) then None
        else case s (g, o_Namespace plan, name) of
               Some x \<Rightarrow> if map_get (o_Labels x) labelCreatedBy = labelCCLMValue then Some x else None
             | None \<Rightarrow> None)"

definition stampRef :: "uobj \<Rightarrow> (obj_id \<rightharpoonup> uobj) \<Rightarrow> gvk \<times> string \<times> string \<Rightarrow> (obj_id \<rightharpoonup> uobj)" where
  "stampRef plan s ref =
     (case eligible s plan ref of
        None \<Rightarrow> s
      | Some x \<Rightarrow> s((fst ref, o_Namespace plan, fst (snd ref)) \<mapsto> stamp plan x))"

locale plan_hub =
  fixes K :: "'w plan_api" and S :: "'w \<Rightarrow> obj_id \<rightharpoonup> uobj"
  assumes get_reads: "S (snd (getObj K g n ns w)) = S w"
    and list_reads: "S (snd (listPlans K ns fl lbl w)) = S w"
    and get_stored: "getObj K g n ns w = (Inr x, w') \<Longrightarrow> S w (g, ns, n) = Some x \<and> obj_id x = (g, ns, n)"
    and get_not_found: "getObj K g n ns w = (Inl e, w') \<Longrightarrow> IsNotFound e \<Longrightarrow> S w (g, ns, n) = None"
    and patch_only: "S w (obj_id x) = Some orig \<Longrightarrow>
        S (snd (patchObj K x orig w)) = S w \<or>
        S (snd (patchObj K x orig w)) = (S w)(obj_id x \<mapsto> x)"
    and patch_done: "S w (obj_id x) = Some orig \<Longrightarrow> patchObj K x orig w = (Inr u, w') \<Longrightarrow>
        S w' = (S w)(obj_id x \<mapsto> x)"
begin

text \<open>Each reference is handled by an update of its owner references or not at all.\<close>

lemma setOwner_store:
  assumes "S w (obj_id obj) = Some obj"
  shows "S (snd (setOwner K plan obj w)) = S w \<or>
     S (snd (setOwner K plan obj w)) =
       (S w)(obj_id obj \<mapsto> obj\<lparr>o_OwnerReferences := owned plan (o_OwnerReferences obj)\<rparr>)"
    and "fst (setOwner K plan obj w) = Inr u \<Longrightarrow>
      S (snd (setOwner K plan obj w)) =
       (S w)(obj_id obj \<mapsto> obj\<lparr>o_OwnerReferences := owned plan (o_OwnerReferences obj)\<rparr>)"
proof -
  let ?x = "obj\<lparr>o_OwnerReferences := owned plan (o_OwnerReferences obj)\<rparr>"
  have id: "obj_id ?x = obj_id obj" by (simp add: obj_id_def)
  obtain r w' where p: "patchObj K ?x obj w = (r, w')" by (cases "patchObj K ?x obj w")
  have same: "\<not> may_own plan (o_OwnerReferences obj) \<Longrightarrow> (S w)(obj_id obj \<mapsto> ?x) = S w"
    using assms by (simp add: owned_def fun_upd_idem_iff)
  show "S (snd (setOwner K plan obj w)) = S w \<or>
     S (snd (setOwner K plan obj w)) = (S w)(obj_id obj \<mapsto> ?x)"
    using patch_only [of w ?x obj] id assms p
    by (auto simp: setOwner_owned prog_defs split: sum.splits)
  show "S (snd (setOwner K plan obj w)) = (S w)(obj_id obj \<mapsto> ?x)" if "fst (setOwner K plan obj w) = Inr u"
    using that patch_done [of w ?x obj _ w'] id assms p same
    by (auto simp: setOwner_owned prog_defs split: sum.splits if_splits)
qed

lemma mapRef_store:
  "S (snd (reconcileMapRef K plan g name ns w)) \<in> {S w, stampRef plan (S w) (g, name, ns)}"
  "fst (reconcileMapRef K plan g name ns w) = Inr u \<Longrightarrow>
   S (snd (reconcileMapRef K plan g name ns w)) = stampRef plan (S w) (g, name, ns)"
proof -
  let ?ns = "o_Namespace plan"
  obtain r w1 where get: "getObj K g name ?ns w = (r, w1)" by (cases "getObj K g name ?ns w")
  have w1: "S w1 = S w" using get_reads [of g name ?ns w] get by simp
  have "S (snd (reconcileMapRef K plan g name ns w)) \<in> {S w, stampRef plan (S w) (g, name, ns)} \<and>
      (fst (reconcileMapRef K plan g name ns w) = Inr u \<longrightarrow>
       S (snd (reconcileMapRef K plan g name ns w)) = stampRef plan (S w) (g, name, ns))"
  proof (cases "name = [] \<or> (ns \<noteq> [] \<and> ns \<noteq> ?ns)")
    case True
    then show ?thesis by (auto simp: reconcileMapRef_def ret_def stampRef_def eligible_def Let_def)
  next
    case False
    then have prog: "reconcileMapRef K plan g name ns w =
        (case r of
           Inl err \<Rightarrow> if IsNotFound err then (Inr (), w1)
             else (Inl (Errorf ''get %s %s/%s: %w'' [gvk_Kind g, ?ns, name] (Some err)), w1)
         | Inr obj \<Rightarrow> if map_get (o_Labels obj) labelCreatedBy \<noteq> labelCCLMValue then (Inr (), w1)
             else setOwner K plan obj w1)"
      using get by (cases r) (auto simp: reconcileMapRef_def prog_defs Let_def)
    show ?thesis
    proof (cases r)
      case (Inl err)
      then show ?thesis
        using prog w1 get_not_found [of g name ?ns w err w1] get
        by (auto simp: stampRef_def eligible_def)
    next
      case (Inr obj)
      then have obj: "S w1 (obj_id obj) = Some obj" "obj_id obj = (g, ?ns, name)"
        using get_stored get w1 by auto
      have el: "eligible (S w) plan (g, name, ns) =
          (if map_get (o_Labels obj) labelCreatedBy = labelCCLMValue then Some obj else None)"
        using False obj w1 by (auto simp: eligible_def)
      show ?thesis
        using prog Inr el w1 setOwner_store [OF obj(1), of plan] obj(2)
        by (auto simp: stampRef_def stamp_def)
    qed
  qed
  then show "S (snd (reconcileMapRef K plan g name ns w)) \<in> {S w, stampRef plan (S w) (g, name, ns)}"
    and "fst (reconcileMapRef K plan g name ns w) = Inr u \<Longrightarrow>
      S (snd (reconcileMapRef K plan g name ns w)) = stampRef plan (S w) (g, name, ns)" by auto
qed

lemma refs_store:
  "(\<exists>d. prefix d refs \<and> S (snd (reconcileRefs K plan refs w)) = foldl (stampRef plan) (S w) d) \<and>
   (fst (reconcileRefs K plan refs w) = Inr u \<longrightarrow>
      S (snd (reconcileRefs K plan refs w)) = foldl (stampRef plan) (S w) refs)"
proof (induction refs arbitrary: w)
  case (Cons ref refs)
  obtain g name ns where ref: "ref = (g, name, ns)" by (cases ref)
  obtain r w1 where m: "reconcileMapRef K plan g name ns w = (r, w1)"
    by (cases "reconcileMapRef K plan g name ns w")
  show ?case
  proof (cases r)
    case (Inl e)
    then have "reconcileRefs K plan (ref # refs) w =
        (Inl (Errorf ''reconcile %s %s/%s for plan %s/%s: %w''
          [gvk_Kind g, ns, name, o_Namespace plan, o_Name plan] (Some e)), w1)"
      using m ref by (simp add: prog_defs)
    moreover have "S w1 = foldl (stampRef plan) (S w) [] \<or> S w1 = foldl (stampRef plan) (S w) [ref]"
      using mapRef_store(1) [of plan g name ns w] m ref by auto
    moreover have "prefix [] (ref # refs)" "prefix [ref] (ref # refs)" by simp_all
    ultimately show ?thesis by (metis Inr_not_Inl fst_conv snd_conv)
  next
    case (Inr x)
    then have w1: "S w1 = stampRef plan (S w) ref"
      using mapRef_store(2) [of plan g name ns w] m ref by simp
    have run: "reconcileRefs K plan (ref # refs) w = reconcileRefs K plan refs w1"
      using m ref Inr by (simp add: prog_defs)
    obtain d where d: "prefix d refs" "S (snd (reconcileRefs K plan refs w1)) = foldl (stampRef plan) (S w1) d"
      using Cons.IH by blast
    then have "prefix (ref # d) (ref # refs) \<and>
        S (snd (reconcileRefs K plan (ref # refs) w)) = foldl (stampRef plan) (S w) (ref # d)"
      using w1 run by simp
    moreover have "fst (reconcileRefs K plan (ref # refs) w) = Inr u \<longrightarrow>
        S (snd (reconcileRefs K plan (ref # refs) w)) = foldl (stampRef plan) (S w) (ref # refs)"
      using Cons.IH [of w1] w1 run by simp
    ultimately show ?thesis by blast
  qed
qed (simp add: ret_def)

lemma PlanReconcile_store:
  assumes "S w (planGVK, ns, name) = Some plan" and "obj_id plan = (planGVK, ns, name)"
  shows "\<exists>d. prefix d (planRefs U plan) \<and> S (snd (PlanReconcile K U ns name w)) = foldl (stampRef plan) (S w) d"
    and "fst (PlanReconcile K U ns name w) = Inr u \<Longrightarrow>
      S (snd (PlanReconcile K U ns name w)) = foldl (stampRef plan) (S w) (planRefs U plan)"
proof -
  obtain r w1 where get: "getObj K planGVK name ns w = (r, w1)" by (cases "getObj K planGVK name ns w")
  have w1: "S w1 = S w" using get_reads [of planGVK name ns w] get by simp
  have r: "(\<exists>e. r = Inl e \<and> \<not> IsNotFound e) \<or> r = Inr plan"
    using get get_stored [of planGVK name ns w] get_not_found [of planGVK name ns w] assms(1)
    by (cases r) auto
  show "\<exists>d. prefix d (planRefs U plan) \<and> S (snd (PlanReconcile K U ns name w)) = foldl (stampRef plan) (S w) d"
    using r get w1 refs_store [of "planRefs U plan" plan w1]
    by (auto simp: PlanReconcile_def prog_defs intro: exI [of _ "[]"])
  show "S (snd (PlanReconcile K U ns name w)) = foldl (stampRef plan) (S w) (planRefs U plan)"
    if "fst (PlanReconcile K U ns name w) = Inr u"
    using that r get w1 refs_store [of "planRefs U plan" plan w1 u]
    by (auto simp: PlanReconcile_def prog_defs)
qed

end

text \<open>A store in memory.\<close>

type_synonym plan_mem = "obj_id \<rightharpoonup> uobj"

definition mem_plan_api :: "plan_mem plan_api" where
  "mem_plan_api = \<lparr>
     getObj = (\<lambda>g n ns s. case s (g, ns, n) of
        Some x \<Rightarrow> if obj_id x = (g, ns, n) then (Inr x, s) else (Inl (ApiStatus OtherReason n), s)
      | None \<Rightarrow> (Inl (ApiStatus NotFound n), s)),
     patchObj = (\<lambda>x orig s. (Inr (), s(obj_id x \<mapsto> x))),
     listPlans = (\<lambda>ns fl lbl s. (Inr [], s))\<rparr>"

interpretation mem_plan: plan_hub mem_plan_api "\<lambda>s. s"
  by unfold_locales (auto simp: mem_plan_api_def api_err_defs split: option.splits if_splits)

section \<open>Inputs of the witnesses\<close>

definition demo_plan :: uobj where
  "demo_plan = \<lparr>o_GVK = planGVK, o_Name = ''p'', o_Namespace = ''ns'', o_UID = ''uid2'', o_Labels = Map.empty,
     o_OwnerReferences = [], o_Object = JObj [(''spec'', JObj [(''map'', JObj [
       (''network'', JObj [(''name'', JStr ''net'')])])])]\<rparr>"

definition demo_ref :: "string \<Rightarrow> string \<Rightarrow> owner_ref" where
  "demo_ref api kind = \<lparr>owner_APIVersion = api, owner_Kind = kind, owner_Name = ''p'', owner_UID = ''uid1'',
     owner_Controller = Some True, owner_BlockOwnerDeletion = None\<rparr>"

definition demo_net :: "owner_ref list \<Rightarrow> uobj" where
  "demo_net refs = \<lparr>o_GVK = networkMapGVK, o_Name = ''net'', o_Namespace = ''ns'', o_UID = ''u'',
     o_Labels = [labelCreatedBy \<mapsto> labelCCLMValue], o_OwnerReferences = refs, o_Object = JNull\<rparr>"

definition demo_store :: plan_mem where
  "demo_store = [(planGVK, ''ns'', ''p'') \<mapsto> demo_plan,
     (networkMapGVK, ''ns'', ''net'') \<mapsto> demo_net [demo_ref ''forklift.konveyor.io/v1beta1'' ''Plan'']]"

lemma demo_store_plan:
  "demo_store (planGVK, ''ns'', ''p'') = Some demo_plan" "obj_id demo_plan = (planGVK, ''ns'', ''p'')"
  by (simp_all add: demo_store_def demo_plan_def obj_id_def planGVK_def networkMapGVK_def)

lemma demo_refs:
  "planRefs unstr_ref demo_plan = [(networkMapGVK, ''net'', []), (storageMapGVK, [], [])]"
  by (simp add: planRefs_def planString_def demo_plan_def unstr_ref_def nested_def)

lemma demo_eligible:
  "eligible demo_store demo_plan (networkMapGVK, ''net'', []) =
   Some (demo_net [demo_ref ''forklift.konveyor.io/v1beta1'' ''Plan''])"
  by (simp add: eligible_def demo_store_def demo_plan_def demo_net_def)

section \<open>Properties\<close>

lemma planRefs_split:
  "\<exists>n nn t tn. planRefs U plan = [(networkMapGVK, n, nn), (storageMapGVK, t, tn)]"
  by (simp add: planRefs_def)

lemma gvk_distinct [simp]: "networkMapGVK \<noteq> storageMapGVK" "storageMapGVK \<noteq> networkMapGVK"
  by (simp_all add: networkMapGVK_def storageMapGVK_def)

lemma stampRef_other: "k \<noteq> (fst ref, o_Namespace plan, fst (snd ref)) \<Longrightarrow> stampRef plan s ref k = s k"
  by (simp add: stampRef_def split: option.split)

lemma eligible_other:
  "fst ref \<noteq> fst ref' \<Longrightarrow> eligible (stampRef plan s ref') plan ref = eligible s plan ref"
  by (cases ref) (auto simp: eligible_def stampRef_other)

text \<open>C23: a reconciliation of a plan that reports no error has made the plan an owner of every
  eligible map (named by the plan, in its namespace, labelled): owner references that are
  not controllers are kept in order, stale controller references of a plan of that name are
  replaced by the current one, and a map with another controller is left as it is.\<close>

theorem plan_owns_maps:
  assumes "plan_hub K S" and "S w (planGVK, ns, name) = Some plan" and "obj_id plan = (planGVK, ns, name)"
    and "fst (PlanReconcile K U ns name w) = Inr u" and "ref \<in> set (planRefs U plan)"
    and "eligible (S w) plan ref = Some m"
  shows "S (snd (PlanReconcile K U ns name w)) (fst ref, ns, fst (snd ref)) =
     Some (m\<lparr>o_OwnerReferences := owned plan (o_OwnerReferences m)\<rparr>)"
proof -
  obtain n nn t tn where refs: "planRefs U plan = [(networkMapGVK, n, nn), (storageMapGVK, t, tn)]"
    using planRefs_split by blast
  have ns: "o_Namespace plan = ns" using assms(3) by (simp add: obj_id_def)
  have st: "S (snd (PlanReconcile K U ns name w)) =
      stampRef plan (stampRef plan (S w) (networkMapGVK, n, nn)) (storageMapGVK, t, tn)"
    using plan_hub.PlanReconcile_store(2) [OF assms(1-4)] refs by simp
  from assms(5) refs consider "ref = (networkMapGVK, n, nn)" | "ref = (storageMapGVK, t, tn)" by auto
  then show ?thesis
  proof cases
    case 1
    then show ?thesis
      using st assms(6) ns stampRef_other [of "(networkMapGVK, ns, n)" "(storageMapGVK, t, tn)" plan]
      by (simp add: stampRef_def [of plan "S w"] stamp_def)
  next
    case 2
    have "eligible (stampRef plan (S w) (networkMapGVK, n, nn)) plan (storageMapGVK, t, tn) = Some m"
      using eligible_other [of "(storageMapGVK, t, tn)" "(networkMapGVK, n, nn)"] assms(6) 2 by simp
    then show ?thesis
      using st 2 ns by (simp add: stampRef_def [of plan "stampRef plan (S w) (networkMapGVK, n, nn)"] stamp_def)
  qed
qed

theorem plan_owns_maps_witness:
  "snd (PlanReconcile mem_plan_api unstr_ref ''ns'' ''p'' demo_store) (networkMapGVK, ''ns'', ''net'') =
   Some (demo_net [planOwnerRef demo_plan])"
proof -
  have ok: "fst (PlanReconcile mem_plan_api unstr_ref ''ns'' ''p'' demo_store) = Inr ()" by code_simp
  have "owned demo_plan [demo_ref ''forklift.konveyor.io/v1beta1'' ''Plan''] = [planOwnerRef demo_plan]"
    by (simp add: owned_def may_own_def demo_ref_def demo_plan_def)
  then show ?thesis
    using plan_owns_maps [where K = mem_plan_api and S = "\<lambda>s. s" and w = demo_store and U = unstr_ref
        and ref = "(networkMapGVK, ''net'', [])", OF mem_plan.plan_hub_axioms demo_store_plan ok _ demo_eligible]
    by (simp add: demo_refs demo_net_def)
qed

lemma stampRef_changed:
  assumes "stampRef plan s ref k \<noteq> s k"
  shows "\<exists>m. k = (fst ref, o_Namespace plan, fst (snd ref)) \<and> eligible s plan ref = Some m \<and>
    stampRef plan s ref k = Some (stamp plan m)"
  using assms by (auto simp: stampRef_def split: option.splits if_splits)

lemma eligible_changed:
  assumes "eligible s plan ref = Some m" and "s (fst ref, o_Namespace plan, fst (snd ref)) \<noteq> Some (stamp plan m)"
  shows "may_own plan (o_OwnerReferences m)"
  using assms by (auto simp: eligible_def stamp_def owned_def split: prod.splits option.splits if_splits)

text \<open>Stamping one of two maps of different kinds is not disturbed by stamping the other.\<close>

lemma foldl_stamp_changed:
  assumes "prefix d [(networkMapGVK, n), (storageMapGVK, t)]" and "foldl (stampRef plan) s d k \<noteq> s k"
  shows "\<exists>ref m. ref \<in> {(networkMapGVK, n), (storageMapGVK, t)} \<and> k = (fst ref, o_Namespace plan, fst (snd ref)) \<and>
    eligible s plan ref = Some m \<and> may_own plan (o_OwnerReferences m) \<and>
    foldl (stampRef plan) s d k = Some (stamp plan m)"
proof -
  let ?a = "(networkMapGVK, n)" and ?b = "(storageMapGVK, t)"
  have one: ?thesis if "ref \<in> {?a, ?b}" "stampRef plan s ref k \<noteq> s k" "foldl (stampRef plan) s d k = stampRef plan s ref k" for ref
    using that stampRef_changed [OF that(2)] eligible_changed [of s plan ref] by (intro exI [of _ ref]) auto
  from assms(1) consider "d = []" | "d = [?a]" | "d = [?a, ?b]" by (auto simp: prefix_Cons)
  then show ?thesis
  proof cases
    case 3
    show ?thesis
    proof (cases "k = (storageMapGVK, o_Namespace plan, fst t)")
      case True
      then have "stampRef plan s ?a k = s k" using stampRef_other [of k ?a] by simp
      moreover have "stampRef plan (stampRef plan s ?a) ?b k \<noteq> s k" using 3 assms(2) by simp
      ultimately obtain m where "eligible s plan ?b = Some m" "stampRef plan (stampRef plan s ?a) ?b k = Some (stamp plan m)"
        using stampRef_changed [of plan "stampRef plan s ?a" ?b k] eligible_other [of ?b ?a] by auto
      then show ?thesis using eligible_changed [of s plan ?b m] 3 True assms(2) by (intro exI [of _ ?b] exI [of _ m]) auto
    next
      case False
      then have "stampRef plan (stampRef plan s ?a) ?b k = stampRef plan s ?a k" using stampRef_other [of k ?b] by simp
      then show ?thesis using 3 assms(2) by (intro one [of ?a]) auto
    qed
  qed (use assms(2) one [of ?a] in auto)
qed

text \<open>C24: whatever the outcome, a reconciliation changes nothing but the owner references of the
  network map and the storage map that the plan names, and those only in the namespace of
  the plan and with the label.\<close>

theorem plan_touches_only_maps:
  assumes "plan_hub K S" and "S w (planGVK, ns, name) = Some plan" and "obj_id plan = (planGVK, ns, name)"
    and "S (snd (PlanReconcile K U ns name w)) k \<noteq> S w k"
  shows "\<exists>ref m. ref \<in> set (planRefs U plan) \<and> k = (fst ref, ns, fst (snd ref)) \<and>
     eligible (S w) plan ref = Some m \<and> may_own plan (o_OwnerReferences m) \<and>
     S (snd (PlanReconcile K U ns name w)) k = Some (m\<lparr>o_OwnerReferences := owned plan (o_OwnerReferences m)\<rparr>)"
proof -
  obtain n nn t tn where refs: "planRefs U plan = [(networkMapGVK, n, nn), (storageMapGVK, t, tn)]"
    using planRefs_split by blast
  have ns: "o_Namespace plan = ns" using assms(3) by (simp add: obj_id_def)
  obtain d where "prefix d [(networkMapGVK, n, nn), (storageMapGVK, t, tn)]"
      "S (snd (PlanReconcile K U ns name w)) = foldl (stampRef plan) (S w) d"
    using plan_hub.PlanReconcile_store(1) [OF assms(1-3), of U] refs by auto
  then show ?thesis
    using foldl_stamp_changed [of d "(n, nn)" "(t, tn)" plan "S w" k] assms(4) by (simp add: refs ns stamp_def)
qed

theorem plan_touches_only_maps_witness:
  "\<exists>ref m. ref \<in> set (planRefs unstr_ref demo_plan) \<and> (networkMapGVK, ''ns'', ''net'') = (fst ref, ''ns'', fst (snd ref)) \<and>
     eligible demo_store demo_plan ref = Some m"
proof -
  have "owner_UID (hd (o_OwnerReferences (the (snd (PlanReconcile mem_plan_api unstr_ref ''ns'' ''p'' demo_store)
      (networkMapGVK, ''ns'', ''net''))))) = ''uid2''" by code_simp
  moreover have "owner_UID (hd (o_OwnerReferences (the (demo_store (networkMapGVK, ''ns'', ''net''))))) = ''uid1''"
    by code_simp
  ultimately have "snd (PlanReconcile mem_plan_api unstr_ref ''ns'' ''p'' demo_store) (networkMapGVK, ''ns'', ''net'') \<noteq>
      demo_store (networkMapGVK, ''ns'', ''net'')" by auto
  from plan_touches_only_maps [where K = mem_plan_api and S = "\<lambda>s. s" and w = demo_store,
      OF mem_plan.plan_hub_axioms demo_store_plan this]
  show ?thesis by blast
qed

text \<open>C10: the owner references that \<^verbatim>\<open>setOwner\<close> writes have exactly one controller, the plan;
  references that are not controllers are all kept and none is added; and on the written
  references the function does nothing, so a second reconciliation does not patch.\<close>

theorem set_owner_refs:
  assumes "setOwner_loop (o_UID plan) (o_Name plan) [] refs = Some kept"
  shows "filter is_controller (kept @ [planOwnerRef plan]) = [planOwnerRef plan] \<and>
     kept = filter (\<lambda>r. \<not> is_controller r) refs \<and>
     setOwner_loop (o_UID plan) (o_Name plan) [] (kept @ [planOwnerRef plan]) = None"
  using assms by (auto simp: setOwner_loop_eq may_own_def planOwnerRef_def filter_empty_conv split: if_splits)

theorem set_owner_refs_witness:
  "setOwner_loop ''uid2'' ''p'' [] [planOwnerRef demo_plan] = None"
proof -
  have "setOwner_loop (o_UID demo_plan) (o_Name demo_plan) []
      [demo_ref ''forklift.konveyor.io/v1beta1'' ''Plan''] = Some []" by code_simp
  from set_owner_refs [OF this] show ?thesis by (simp add: demo_plan_def)
qed

text \<open>A controller of the kind \<^verbatim>\<open>Plan\<close> with the name of the plan counts as stale whatever API
  group it is of, so an object owned by a plan of another API is taken over, although the
  function is documented to leave a genuinely different controller alone.\<close>

theorem foreign_plan_taken_over:
  assumes "owner_Kind r = ''Plan''" and "owner_Name r = o_Name plan" and "owner_UID r \<noteq> o_UID plan"
    and "owner_Controller r = Some True" and "owner_APIVersion r \<noteq> ''forklift.konveyor.io/v1beta1''"
  shows "setOwner_loop (o_UID plan) (o_Name plan) [] [r] = Some []"
  using assms by (simp add: planGVK_def)

theorem foreign_plan_taken_over_witness:
  "setOwner_loop ''uid2'' ''p'' [] [demo_ref ''tekton.dev/v1'' ''Plan''] = Some []"
  using foreign_plan_taken_over [of "demo_ref ''tekton.dev/v1'' ''Plan''" demo_plan]
  by (simp add: demo_ref_def demo_plan_def)

end
