(* ===== verification/Webhook.thy ===== *)
theory Webhook
  imports Unstructured
begin

text \<open>
  The admission webhook for migration plans: \<^verbatim>\<open>webhook/plan_webhook.go\<close>.

  The dynamic client, the JSON decoder and the environment are parameters: \<open>newForConfig\<close>
  makes a client for a configuration, \<open>getUserPermission\<close> reads with it, \<open>unmarshalPlan\<close>
  decodes the request, \<open>env\<close> is \<^verbatim>\<open>os.Getenv\<close>. Of \<^verbatim>\<open>rest.Config\<close> the host, the
  credentials (bearer token, basic authentication, client certificate), the impersonation and
  the certificate authorities are modelled.
\<close>

datatype Operation = OpCreate | OpUpdate | OpDelete | OpConnect

record UserInfo =
  ui_Username :: string
  ui_UID :: string
  ui_Groups :: "string list"
  ui_Extra :: "(string \<times> string list) list"

record ImpersonationConfig =
  imp_UserName :: string
  imp_UID :: string
  imp_Groups :: "string list"
  imp_Extra :: "(string \<rightharpoonup> string list) option"

record rest_Config =
  cfg_Host :: string
  cfg_BearerToken :: string
  cfg_BearerTokenFile :: string
  cfg_Username :: string
  cfg_Password :: string
  cfg_CertFile :: string
  cfg_KeyFile :: string
  cfg_CertData :: bytes
  cfg_KeyData :: bytes
  cfg_Impersonate :: ImpersonationConfig
  cfg_CAData :: bytes
  cfg_CAFile :: string

record Plan =
  plan_TargetNamespace :: string
  plan_DestinationName :: string

record AdmissionRequest =
  adm_Operation :: Operation
  adm_UserInfo :: UserInfo
  adm_Raw :: bytes

datatype AdmissionResponse = Allowed string | Denied string

record ('w, 'c) wh_api =
  newForConfig :: "rest_Config \<Rightarrow> goerr + 'c"
  getUserPermission :: "'c \<Rightarrow> string \<Rightarrow> ('w, json) prog"
  unmarshalPlan :: "bytes \<Rightarrow> goerr + Plan"

section \<open>Names of the permissions\<close>

definition userPermissionManagedClusterAdmin :: string where
  "userPermissionManagedClusterAdmin = ''managedcluster:admin''"

definition userPermissionKubevirtAdmin :: string where
  "userPermissionKubevirtAdmin = ''kubevirt.io:admin''"

definition userPermissionKubevirtEdit :: string where
  "userPermissionKubevirtEdit = ''kubevirt.io:edit''"

definition envUserPermissionNames :: string where
  "envUserPermissionNames = ''MTV_USERPERMISSION_NAMES''"

definition userPermissionLookupNames :: "(string \<Rightarrow> string) \<Rightarrow> string list" where
  "userPermissionLookupNames env =
     (let s = TrimSpace (env envUserPermissionNames);
          out = filter (\<lambda>p. p \<noteq> []) (map TrimSpace (SplitByte CHR '','' s))
      in if s \<noteq> [] \<and> out \<noteq> [] then out
         else [userPermissionManagedClusterAdmin, userPermissionKubevirtAdmin, userPermissionKubevirtEdit])"

section \<open>Impersonation\<close>

definition copyExtra :: "(string \<times> string list) list \<Rightarrow> (string \<rightharpoonup> string list) option" where
  "copyExtra extra =
     (if length extra = 0 then None else Some (fold (\<lambda>(k, v) out. out(k \<mapsto> v)) extra Map.empty))"

definition impersonatedConfig :: "rest_Config \<Rightarrow> UserInfo \<Rightarrow> rest_Config" where
  "impersonatedConfig base userInfo =
     base\<lparr>cfg_Impersonate := \<lparr>
       imp_UserName = ui_Username userInfo,
       imp_UID = ui_UID userInfo,
       imp_Groups = ui_Groups userInfo,
       imp_Extra = copyExtra (ui_Extra userInfo)\<rparr>\<rparr>"

section \<open>The access check\<close>

definition bindingNamespacesCoverTarget :: "unstr \<Rightarrow> json \<Rightarrow> string \<Rightarrow> bool" where
  "bindingNamespacesCoverTarget U binding targetNamespace =
     (case NestedSlice U binding [''namespaces''] of (nsList, found, err) \<Rightarrow>
        if err \<noteq> None \<or> \<not> found then False
        else list_ex (\<lambda>n. case n of JStr s \<Rightarrow> s = ''*'' \<or> s = targetNamespace | _ \<Rightarrow> False) nsList)"

fun is_object :: "json \<Rightarrow> bool" where
  "is_object (JObj _) = True"
| "is_object _ = False"

definition bindingCovers :: "unstr \<Rightarrow> string \<Rightarrow> string \<Rightarrow> json \<Rightarrow> bool" where
  "bindingCovers U targetCluster targetNamespace raw =
     (if \<not> is_object raw then False
      else case NestedString U raw [''cluster''] of (cluster, ok, _) \<Rightarrow>
        if \<not> ok \<or> cluster \<noteq> targetCluster then False
        else bindingNamespacesCoverTarget U raw targetNamespace)"

definition userPermissionCoversTarget ::
    "('w, 'c) wh_api \<Rightarrow> unstr \<Rightarrow> 'c \<Rightarrow> string \<Rightarrow> string \<Rightarrow> string \<Rightarrow> ('w, bool) prog" where
  "userPermissionCoversTarget W U client name targetCluster targetNamespace =
     onResult (getUserPermission W client name) (\<lambda>r. case r of
       Inl err \<Rightarrow> if IsNotFound err then ret False
                  else fail (Errorf ''get UserPermission %q: %w'' [name] (Some err))
     | Inr obj \<Rightarrow>
         (case NestedSlice U obj [''status'', ''bindings''] of (bindings, found, err) \<Rightarrow>
            if err \<noteq> None \<or> \<not> found then ret False
            else ret (list_ex (bindingCovers U targetCluster targetNamespace) bindings)))"

fun validateAccess_loop ::
    "('w, 'c) wh_api \<Rightarrow> unstr \<Rightarrow> 'c \<Rightarrow> string \<Rightarrow> string \<Rightarrow> string list \<Rightarrow> ('w, bool) prog" where
  "validateAccess_loop W U client targetCluster targetNamespace [] = ret False"
| "validateAccess_loop W U client targetCluster targetNamespace (name # names) =
     andThen (userPermissionCoversTarget W U client name targetCluster targetNamespace) (\<lambda>ok.
       if ok then ret True
       else validateAccess_loop W U client targetCluster targetNamespace names)"

definition validateTargetAccessViaUserPermissions ::
    "('w, 'c) wh_api \<Rightarrow> unstr \<Rightarrow> (string \<Rightarrow> string) \<Rightarrow> 'c \<Rightarrow> string \<Rightarrow> string \<Rightarrow> ('w, bool) prog" where
  "validateTargetAccessViaUserPermissions W U env client targetCluster targetNamespace =
     validateAccess_loop W U client targetCluster targetNamespace (userPermissionLookupNames env)"

definition rawToPlan :: "('w, 'c) wh_api \<Rightarrow> bytes \<Rightarrow> goerr + Plan option" where
  "rawToPlan W raw =
     (if length raw = 0 then Inr None
      else case unmarshalPlan W raw of Inl err \<Rightarrow> Inl err | Inr plan \<Rightarrow> Inr (Some plan))"

section \<open>The handler\<close>

definition ValidateWebhook ::
    "('w, 'c) wh_api \<Rightarrow> unstr \<Rightarrow> (string \<Rightarrow> string) \<Rightarrow> rest_Config \<Rightarrow> AdmissionRequest \<Rightarrow>
     ('w, AdmissionResponse) prog" where
  "ValidateWebhook W U env config req =
     (if adm_Operation req = OpCreate \<or> adm_Operation req = OpUpdate then
        if length (adm_Raw req) = 0 then ret (Denied ''Request object is empty'')
        else case rawToPlan W (adm_Raw req) of
          Inl _ \<Rightarrow> ret (Denied ''Failed to parse request object into Plan'')
        | Inr None \<Rightarrow> ret (Denied ''Failed to parse request object into Plan'')
        | Inr (Some plan) \<Rightarrow>
            let targetNamespace = plan_TargetNamespace plan;
                destinationName = plan_DestinationName plan
            in if \<not> HasSuffix destinationName ''-mtv''
               then ret (Allowed ''Plan validation skipped: destination provider is not managed by MTV controller'')
               else let clusterName = TrimSuffix destinationName ''-mtv''
                    in case newForConfig W (impersonatedConfig config (adm_UserInfo req)) of
                         Inl _ \<Rightarrow> ret (Denied ''Failed to setup dynamic client'')
                       | Inr dynamicClient \<Rightarrow>
                           onResult (validateTargetAccessViaUserPermissions W U env dynamicClient
                               clusterName targetNamespace) (\<lambda>r. case r of
                             Inl _ \<Rightarrow> ret (Denied ''Authorization check for cluster access failed'')
                           | Inr valid \<Rightarrow>
                               if \<not> valid
                               then ret (Denied (''User does not have permission to access the target namespace: ''
                                      @ targetNamespace @ '' in cluster: '' @ clusterName))
                               else ret (Allowed ''Plan validation passed''))
      else ret (Allowed ''Plan validation passed''))"

section \<open>What a permission grants\<close>

text \<open>Read off the JSON of a \<^verbatim>\<open>UserPermission\<close>: a binding for the cluster whose namespaces hold
  the target namespace or a star.\<close>

definition grants :: "json \<Rightarrow> string \<Rightarrow> string \<Rightarrow> bool" where
  "grants obj cluster ns \<longleftrightarrow>
     (\<exists>bs b nss. jpath obj [''status'', ''bindings''] = Some (JArr bs) \<and> b \<in> set bs \<and>
        jget b ''cluster'' = Some (JStr cluster) \<and> jget b ''namespaces'' = Some (JArr nss) \<and>
        (JStr ''*'' \<in> set nss \<or> JStr ns \<in> set nss))"

lemma as_slice_Some: "as_slice o' = Some xs \<longleftrightarrow> o' = Some (JArr xs)"
  by (cases o' rule: as_slice.cases) auto

lemma as_str_Some: "as_str o' = Some s \<longleftrightarrow> o' = Some (JStr s)"
  by (cases o' rule: as_str.cases) auto

lemma list_ex_namespaces:
  "list_ex (\<lambda>n. case n of JStr s \<Rightarrow> s = ''*'' \<or> s = ns | _ \<Rightarrow> False) nss \<longleftrightarrow>
   JStr ''*'' \<in> set nss \<or> JStr ns \<in> set nss"
  by (induction nss) (auto split: json.splits)

context unstructured_lib
begin

lemma namespaces_cover:
  "bindingNamespacesCoverTarget U b ns \<longleftrightarrow>
   (\<exists>nss. jget b ''namespaces'' = Some (JArr nss) \<and> (JStr ''*'' \<in> set nss \<or> JStr ns \<in> set nss))"
proof (cases rule: slice_cases [of b "[''namespaces'']"])
  case (found xs)
  then show ?thesis
    by (auto simp: bindingNamespacesCoverTarget_def list_ex_namespaces as_slice_Some bind_eq_Some_conv)
next
  case (missing e)
  then show ?thesis
    by (cases "jget b ''namespaces''") (auto simp: bindingNamespacesCoverTarget_def)
qed

lemma binding_covers:
  "bindingCovers U c ns b \<longleftrightarrow>
   jget b ''cluster'' = Some (JStr c) \<and>
   (\<exists>nss. jget b ''namespaces'' = Some (JArr nss) \<and> (JStr ''*'' \<in> set nss \<or> JStr ns \<in> set nss))"
proof -
  have obj: "jget b k = Some v \<Longrightarrow> is_object b" for k v by (cases b) auto
  show ?thesis
  proof (cases rule: str_cases [of b "[''cluster'']"])
    case (found s)
    then show ?thesis
      by (auto simp: bindingCovers_def namespaces_cover as_str_Some bind_eq_Some_conv dest: obj)
  next
    case (missing e)
    then show ?thesis by (cases "jget b ''cluster''") (auto simp: bindingCovers_def)
  qed
qed

lemma permission_covers:
  "userPermissionCoversTarget W U client name c ns w =
   (case getUserPermission W client name w of
      (Inl err, w') \<Rightarrow> if IsNotFound err then (Inr False, w')
                      else (Inl (Errorf ''get UserPermission %q: %w'' [name] (Some err)), w')
    | (Inr obj, w') \<Rightarrow> (Inr (grants obj c ns), w'))"
proof -
  have bs: "(case NestedSlice U obj [''status'', ''bindings''] of (bindings, found, err) \<Rightarrow>
      if err \<noteq> None \<or> \<not> found then ret False else ret (list_ex (bindingCovers U c ns) bindings)) w' =
      (Inr (grants obj c ns), w')" for obj w'
  proof (cases rule: slice_cases [of obj "[''status'', ''bindings'']"])
    case (found xs)
    then show ?thesis
      by (auto simp: grants_def list_ex_iff binding_covers as_slice_Some ret_def simp del: jpath_Cons)
  next
    case (missing e)
    then have "jpath obj [''status'', ''bindings''] \<noteq> Some (JArr xs)" for xs by auto
    with missing show ?thesis by (auto simp: grants_def ret_def simp del: jpath_Cons)
  qed
  obtain r w' where g: "getUserPermission W client name w = (r, w')"
    by (cases "getUserPermission W client name w")
  show ?thesis
  proof (cases r)
    case (Inr obj)
    show ?thesis
      unfolding userPermissionCoversTarget_def onResult_def g Inr by (simp only: prod.case sum.case bs)
  next
    case (Inl err)
    then show ?thesis using g by (simp add: userPermissionCoversTarget_def onResult_def ret_def fail_def)
  qed
qed

end

section \<open>Properties\<close>

text \<open>The outcome of the loop when the permissions do not change while they are read.\<close>

fun first_grant :: "(string \<Rightarrow> goerr + json) \<Rightarrow> string \<Rightarrow> string \<Rightarrow> string list \<Rightarrow> bool" where
  "first_grant perms c ns [] = False"
| "first_grant perms c ns (name # names) =
     (case perms name of
        Inl err \<Rightarrow> IsNotFound err \<and> first_grant perms c ns names
      | Inr obj \<Rightarrow> grants obj c ns \<or> first_grant perms c ns names)"

lemma first_grant_iff:
  "first_grant perms c ns names \<longleftrightarrow>
   (\<exists>pre name post obj. names = pre @ name # post \<and> perms name = Inr obj \<and> grants obj c ns \<and>
      (\<forall>p\<in>set pre. \<forall>e. perms p = Inl e \<longrightarrow> IsNotFound e))"
proof (induction names)
  case (Cons n names)
  let ?R = "\<lambda>ns'. \<exists>pre name post obj. ns' = pre @ name # post \<and> perms name = Inr obj \<and> grants obj c ns \<and>
      (\<forall>p\<in>set pre. \<forall>e. perms p = Inl e \<longrightarrow> IsNotFound e)"
  have "?R (n # names) \<longleftrightarrow> (\<exists>obj. perms n = Inr obj \<and> grants obj c ns) \<or>
      (\<forall>e. perms n = Inl e \<longrightarrow> IsNotFound e) \<and> ?R names"
  proof
    assume "?R (n # names)"
    then obtain pre name post obj where o: "n # names = pre @ name # post" "perms name = Inr obj"
      "grants obj c ns" "\<forall>p\<in>set pre. \<forall>e. perms p = Inl e \<longrightarrow> IsNotFound e" by blast
    show "(\<exists>obj. perms n = Inr obj \<and> grants obj c ns) \<or>
      (\<forall>e. perms n = Inl e \<longrightarrow> IsNotFound e) \<and> ?R names"
    proof (cases pre)
      case (Cons p pre')
      then have "names = pre' @ name # post" "\<forall>p\<in>set pre'. \<forall>e. perms p = Inl e \<longrightarrow> IsNotFound e"
        "\<forall>e. perms n = Inl e \<longrightarrow> IsNotFound e" using o by auto
      with o(2,3) show ?thesis by blast
    qed (use o in auto)
  next
    assume "(\<exists>obj. perms n = Inr obj \<and> grants obj c ns) \<or>
      (\<forall>e. perms n = Inl e \<longrightarrow> IsNotFound e) \<and> ?R names"
    then show "?R (n # names)"
    proof
      assume "\<exists>obj. perms n = Inr obj \<and> grants obj c ns"
      moreover have "n # names = [] @ n # names" "\<forall>p\<in>set []. \<forall>e. perms p = Inl e \<longrightarrow> IsNotFound e"
        by simp_all
      ultimately show ?thesis by blast
    next
      assume "(\<forall>e. perms n = Inl e \<longrightarrow> IsNotFound e) \<and> ?R names"
      then obtain pre name post obj where "names = pre @ name # post" "perms name = Inr obj"
        "grants obj c ns" "\<forall>p\<in>set (n # pre). \<forall>e. perms p = Inl e \<longrightarrow> IsNotFound e" by auto
      moreover from this have "n # names = (n # pre) @ name # post" by simp
      ultimately show ?thesis by blast
    qed
  qed
  with Cons.IH show ?case by (cases "perms n") auto
qed simp

lemma loop_first_grant:
  assumes "unstructured_lib U" and "\<And>name w. getUserPermission W client name w = (perms name, w)"
  shows "fst (validateAccess_loop W U client c ns names w) = Inr True \<longleftrightarrow> first_grant perms c ns names"
proof (induction names)
  case (Cons n names)
  then show ?case
    by (cases "perms n")
      (auto simp: andThen_def unstructured_lib.permission_covers [OF assms(1)] assms(2) ret_def)
qed (simp add: ret_def)

text \<open>C5: the exact admission rule, while the permissions of the user do not change: a create or
  update of a plan whose destination is a provider of this controller is admitted exactly if
  the request decodes, a client with the identity of the requester can be made, and one of
  the configured permissions, read as the requester, grants the target namespace on the
  target cluster and no permission looked up before it failed with another error than "not
  found". Plans with other destinations and other operations are admitted.\<close>

theorem admission_rule:
  assumes "unstructured_lib U"
    and "\<And>client name w. getUserPermission W client name w = (perms client name, w)"
  shows "(\<exists>msg. fst (ValidateWebhook W U env config req w) = Inr (Allowed msg)) \<longleftrightarrow>
     adm_Operation req \<notin> {OpCreate, OpUpdate} \<or>
     (adm_Raw req \<noteq> [] \<and> (\<exists>plan. unmarshalPlan W (adm_Raw req) = Inr plan \<and>
        (HasSuffix (plan_DestinationName plan) ''-mtv'' \<longrightarrow>
          (\<exists>client. newForConfig W (impersonatedConfig config (adm_UserInfo req)) = Inr client \<and>
             (\<exists>pre name post obj. userPermissionLookupNames env = pre @ name # post \<and>
                perms client name = Inr obj \<and>
                grants obj (TrimSuffix (plan_DestinationName plan) ''-mtv'') (plan_TargetNamespace plan) \<and>
                (\<forall>p\<in>set pre. \<forall>e. perms client p = Inl e \<longrightarrow> IsNotFound e))))))"
proof -
  have run: "fst (validateTargetAccessViaUserPermissions W U env client c ns w) = Inr True \<longleftrightarrow>
      first_grant (perms client) c ns (userPermissionLookupNames env)" for client c ns
    unfolding validateTargetAccessViaUserPermissions_def
    by (rule loop_first_grant [OF assms(1)]) (rule assms(2))
  show ?thesis
    unfolding first_grant_iff [symmetric] run [symmetric]
    by (auto simp: ValidateWebhook_def rawToPlan_def Let_def onResult_def ret_def
        split: sum.splits prod.splits if_splits)
qed

text \<open>A cluster-wide binding for \<open>c1\<close> in the permission \<^verbatim>\<open>kubevirt.io:admin\<close> of the user \<^verbatim>\<open>alice\<close>;
  nobody else has any.\<close>

definition demo_binding :: json where
  "demo_binding = JObj [(''status'', JObj [(''bindings'', JArr [
     JObj [(''cluster'', JStr ''c1''), (''namespaces'', JArr [JStr ''*''])]])])]"

definition demo_perms :: "rest_Config \<Rightarrow> string \<Rightarrow> goerr + json" where
  "demo_perms cfg name =
     (if imp_UserName (cfg_Impersonate cfg) = ''alice'' \<and> name = ''kubevirt.io:admin''
      then Inr demo_binding else Inl (ApiStatus NotFound name))"

definition demo_wh :: "(unit, rest_Config) wh_api" where
  "demo_wh = \<lparr>newForConfig = Inr, getUserPermission = (\<lambda>cfg name w. (demo_perms cfg name, w)),
     unmarshalPlan = (\<lambda>raw. Inr \<lparr>plan_TargetNamespace = ''ns1'', plan_DestinationName = raw\<rparr>)\<rparr>"

definition demo_cfg :: rest_Config where
  "demo_cfg = \<lparr>cfg_Host = ''hub'', cfg_BearerToken = ''t'', cfg_BearerTokenFile = [], cfg_Username = [], cfg_Password = [],
     cfg_CertFile = [], cfg_KeyFile = [], cfg_CertData = [], cfg_KeyData = [], cfg_Impersonate =
     \<lparr>imp_UserName = [], imp_UID = [], imp_Groups = [], imp_Extra = None\<rparr>,
     cfg_CAData = [], cfg_CAFile = []\<rparr>"

definition demo_req :: "string \<Rightarrow> AdmissionRequest" where
  "demo_req user = \<lparr>adm_Operation = OpCreate, adm_UserInfo = \<lparr>ui_Username = user, ui_UID = ''u'',
     ui_Groups = [''g''], ui_Extra = [(''scopes'', [''a'', ''b''])]\<rparr>, adm_Raw = ''c1-mtv''\<rparr>"

lemma demo_suffix [simp]: "HasSuffix ''c1-mtv'' ''-mtv''" "TrimSuffix ''c1-mtv'' ''-mtv'' = ''c1''"
  by (simp_all add: HasSuffix_def TrimSuffix_def)

lemma demo_names: "userPermissionLookupNames (\<lambda>_. []) =
    [''managedcluster:admin''] @ ''kubevirt.io:admin'' # [''kubevirt.io:edit'']"
  by (simp add: userPermissionLookupNames_def userPermissionManagedClusterAdmin_def
      userPermissionKubevirtAdmin_def userPermissionKubevirtEdit_def)

lemma demo_grants: "grants demo_binding ''c1'' ''ns1''"
  by (simp add: grants_def demo_binding_def)

theorem admission_rule_witness:
  "\<exists>msg. fst (ValidateWebhook demo_wh unstr_ref (\<lambda>_. []) demo_cfg (demo_req ''alice'') ()) = Inr (Allowed msg)"
proof -
  have pure: "getUserPermission demo_wh client name w = (demo_perms client name, w)" for client name w
    by (simp add: demo_wh_def)
  let ?cl = "impersonatedConfig demo_cfg (adm_UserInfo (demo_req ''alice''))"
  have cl: "newForConfig demo_wh ?cl = Inr ?cl"
    and plan: "unmarshalPlan demo_wh (adm_Raw (demo_req ''alice'')) =
      Inr \<lparr>plan_TargetNamespace = ''ns1'', plan_DestinationName = ''c1-mtv''\<rparr>"
    and raw: "adm_Raw (demo_req ''alice'') \<noteq> []"
    by (simp_all add: demo_wh_def demo_req_def)
  have perm: "demo_perms ?cl ''kubevirt.io:admin'' = Inr demo_binding"
    "\<forall>p\<in>set [''managedcluster:admin'']. \<forall>e. demo_perms ?cl p = Inl e \<longrightarrow> IsNotFound e"
    by (simp_all add: demo_perms_def impersonatedConfig_def demo_req_def api_err_defs)
  show ?thesis
    unfolding admission_rule [OF unstr_ref.unstructured_lib_axioms pure]
    using cl plan raw perm demo_grants demo_names demo_suffix by (metis Plan.select_convs(1,2))
qed

lemma loop_grants:
  assumes "unstructured_lib U" and "validateAccess_loop W U client c ns names w = (Inr True, w')"
  shows "\<exists>name\<in>set names. \<exists>w1 w2 obj. getUserPermission W client name w1 = (Inr obj, w2) \<and> grants obj c ns"
  using assms(2)
proof (induction names arbitrary: w)
  case (Cons n names)
  obtain r w1 where g: "getUserPermission W client n w = (r, w1)" by (cases "getUserPermission W client n w")
  show ?case
  proof (cases "\<exists>obj. r = Inr obj \<and> grants obj c ns")
    case True
    with g show ?thesis by auto
  next
    case False
    then have "validateAccess_loop W U client c ns names w1 = (Inr True, w')"
      using Cons.prems g
      by (auto simp: andThen_def unstructured_lib.permission_covers [OF assms(1)] split: sum.splits if_splits)
    from Cons.IH [OF this] show ?thesis by auto
  qed
qed (simp add: ret_def)

text \<open>C22: whatever the API server answers and however the permissions change meanwhile, a plan
  for a provider of this controller is admitted only after a permission was read with the
  identity of the requester that grants the target namespace on the target cluster.\<close>

theorem admitted_means_granted:
  assumes "unstructured_lib U" and "adm_Operation req \<in> {OpCreate, OpUpdate}"
    and "unmarshalPlan W (adm_Raw req) = Inr plan" and "HasSuffix (plan_DestinationName plan) ''-mtv''"
    and "ValidateWebhook W U env config req w = (Inr (Allowed msg), w')"
  shows "\<exists>client. newForConfig W (impersonatedConfig config (adm_UserInfo req)) = Inr client \<and>
     (\<exists>name\<in>set (userPermissionLookupNames env). \<exists>w1 w2 obj.
        getUserPermission W client name w1 = (Inr obj, w2) \<and>
        grants obj (TrimSuffix (plan_DestinationName plan) ''-mtv'') (plan_TargetNamespace plan))"
proof -
  let ?c = "TrimSuffix (plan_DestinationName plan) ''-mtv''" and ?ns = "plan_TargetNamespace plan"
  obtain client w1 where "newForConfig W (impersonatedConfig config (adm_UserInfo req)) = Inr client"
      "validateTargetAccessViaUserPermissions W U env client ?c ?ns w = (Inr True, w1)"
    using assms(2-5)
    by (auto simp: ValidateWebhook_def rawToPlan_def Let_def onResult_def ret_def
        split: sum.splits prod.splits if_splits)
  with loop_grants [OF assms(1), of W client ?c ?ns "userPermissionLookupNames env" w w1] show ?thesis
    by (auto simp: validateTargetAccessViaUserPermissions_def)
qed

theorem admitted_means_granted_witness:
  "\<exists>client. newForConfig demo_wh (impersonatedConfig demo_cfg (adm_UserInfo (demo_req ''alice''))) = Inr client"
proof -
  have "fst (ValidateWebhook demo_wh unstr_ref (\<lambda>_. []) demo_cfg (demo_req ''alice'') ()) =
      Inr (Allowed ''Plan validation passed'')"
    by code_simp
  then have "ValidateWebhook demo_wh unstr_ref (\<lambda>_. []) demo_cfg (demo_req ''alice'') () =
      (Inr (Allowed ''Plan validation passed''), ())" by (simp add: prod_eq_iff)
  from admitted_means_granted [OF unstr_ref.unstructured_lib_axioms _ _ _ this] show ?thesis
    by (auto simp: demo_wh_def demo_req_def)
qed

lemma copyExtra_map_of:
  assumes "distinct (map fst extra)"
  shows "(case copyExtra extra of None \<Rightarrow> None | Some m \<Rightarrow> m k) = map_of extra k"
proof -
  have "fold (\<lambda>(k, v) out. out(k \<mapsto> v)) extra m k = (case map_of extra k of None \<Rightarrow> m k | Some v \<Rightarrow> Some v)"
    for m
    using assms by (induction extra arbitrary: m) (force split: option.splits dest: map_of_SomeD)+
  then show ?thesis by (auto simp: copyExtra_def split: option.splits)
qed

text \<open>The configuration used for the access check carries exactly the identity of the
  requester, every extra attribute included, and differs from the shared one in nothing
  else.\<close>

theorem impersonation_exact:
  assumes "distinct (map fst (ui_Extra user))"
  shows "imp_UserName (cfg_Impersonate (impersonatedConfig base user)) = ui_Username user \<and>
     imp_UID (cfg_Impersonate (impersonatedConfig base user)) = ui_UID user \<and>
     imp_Groups (cfg_Impersonate (impersonatedConfig base user)) = ui_Groups user \<and>
     (\<forall>k. (case imp_Extra (cfg_Impersonate (impersonatedConfig base user)) of
             None \<Rightarrow> None | Some m \<Rightarrow> m k) = map_of (ui_Extra user) k) \<and>
     (impersonatedConfig base user)\<lparr>cfg_Impersonate := cfg_Impersonate base\<rparr> = base"
  using copyExtra_map_of [OF assms] by (simp add: impersonatedConfig_def)

theorem impersonation_exact_witness:
  "imp_UserName (cfg_Impersonate (impersonatedConfig demo_cfg (adm_UserInfo (demo_req ''bob'')))) = ''bob'' \<and>
   (case imp_Extra (cfg_Impersonate (impersonatedConfig demo_cfg (adm_UserInfo (demo_req ''bob'')))) of
      None \<Rightarrow> None | Some m \<Rightarrow> m ''scopes'') = Some [''a'', ''b'']"
  using impersonation_exact [of "adm_UserInfo (demo_req ''bob'')" demo_cfg] by (simp add: demo_req_def)

end
