(* ===== verification/Rbac.thy ===== *)
theory Rbac
  imports Webhook
begin

text \<open>
  The authorization of callers of the migration advisor:
  \<^verbatim>\<open>controllers/migrationadvisor/rbac.go\<close>. The dynamic client made from the token of the
  caller is the one of \<open>Webhook\<close>; listing the managed clusters that match a label selector, with
  the client of the controller, is the parameter \<open>listMC\<close>. Deadlines are not modelled.
\<close>

definition hubClusterName :: string where
  "hubClusterName = ''local-cluster''"

definition defaultRoleVMFleetAdmin :: string where
  "defaultRoleVMFleetAdmin = ''acm-vm-fleet:admin''"

definition defaultRoleManagedClusterAdmin :: string where
  "defaultRoleManagedClusterAdmin = ''managedcluster:admin''"

definition advisorRoleVMFleetAdmin :: "(string \<Rightarrow> string) \<Rightarrow> string" where
  "advisorRoleVMFleetAdmin env =
     (let v = TrimSpace (env ''MTV_ADVISOR_ROLE_VM_FLEET_ADMIN'')
      in if v \<noteq> [] then v else defaultRoleVMFleetAdmin)"

definition advisorRoleManagedClusterAdmin :: "(string \<Rightarrow> string) \<Rightarrow> string" where
  "advisorRoleManagedClusterAdmin env =
     (let v = TrimSpace (env ''MTV_ADVISOR_ROLE_CLUSTER_ADMIN'')
      in if v \<noteq> [] then v else defaultRoleManagedClusterAdmin)"

text \<open>Decoding the cluster of a binding.\<close>

definition bindingCluster :: "unstr \<Rightarrow> string \<Rightarrow> json \<Rightarrow> goerr + string" where
  "bindingCluster U roleName raw =
     (if \<not> is_object raw
      then Inl (Errorf ''decode UserPermission %q binding: unexpected %T'' [roleName] None)
      else case NestedString U raw [''cluster''] of (cluster, _, err) \<Rightarrow>
        (case err of
           Some e \<Rightarrow> Inl (Errorf ''decode UserPermission %q binding cluster: %w'' [roleName] (Some e))
         | None \<Rightarrow> Inr cluster))"

fun coversHub_loop :: "unstr \<Rightarrow> string \<Rightarrow> json list \<Rightarrow> goerr + bool" where
  "coversHub_loop U roleName [] = Inr False"
| "coversHub_loop U roleName (raw # rest) =
     (case bindingCluster U roleName raw of
        Inl e \<Rightarrow> Inl e
      | Inr cluster \<Rightarrow> if cluster = hubClusterName then Inr True else coversHub_loop U roleName rest)"

definition userPermissionCoversHub ::
    "('w, 'c) wh_api \<Rightarrow> unstr \<Rightarrow> (string \<Rightarrow> string) \<Rightarrow> 'c \<Rightarrow> ('w, bool) prog" where
  "userPermissionCoversHub W U env callerClient =
     (let roleName = advisorRoleVMFleetAdmin env in
      onResult (getUserPermission W callerClient roleName) (\<lambda>r. case r of
        Inl err \<Rightarrow> if IsForbidden err \<or> IsNotFound err then ret False
                   else fail (Errorf ''get UserPermission %q: %w'' [roleName] (Some err))
      | Inr obj \<Rightarrow>
          (case NestedSlice U obj [''status'', ''bindings''] of (bindings, found, err) \<Rightarrow>
             (case err of
                Some e \<Rightarrow> fail (Errorf ''decode UserPermission %q bindings: %w'' [roleName] (Some e))
              | None \<Rightarrow>
                  if \<not> found then ret False
                  else (\<lambda>w. (coversHub_loop U roleName bindings, w))))))"

fun covered_loop :: "unstr \<Rightarrow> string \<Rightarrow> json list \<Rightarrow> string set \<Rightarrow> goerr + string set" where
  "covered_loop U roleName [] covered = Inr covered"
| "covered_loop U roleName (raw # rest) covered =
     (case bindingCluster U roleName raw of
        Inl e \<Rightarrow> Inl e
      | Inr cluster \<Rightarrow> covered_loop U roleName rest (insert cluster covered))"

definition cnvOperatorInstallLabel :: string where
  "cnvOperatorInstallLabel = ''acm/cnv-operator-install''"

definition GetName :: "json \<Rightarrow> string" where
  "GetName obj = jstr (jpath obj [''metadata'', ''name''])"

definition listCNVManagedClusters :: "(string \<Rightarrow> ('w, json list) prog) \<Rightarrow> ('w, string list) prog" where
  "listCNVManagedClusters listMC =
     andThen (listMC (cnvOperatorInstallLabel @ ''=true'')) (\<lambda>items. ret (map GetName items))"

definition callerIsClusterAdmin ::
    "('w, 'c) wh_api \<Rightarrow> unstr \<Rightarrow> (string \<Rightarrow> string) \<Rightarrow> (string \<Rightarrow> ('w, json list) prog) \<Rightarrow> 'c \<Rightarrow>
     ('w, bool) prog" where
  "callerIsClusterAdmin W U env listMC callerClient =
     andThen (wrapErr (\<lambda>err. Errorf ''list CNV managed clusters: %w'' [] (Some err))
         (listCNVManagedClusters listMC)) (\<lambda>cnvClusters.
       if length cnvClusters = 0 then ret False
       else let roleName = advisorRoleManagedClusterAdmin env in
         onResult (getUserPermission W callerClient roleName) (\<lambda>r. case r of
           Inl err \<Rightarrow> if IsForbidden err \<or> IsNotFound err then ret False
                      else fail (Errorf ''get UserPermission %q: %w'' [roleName] (Some err))
         | Inr obj \<Rightarrow>
             (case NestedSlice U obj [''status'', ''bindings''] of (bindings, found, err) \<Rightarrow>
                (case err of
                   Some e \<Rightarrow> fail (Errorf ''decode UserPermission %q bindings: %w'' [roleName] (Some e))
                 | None \<Rightarrow>
                     (case (if found then covered_loop U roleName bindings {} else Inr {}) of
                        Inl e \<Rightarrow> fail e
                      | Inr covered \<Rightarrow> ret (list_all (\<lambda>c. c \<in> covered) cnvClusters))))))"

text \<open>The copy of the configuration keeps a client certificate and basic credentials of the controller,
  if it has any; an in-cluster configuration has only the token and its file.\<close>

definition callerConfig :: "rest_Config \<Rightarrow> string \<Rightarrow> rest_Config" where
  "callerConfig baseConfig bearerToken =
     baseConfig\<lparr>cfg_BearerToken := bearerToken, cfg_BearerTokenFile := [],
       cfg_Impersonate := \<lparr>imp_UserName = [], imp_UID = [], imp_Groups = [], imp_Extra = None\<rparr>\<rparr>"

definition checkCallerAuthorized ::
    "('w, 'c) wh_api \<Rightarrow> unstr \<Rightarrow> (string \<Rightarrow> string) \<Rightarrow> (string \<Rightarrow> ('w, json list) prog) \<Rightarrow> rest_Config \<Rightarrow> string \<Rightarrow>
     ('w, bool) prog" where
  "checkCallerAuthorized W U env listMC baseConfig bearerToken =
     (case newForConfig W (callerConfig baseConfig bearerToken) of
        Inl err \<Rightarrow> fail (Errorf ''build caller dynamic client: %w'' [] (Some err))
      | Inr callerClient \<Rightarrow>
          andThen (userPermissionCoversHub W U env callerClient) (\<lambda>ok.
            if ok then ret True else callerIsClusterAdmin W U env listMC callerClient))"

section \<open>What the permissions say\<close>

text \<open>The clusters a permission names; a binding without a cluster counts as the empty name.\<close>

definition perm_clusters :: "json \<Rightarrow> string set" where
  "perm_clusters obj =
     (case jpath obj [''status'', ''bindings''] of
        Some (JArr bs) \<Rightarrow> {jstr (jget b ''cluster'') | b. b \<in> set bs}
      | _ \<Rightarrow> {})"

context unstructured_lib
begin

lemma bindingCluster_value: "bindingCluster U role b = Inr c \<Longrightarrow> c = jstr (jget b ''cluster'')"
  using str_value [of b "[''cluster'']"]
  by (auto simp: bindingCluster_def split: if_splits prod.splits option.splits)

lemma coversHub_sound:
  "coversHub_loop U role bs = Inr True \<Longrightarrow> hubClusterName \<in> {jstr (jget b ''cluster'') | b. b \<in> set bs}"
proof (induction bs)
  case (Cons b bs)
  then show ?case
    using bindingCluster_value [of role b] by (fastforce split: sum.splits if_splits)
qed simp

lemma covered_sound:
  "covered_loop U role bs cov = Inr S \<Longrightarrow> S = cov \<union> {jstr (jget b ''cluster'') | b. b \<in> set bs}"
proof (induction bs arbitrary: cov)
  case (Cons b bs)
  then obtain c where c: "bindingCluster U role b = Inr c" "covered_loop U role bs (insert c cov) = Inr S"
    by (auto split: sum.splits)
  then show ?case using Cons.IH [OF c(2)] bindingCluster_value [OF c(1)] by auto
qed simp

lemma perm_clusters_slice:
  "NestedSlice U obj [''status'', ''bindings''] = (bs, True, err) \<Longrightarrow>
   perm_clusters obj = {jstr (jget b ''cluster'') | b. b \<in> set bs}"
  by (cases rule: slice_cases [of obj "[''status'', ''bindings'']"])
    (auto simp: perm_clusters_def as_slice_Some simp del: jpath_Cons)

lemma coversHub_granted:
  assumes "userPermissionCoversHub W U env client w = (Inr True, w')"
  shows "\<exists>w1 obj. getUserPermission W client (advisorRoleVMFleetAdmin env) w = (Inr obj, w1) \<and>
    hubClusterName \<in> perm_clusters obj"
proof -
  obtain r w1 where g: "getUserPermission W client (advisorRoleVMFleetAdmin env) w = (r, w1)"
    by (cases "getUserPermission W client (advisorRoleVMFleetAdmin env) w")
  then obtain obj bs where obj: "r = Inr obj" "NestedSlice U obj [''status'', ''bindings''] = (bs, True, None)"
      "coversHub_loop U (advisorRoleVMFleetAdmin env) bs = Inr True"
    using assms by (auto simp: userPermissionCoversHub_def onResult_def ret_def fail_def Let_def
        split: sum.splits prod.splits if_splits option.splits)
  then show ?thesis using g coversHub_sound perm_clusters_slice by blast
qed

lemma coversHub_state:
  "snd (userPermissionCoversHub W U env client w) = snd (getUserPermission W client (advisorRoleVMFleetAdmin env) w)"
proof -
  obtain r w1 where g: "getUserPermission W client (advisorRoleVMFleetAdmin env) w = (r, w1)"
    by (cases "getUserPermission W client (advisorRoleVMFleetAdmin env) w")
  then show ?thesis
    by (auto simp: userPermissionCoversHub_def onResult_def ret_def fail_def Let_def
        split: sum.splits prod.splits option.splits)
qed

lemma clusterAdmin_granted:
  assumes "callerIsClusterAdmin W U env listMC client w = (Inr True, w')"
  shows "\<exists>cnv w1 w2 obj. listCNVManagedClusters listMC w = (Inr cnv, w1) \<and> cnv \<noteq> [] \<and>
    getUserPermission W client (advisorRoleManagedClusterAdmin env) w1 = (Inr obj, w2) \<and>
    set cnv \<subseteq> perm_clusters obj"
proof -
  let ?role = "advisorRoleManagedClusterAdmin env"
  obtain l w1 where l: "listCNVManagedClusters listMC w = (l, w1)" by (cases "listCNVManagedClusters listMC w")
  then obtain cnv where cnv: "l = Inr cnv" "cnv \<noteq> []"
    using assms by (cases l) (auto simp: callerIsClusterAdmin_def prog_defs split: if_splits)
  obtain r w2 where g: "getUserPermission W client ?role w1 = (r, w2)" by (cases "getUserPermission W client ?role w1")
  obtain obj where r: "r = Inr obj"
    using assms l cnv g by (cases r) (auto simp: callerIsClusterAdmin_def prog_defs Let_def split: if_splits)
  obtain bs found err where ns: "NestedSlice U obj [''status'', ''bindings''] = (bs, found, err)"
    by (metis prod_cases3)
  have run: "err = None" "(\<exists>S. (if found then covered_loop U ?role bs {} else Inr {}) = Inr S \<and> set cnv \<subseteq> S)"
    using assms l cnv g r ns
    by (auto simp: callerIsClusterAdmin_def prog_defs Let_def list_all_iff split: sum.splits option.splits if_splits)
  then have "found" using cnv(2) by (cases found) auto
  with run(2) have "set cnv \<subseteq> perm_clusters obj"
    using covered_sound [of ?role bs "{}"] perm_clusters_slice ns by auto
  with l cnv g r show ?thesis by auto
qed

end

section \<open>Properties\<close>

lemma checkCaller_granted:
  assumes "unstructured_lib U"
    and "checkCallerAuthorized W U env listMC base token w = (Inr True, w')"
  shows "\<exists>client r w1. newForConfig W (callerConfig base token) = Inr client \<and>
     getUserPermission W client (advisorRoleVMFleetAdmin env) w = (r, w1) \<and>
     ((\<exists>obj. r = Inr obj \<and> ''local-cluster'' \<in> perm_clusters obj) \<or>
      (\<exists>items w2 obj w3. listMC ''acm/cnv-operator-install=true'' w1 = (Inr items, w2) \<and> items \<noteq> [] \<and>
         getUserPermission W client (advisorRoleManagedClusterAdmin env) w2 = (Inr obj, w3) \<and>
         GetName ` set items \<subseteq> perm_clusters obj))"
proof -
  obtain client where c: "newForConfig W (callerConfig base token) = Inr client"
    using assms(2) by (auto simp: checkCallerAuthorized_def fail_def split: sum.splits)
  obtain h w1 where h: "userPermissionCoversHub W U env client w = (h, w1)"
    by (cases "userPermissionCoversHub W U env client w")
  then obtain r where r: "getUserPermission W client (advisorRoleVMFleetAdmin env) w = (r, w1)"
    using unstructured_lib.coversHub_state [OF assms(1), of W env client w] by (metis prod.collapse snd_conv)
  show ?thesis
  proof (cases "h = Inr True")
    case True
    then show ?thesis
      using unstructured_lib.coversHub_granted [OF assms(1), of W env client w w1] h c
      by (fastforce simp: hubClusterName_def)
  next
    case False
    then have "callerIsClusterAdmin W U env listMC client w1 = (Inr True, w')"
      using assms(2) c h by (auto simp: checkCallerAuthorized_def prog_defs split: sum.splits if_splits)
    from unstructured_lib.clusterAdmin_granted [OF assms(1) this] obtain cnv w2 w3 obj
      where cnv: "listCNVManagedClusters listMC w1 = (Inr cnv, w2)" "cnv \<noteq> []"
        "getUserPermission W client (advisorRoleManagedClusterAdmin env) w2 = (Inr obj, w3)" "set cnv \<subseteq> perm_clusters obj"
      by blast
    obtain items where "listMC ''acm/cnv-operator-install=true'' w1 = (Inr items, w2)" "cnv = map GetName items"
      using cnv(1) by (auto simp: listCNVManagedClusters_def cnvOperatorInstallLabel_def prog_defs split: prod.splits sum.splits)
    with c r cnv show ?thesis by auto
  qed
qed

text \<open>C14: a caller of the advisor is authorized only on the strength of a permission read with the
  caller's own token and no impersonation: the fleet administrator role bound to the hub, or
  the cluster administrator role bound to every one of the labelled clusters, of which there
  is at least one. Everything else, errors included, is not an authorization.\<close>

theorem caller_authorized_sound:
  assumes "unstructured_lib U"
    and "checkCallerAuthorized W U env listMC base token w = (Inr True, w')"
  shows "\<exists>client r w1. newForConfig W (callerConfig base token) = Inr client \<and>
     getUserPermission W client (advisorRoleVMFleetAdmin env) w = (r, w1) \<and>
     ((\<exists>obj. r = Inr obj \<and> ''local-cluster'' \<in> perm_clusters obj) \<or>
      (\<exists>items w2 obj w3. listMC ''acm/cnv-operator-install=true'' w1 = (Inr items, w2) \<and> items \<noteq> [] \<and>
         getUserPermission W client (advisorRoleManagedClusterAdmin env) w2 = (Inr obj, w3) \<and>
         GetName ` set items \<subseteq> perm_clusters obj))"
  using assms by (rule checkCaller_granted)

definition demo_rbac :: "(unit, rest_Config) wh_api" where
  "demo_rbac = demo_wh\<lparr>getUserPermission := (\<lambda>cfg name w.
     (if cfg_BearerToken cfg = ''tok'' \<and> name = ''managedcluster:admin'' then Inr demo_binding
      else Inl (ApiStatus Forbidden name), w))\<rparr>"

definition demo_mc :: json where
  "demo_mc = JObj [(''metadata'', JObj [(''name'', JStr ''c1'')])]"

theorem caller_authorized_sound_witness:
  "fst (checkCallerAuthorized demo_rbac unstr_ref (\<lambda>_. []) (\<lambda>_. ret [demo_mc]) demo_cfg ''tok'' ()) = Inr True \<and>
   (\<exists>client. newForConfig demo_rbac (callerConfig demo_cfg ''tok'') = Inr client)"
proof -
  have ok: "fst (checkCallerAuthorized demo_rbac unstr_ref (\<lambda>_. []) (\<lambda>_. ret [demo_mc]) demo_cfg ''tok'' ()) = Inr True"
    by code_simp
  then have "checkCallerAuthorized demo_rbac unstr_ref (\<lambda>_. []) (\<lambda>_. ret [demo_mc]) demo_cfg ''tok'' () = (Inr True, ())"
    by (simp add: prod_eq_iff)
  from caller_authorized_sound [OF unstr_ref.unstructured_lib_axioms this] ok show ?thesis by blast
qed

end
