(* ===== verification/ApiTypes.thy ===== *)
theory ApiTypes
  imports GoFloat
begin

text \<open>
  The data of the migration advisor: \<^verbatim>\<open>api/types.go\<close> and the \<^verbatim>\<open>SCProvisioner\<close> of
  \<^verbatim>\<open>search_client.go\<close>, one record per struct, with the two methods of \<^verbatim>\<open>NodeMetrics\<close>.
\<close>

record MigrationTargetRequest =
  req_VMNamespace :: string
  req_VMName :: string
  req_ClusterName :: string

record VMVolumeInfo =
  vol_Name :: string
  vol_StorageClass :: string
  vol_SizeBytes :: i64

record SourceVMInfo =
  vm_Name :: string
  vm_Namespace :: string
  vm_Cluster :: string
  vm_CPUCores :: i64
  vm_MemoryBytes :: i64
  vm_Volumes :: "VMVolumeInfo list"

datatype StorageType = StorageTypeCloud | StorageTypeCeph | StorageTypeOther

record CandidateCluster =
  cand_Cluster :: string
  cand_TotalScore :: f64
  cand_CPUScore :: f64
  cand_MemoryScore :: f64
  cand_StorageScore :: f64
  cand_MatchedStorageClasses :: "string list"
  cand_BestNode :: string
  cand_AvailableCPUCores :: f64
  cand_AvailableMemoryBytes :: i64
  cand_StorageType :: StorageType
  cand_CephAvailableBytes :: i64

record ExcludedCluster =
  excl_Cluster :: string
  excl_Reason :: string

record Recommendation =
  rec_Cluster :: string
  rec_Node :: string
  rec_TotalScore :: f64
  rec_AvailableCPUCores :: f64
  rec_AvailableMemoryBytes :: i64
  rec_StorageType :: StorageType
  rec_CephAvailableBytes :: i64

record MigrationTargetResponse =
  resp_SourceVM :: SourceVMInfo
  resp_Recommendation :: "Recommendation option"
  resp_Candidates :: "CandidateCluster list"
  resp_ExcludedClusters :: "ExcludedCluster list"

record NodeMetrics =
  nm_NodeName :: string
  nm_AllocatableCPUCores :: f64
  nm_AllocatableMemBytes :: i64
  nm_RequestedCPUCores :: f64
  nm_RequestedMemBytes :: i64

definition AvailableCPUCores :: "go_arch \<Rightarrow> NodeMetrics \<Rightarrow> f64" where
  "AvailableCPUCores A n =
     (let avail = f_sub A (nm_AllocatableCPUCores n) (nm_RequestedCPUCores n)
      in if f_gt avail (Fin 0) then avail else Fin 0)"

definition AvailableMemBytes :: "NodeMetrics \<Rightarrow> i64" where
  "AvailableMemBytes n =
     (let avail = nm_AllocatableMemBytes n - nm_RequestedMemBytes n
      in if sint avail > 0 then avail else 0)"

type_synonym ClusterNodeMetrics = "string \<rightharpoonup> NodeMetrics list"

record CephMetrics =
  ceph_TotalBytes :: i64
  ceph_AvailableBytes :: i64

definition CephMetrics_zero :: CephMetrics where
  "CephMetrics_zero = \<lparr>ceph_TotalBytes = 0, ceph_AvailableBytes = 0\<rparr>"

record SCProvisioner =
  sc_Name :: string
  sc_Provisioner :: string

lemma AvailableMemBytes_nonneg: "0 \<le> sint (AvailableMemBytes n)"
  by (simp add: AvailableMemBytes_def Let_def)

lemma AvailableCPUCores_ge_0: "f_ge (AvailableCPUCores A n) (Fin 0)"
  by (simp add: AvailableCPUCores_def Let_def f_lt_le)

lemma AvailableCPUCores_not_NaN: "AvailableCPUCores A n \<noteq> NaN"
  using AvailableCPUCores_ge_0 [of A n] f_le_not_NaN by blast

end
