(* ===== verification/VmFetcher.thy ===== *)
theory VmFetcher
  imports ApiTypes Quantity Unstructured
begin

text \<open>
  The VM fetcher of the migration advisor: \<^verbatim>\<open>controllers/migrationadvisor/vm_fetcher.go\<close>. It reads
  the running instance of a VM and its claims through temporary ManagedClusterViews.

  The calls of the dynamic client are the record \<open>mcv_api\<close>, a parameter. One watch is the
  finite list of events it delivers (\<^const>\<open>None\<close> for an object of another type) and what ends it:
  the server closes every watch after its timeout, or the context is done. The claims are
  fetched by goroutines; their interleaving, at the grain of the calls to the hub, is an
  argument.
\<close>

datatype watch_end = CtxDone | ChanClosed

record 'w mcv_api =
  createMCV :: "string \<Rightarrow> json \<Rightarrow> ('w, unit) prog"
  deleteMCV :: "string \<Rightarrow> string \<Rightarrow> ('w, unit) prog"
  watchMCV :: "string \<Rightarrow> string \<Rightarrow> ('w, json option list \<times> watch_end) prog"

definition managedClusterViewAPIVersion :: string where
  "managedClusterViewAPIVersion = ''view.open-cluster-management.io/v1beta1''"

definition managedClusterViewKind :: string where
  "managedClusterViewKind = ''ManagedClusterView''"

section \<open>Waiting for a view\<close>

fun members :: "json \<Rightarrow> (string \<times> json) list" where
  "members (JObj kvs) = kvs"
| "members _ = []"

text \<open>The loop over the conditions of an event: the error it returns, if any.\<close>

fun watch_conditions :: "unstr \<Rightarrow> string \<Rightarrow> string \<Rightarrow> json list \<Rightarrow> goerr option" where
  "watch_conditions U ns mcvName [] = None"
| "watch_conditions U ns mcvName (c # cs) =
     (case c of
        JObj _ \<Rightarrow>
          let condType = fst (NestedString U c [''type'']);
              condStatus = fst (NestedString U c [''status'']);
              condReason = fst (NestedString U c [''reason''])
          in if condType = ''Processing'' \<and> condStatus = ''False'' then
               if condReason = ''GetResourceFailed'' \<or> condReason = ''ResourceTypeInvalid''
               then Some (VMNotFoundError ''ManagedClusterView %s/%s failed: %s'' [ns, mcvName, condReason])
               else Some (Errorf ''ManagedClusterView %s/%s failed: %s'' [ns, mcvName, condReason] None)
             else watch_conditions U ns mcvName cs
      | _ \<Rightarrow> watch_conditions U ns mcvName cs)"

text \<open>What one event decides.\<close>

definition watch_event :: "unstr \<Rightarrow> string \<Rightarrow> string \<Rightarrow> json \<Rightarrow> (goerr + json) option" where
  "watch_event U ns mcvName obj =
     (case NestedMap U obj [''status'', ''result''] of (result, found, _) \<Rightarrow>
        if found \<and> length (members result) > 0 then Some (Inr result)
        else map_option Inl
          (watch_conditions U ns mcvName (fst (NestedSlice U obj [''status'', ''conditions'']))))"

fun watch_loop :: "unstr \<Rightarrow> string \<Rightarrow> string \<Rightarrow> json option list \<Rightarrow> watch_end \<Rightarrow> goerr + json" where
  "watch_loop U ns mcvName [] CtxDone = Inl ContextErr"
| "watch_loop U ns mcvName [] ChanClosed =
     Inl (Errorf ''timed out waiting for ManagedClusterView %s/%s'' [ns, mcvName] None)"
| "watch_loop U ns mcvName (None # es) e = watch_loop U ns mcvName es e"
| "watch_loop U ns mcvName (Some obj # es) e =
     (case watch_event U ns mcvName obj of
        Some r \<Rightarrow> r
      | None \<Rightarrow> watch_loop U ns mcvName es e)"

definition watchMCVResult :: "'w mcv_api \<Rightarrow> unstr \<Rightarrow> string \<Rightarrow> string \<Rightarrow> ('w, json) prog" where
  "watchMCVResult K U ns mcvName =
     andThen (wrapErr (\<lambda>err. Errorf ''watch ManagedClusterView: %w'' [] (Some err)) (watchMCV K ns mcvName))
       (\<lambda>(events, e) w. (watch_loop U ns mcvName events e, w))"

section \<open>Views\<close>

definition mcvPayload :: "string \<Rightarrow> string \<Rightarrow> string \<Rightarrow> string \<Rightarrow> string \<Rightarrow> string \<Rightarrow> string \<Rightarrow> json" where
  "mcvPayload mcvName clusterName apiGroup version resource name namespace =
     JObj [
       (''apiVersion'', JStr managedClusterViewAPIVersion),
       (''kind'', JStr managedClusterViewKind),
       (''metadata'', JObj [(''name'', JStr mcvName), (''namespace'', JStr clusterName)]),
       (''spec'', JObj [(''scope'', JObj [
          (''apiGroup'', JStr apiGroup), (''version'', JStr version), (''resource'', JStr resource),
          (''name'', JStr name), (''namespace'', JStr namespace)])])]"

text \<open>A view is deleted when the function that created it returns, whatever it returns.\<close>

definition withDelete :: "'w mcv_api \<Rightarrow> string \<Rightarrow> string \<Rightarrow> ('w, 'a) prog \<Rightarrow> ('w, 'a) prog" where
  "withDelete K clusterName mcvName m =
     onResult m (\<lambda>r. onResult (deleteMCV K clusterName mcvName) (\<lambda>_ w. (r, w)))"

definition vmiViewName :: "string \<Rightarrow> string" where
  "vmiViewName vmName = ''migration-advisor-vmi-'' @ vmName"

definition fetchVMIViaMCV :: "'w mcv_api \<Rightarrow> unstr \<Rightarrow> MigrationTargetRequest \<Rightarrow> ('w, json) prog" where
  "fetchVMIViaMCV K U req =
     (let mcvName = vmiViewName (req_VMName req); cluster = req_ClusterName req;
          mcv = mcvPayload mcvName cluster ''kubevirt.io'' ''v1'' ''virtualmachineinstances''
                  (req_VMName req) (req_VMNamespace req);
          go = withDelete K cluster mcvName (watchMCVResult K U cluster mcvName)
      in onResult (createMCV K cluster mcv) (\<lambda>r. case r of
           Inl err \<Rightarrow>
             if IsAlreadyExists err then go
             else if IsNotFound err
             then fail (VMNotFoundError ''cluster %q not found on hub (no namespace %q)'' [cluster, cluster])
             else fail (Errorf ''create ManagedClusterView: %w'' [] (Some err))
         | Inr _ \<Rightarrow> go))"

definition pvcViewName :: "string \<Rightarrow> string" where
  "pvcViewName claimName =
     (let prefix = ''migration-advisor-pvc-'';
          sfx = (if length prefix + length claimName > 253 then take (253 - length prefix) claimName
                 else claimName)
      in prefix @ sfx)"

definition pvcView :: "string \<Rightarrow> string \<Rightarrow> string \<Rightarrow> json" where
  "pvcView clusterName namespace claimName =
     mcvPayload (pvcViewName claimName) clusterName [] ''v1'' ''persistentvolumeclaims'' claimName namespace"

definition watchPVC :: "'w mcv_api \<Rightarrow> unstr \<Rightarrow> string \<Rightarrow> string \<Rightarrow> ('w, string) prog" where
  "watchPVC K U clusterName claimName =
     andThen (wrapErr (\<lambda>err. Errorf ''watch MCV for PVC %s: %w'' [claimName] (Some err))
        (watchMCVResult K U clusterName (pvcViewName claimName)))
       (\<lambda>pvc. ret (fst (NestedString U pvc [''spec'', ''storageClassName''])))"

definition pvcCreateErr :: "string \<Rightarrow> goerr \<Rightarrow> goerr" where
  "pvcCreateErr claimName err = Errorf ''create ManagedClusterView for PVC %s: %w'' [claimName] (Some err)"

definition fetchPVCStorageClass ::
    "'w mcv_api \<Rightarrow> unstr \<Rightarrow> string \<Rightarrow> string \<Rightarrow> string \<Rightarrow> ('w, string) prog" where
  "fetchPVCStorageClass K U clusterName namespace claimName =
     (let go = withDelete K clusterName (pvcViewName claimName) (watchPVC K U clusterName claimName)
      in onResult (createMCV K clusterName (pvcView clusterName namespace claimName)) (\<lambda>r. case r of
           Inl err \<Rightarrow> if IsAlreadyExists err then go else fail (pvcCreateErr claimName err)
         | Inr _ \<Rightarrow> go))"

section \<open>Reading the instance\<close>

text \<open>The results of \<^verbatim>\<open>extractResourceRequests\<close>: cores, bytes and the error.\<close>

definition extractCPU :: "go_arch \<Rightarrow> float_parse \<Rightarrow> unstr \<Rightarrow> json \<Rightarrow> i64 \<times> goerr option" where
  "extractCPU A PF U vmi =
     (case NestedInt64 U vmi [''spec'', ''domain'', ''cpu'', ''cores''] of (cores, found, _) \<Rightarrow>
        if found \<and> cores > 0 then (i64_of_int cores, None)
        else case NestedString U vmi [''spec'', ''domain'', ''resources'', ''requests'', ''cpu''] of
          (cpuStr, found, _) \<Rightarrow>
            if found \<and> cpuStr \<noteq> [] then
              (case parseCPUCores A PF cpuStr of
                 Inl e \<Rightarrow> (0, Some e)
               | Inr f \<Rightarrow> (if f_gt f (Fin 0) then f_to_i64 A (f_ceil f) else 0, None))
            else (0, None))"

definition parseBytes :: "go_arch \<Rightarrow> float_parse \<Rightarrow> string \<Rightarrow> i64 \<times> goerr option" where
  "parseBytes A PF s =
     (case parseQuantityToBytes A PF s of Inl e \<Rightarrow> (0, Some e) | Inr n \<Rightarrow> (n, None))"

definition extractMemory :: "go_arch \<Rightarrow> float_parse \<Rightarrow> unstr \<Rightarrow> json \<Rightarrow> i64 \<times> goerr option" where
  "extractMemory A PF U vmi =
     (case NestedString U vmi [''spec'', ''domain'', ''memory'', ''guest''] of (memStr, found, _) \<Rightarrow>
        if found \<and> memStr \<noteq> [] then parseBytes A PF memStr
        else case NestedString U vmi [''spec'', ''domain'', ''resources'', ''requests'', ''memory''] of
          (memStr, found, _) \<Rightarrow> if found \<and> memStr \<noteq> [] then parseBytes A PF memStr else (0, None))"

definition extractResourceRequests ::
    "go_arch \<Rightarrow> float_parse \<Rightarrow> unstr \<Rightarrow> json \<Rightarrow> i64 \<times> i64 \<times> goerr option" where
  "extractResourceRequests A PF U vmi =
     (case extractCPU A PF U vmi of
        (cpuCores, Some e) \<Rightarrow> (cpuCores, 0, Some e)
      | (cpuCores, None) \<Rightarrow> (case extractMemory A PF U vmi of (memBytes, err) \<Rightarrow> (cpuCores, memBytes, err)))"

record volumeEntry =
  ve_name :: string
  ve_claimName :: string
  ve_sizeBytes :: i64

definition volumeEntryOf :: "go_arch \<Rightarrow> float_parse \<Rightarrow> unstr \<Rightarrow> json \<Rightarrow> volumeEntry option" where
  "volumeEntryOf A PF U raw =
     (case raw of
        JObj _ \<Rightarrow>
          (case NestedMap U raw [''persistentVolumeClaimInfo''] of (pvcInfo, found, _) \<Rightarrow>
             if \<not> found then None
             else let cap = fst (NestedString U pvcInfo [''capacity'', ''storage'']);
                      sizeStr = (if cap = [] then fst (NestedString U pvcInfo [''requests'', ''storage'']) else cap)
                  in Some \<lparr>ve_name = fst (NestedString U raw [''name'']),
                           ve_claimName = fst (NestedString U pvcInfo [''claimName'']),
                           ve_sizeBytes = fst (parseBytes A PF sizeStr)\<rparr>)
      | _ \<Rightarrow> None)"

definition extractVolumeEntriesFromVMI :: "go_arch \<Rightarrow> float_parse \<Rightarrow> unstr \<Rightarrow> json \<Rightarrow> volumeEntry list" where
  "extractVolumeEntriesFromVMI A PF U vmi =
     List.map_filter (volumeEntryOf A PF U) (fst (NestedSlice U vmi [''status'', ''volumeStatus'']))"

section \<open>Storage classes\<close>

text \<open>
  A goroutine runs \<^const>\<open>fetchPVCStorageClass\<close>: it creates its view, watches it, deletes it and
  writes its slot. Between two of these calls other goroutines may run. A schedule lists the
  indices of the goroutines in the order of their steps; \<^verbatim>\<open>wg.Wait\<close> lets every goroutine that
  the schedule has not finished run to its end.
\<close>

datatype pvc_phase = PCreate | PWatch | PDelete "goerr + string" | PDone

type_synonym pvc_result = "string \<times> goerr option"

definition slot :: "goerr + string \<Rightarrow> pvc_result" where
  "slot r = (case r of Inl err \<Rightarrow> ([], Some err) | Inr sc \<Rightarrow> (sc, None))"

fun pvc_step ::
    "'w mcv_api \<Rightarrow> unstr \<Rightarrow> string \<Rightarrow> string \<Rightarrow> string \<Rightarrow> pvc_phase \<Rightarrow> 'w \<Rightarrow>
     pvc_phase \<times> pvc_result option \<times> 'w" where
  "pvc_step K U c ns claim PCreate w =
     (case createMCV K c (pvcView c ns claim) w of (r, w') \<Rightarrow>
        (case r of
           Inl err \<Rightarrow> if IsAlreadyExists err then (PWatch, None, w')
                      else (PDone, Some (slot (Inl (pvcCreateErr claim err))), w')
         | Inr _ \<Rightarrow> (PWatch, None, w')))"
| "pvc_step K U c ns claim PWatch w = (case watchPVC K U c claim w of (r, w') \<Rightarrow> (PDelete r, None, w'))"
| "pvc_step K U c ns claim (PDelete r) w =
     (case deleteMCV K c (pvcViewName claim) w of (_, w') \<Rightarrow> (PDone, Some (slot r), w'))"
| "pvc_step K U c ns claim PDone w = (PDone, None, w)"

record 'w pvc_run =
  run_phases :: "pvc_phase list"
  run_pvcResults :: "pvc_result list"
  run_hub :: 'w

definition resolve_step ::
    "'w mcv_api \<Rightarrow> unstr \<Rightarrow> MigrationTargetRequest \<Rightarrow> volumeEntry list \<Rightarrow> nat \<Rightarrow> 'w pvc_run \<Rightarrow> 'w pvc_run" where
  "resolve_step K U req entries i s =
     (if i < length entries then
        (case pvc_step K U (req_ClusterName req) (req_VMNamespace req) (ve_claimName (entries ! i))
                (run_phases s ! i) (run_hub s) of
           (p, out, w) \<Rightarrow>
             \<lparr>run_phases = (run_phases s)[i := p],
              run_pvcResults = (case out of None \<Rightarrow> run_pvcResults s | Some r \<Rightarrow> (run_pvcResults s)[i := r]),
              run_hub = w\<rparr>)
      else s)"

definition resolve_start :: "volumeEntry list \<Rightarrow> 'w \<Rightarrow> 'w pvc_run" where
  "resolve_start entries w =
     \<lparr>run_phases = map (\<lambda>e. if ve_claimName e = [] then PDone else PCreate) entries,
      run_pvcResults = replicate (length entries) ([], None),
      run_hub = w\<rparr>"

definition wg_Wait :: "volumeEntry list \<Rightarrow> nat list" where
  "wg_Wait entries = concat (map (\<lambda>i. [i, i, i]) [0..<length entries])"

definition resolveStorageClasses ::
    "'w mcv_api \<Rightarrow> unstr \<Rightarrow> nat list \<Rightarrow> MigrationTargetRequest \<Rightarrow> volumeEntry list \<Rightarrow> 'w \<Rightarrow>
     VMVolumeInfo list \<times> 'w" where
  "resolveStorageClasses K U sched req entries w =
     (if length entries = 0 then ([], w)
      else let s = fold (resolve_step K U req entries) (sched @ wg_Wait entries) (resolve_start entries w)
        in (map2 (\<lambda>e r. \<lparr>vol_Name = ve_name e, vol_StorageClass = fst r, vol_SizeBytes = ve_sizeBytes e\<rparr>)
              entries (run_pvcResults s), run_hub s))"

section \<open>FetchVMInfo\<close>

text \<open>\<open>sched\<close> gives the schedule of the goroutines for the volumes found.\<close>

definition FetchVMInfo ::
    "go_arch \<Rightarrow> float_parse \<Rightarrow> 'w mcv_api \<Rightarrow> unstr \<Rightarrow> (volumeEntry list \<Rightarrow> nat list) \<Rightarrow>
     MigrationTargetRequest \<Rightarrow> ('w, SourceVMInfo) prog" where
  "FetchVMInfo A PF K U sched req =
     andThen (wrapErr (\<lambda>err. Errorf ''fetch VMI: %w'' [] (Some err)) (fetchVMIViaMCV K U req)) (\<lambda>vmi.
       case extractResourceRequests A PF U vmi of (cpuCores, memBytes, _) \<Rightarrow>
         let volumeEntries = extractVolumeEntriesFromVMI A PF U vmi
         in (\<lambda>w. case resolveStorageClasses K U (sched volumeEntries) req volumeEntries w of
              (volumes, w') \<Rightarrow>
                (Inr \<lparr>vm_Name = req_VMName req, vm_Namespace = req_VMNamespace req,
                      vm_Cluster = req_ClusterName req, vm_CPUCores = cpuCores, vm_MemoryBytes = memBytes,
                      vm_Volumes = volumes\<rparr>, w')))"

end
