(* ===== verification/Scorer.thy ===== *)
theory Scorer
  imports ApiTypes "HOL-Library.Multiset"
begin

text \<open>
  The scorer of the migration advisor: \<^verbatim>\<open>controllers/migrationadvisor/scorer.go\<close>.

  The order in which Go iterates over the map of clusters is not specified: \<open>Score\<close> takes
  it as an argument, a list of the keys. \<^verbatim>\<open>sort.Slice\<close> is an argument as well; the locale
  \<open>slice_sort\<close> states its contract (a permutation, sorted when the comparison is a strict
  weak order, with no promise on ties) and Go's insertion sort interprets it.
\<close>

section \<open>Storage types\<close>

definition awsEBSProvisioner :: string where
  "awsEBSProvisioner = ''ebs.csi.aws.com''"

definition cephRBDProvisioner :: string where
  "cephRBDProvisioner = ''rbd.csi.ceph.com''"

definition cloudProvisionerPrefixes :: "string list" where
  "cloudProvisionerPrefixes =
     [awsEBSProvisioner, ''efs.csi.aws.com'', ''disk.csi.azure.com'', ''file.csi.azure.com'',
      ''pd.csi.storage.gke.io'', ''filestore.csi.storage.gke.io'', ''csi.vsphere.volume'']"

definition cephProvisionerPrefixes :: "string list" where
  "cephProvisionerPrefixes =
     [cephRBDProvisioner, ''cephfs.csi.ceph.com'', ''openshift-storage.'' @ cephRBDProvisioner,
      ''openshift-storage.cephfs.csi.ceph.com'']"

definition classifyStorageType :: "string \<Rightarrow> StorageType" where
  "classifyStorageType provisioner =
     (let p = ToLower provisioner
      in if list_ex (HasPrefix p) cephProvisionerPrefixes then StorageTypeCeph
         else if list_ex (HasPrefix p) cloudProvisionerPrefixes then StorageTypeCloud
         else StorageTypeOther)"

definition classifyFromProvisioners :: "SCProvisioner list \<Rightarrow> StorageType" where
  "classifyFromProvisioners provs =
     (let hasCeph = list_ex (\<lambda>p. classifyStorageType (sc_Provisioner p) = StorageTypeCeph) provs;
          hasCloud = list_ex (\<lambda>p. classifyStorageType (sc_Provisioner p) = StorageTypeCloud) provs
      in if hasCeph then StorageTypeCeph else if hasCloud then StorageTypeCloud
         else StorageTypeOther)"

section \<open>Nodes and scores\<close>

definition weightCPU :: "go_arch \<Rightarrow> f64" where
  "weightCPU A = rnd A (35 / 100)"

definition weightMemory :: "go_arch \<Rightarrow> f64" where
  "weightMemory A = rnd A (35 / 100)"

definition weightStorage :: "go_arch \<Rightarrow> f64" where
  "weightStorage A = rnd A (30 / 100)"

definition minCephAvailableRatio :: "go_arch \<Rightarrow> f64" where
  "minCephAvailableRatio A = rnd A (10 / 100)"

definition clamp :: "f64 \<Rightarrow> f64" where
  "clamp v = (if f_lt v (Fin 0) then Fin 0 else if f_gt v (Fin 100) then Fin 100 else v)"

definition round2 :: "go_arch \<Rightarrow> f64 \<Rightarrow> f64" where
  "round2 A v = f_div A (f_round (f_mul A v (Fin 100))) (Fin 100)"

definition matchStorageClasses ::
    "string set \<Rightarrow> SCProvisioner list \<Rightarrow> string list \<times> SCProvisioner list" where
  "matchStorageClasses sourceVolumesSCs targetSCs =
     (let m = filter (\<lambda>sc. sc_Name sc \<in> sourceVolumesSCs) targetSCs in (map sc_Name m, m))"

definition node_capable :: "go_arch \<Rightarrow> SourceVMInfo \<Rightarrow> NodeMetrics \<Rightarrow> bool" where
  "node_capable A vm n \<longleftrightarrow>
     f_ge (AvailableCPUCores A n) (f_of_i64 A (vm_CPUCores vm)) \<and>
     sint (AvailableMemBytes n) \<ge> sint (vm_MemoryBytes vm)"

text \<open>The loop of \<^verbatim>\<open>bestCapableNode\<close>; \<^const>\<open>None\<close> is \<^verbatim>\<open>found = false\<close>.\<close>

fun bestCapableNode_loop ::
    "go_arch \<Rightarrow> SourceVMInfo \<Rightarrow> NodeMetrics option \<Rightarrow> NodeMetrics list \<Rightarrow> NodeMetrics option" where
  "bestCapableNode_loop A vm best [] = best"
| "bestCapableNode_loop A vm best (n # ns) =
     bestCapableNode_loop A vm
       (if node_capable A vm n then
          (case best of
             None \<Rightarrow> Some n
           | Some b \<Rightarrow> if f_gt (AvailableCPUCores A n) (AvailableCPUCores A b) then Some n else best)
        else best) ns"

definition bestCapableNode :: "go_arch \<Rightarrow> NodeMetrics list \<Rightarrow> SourceVMInfo \<Rightarrow> NodeMetrics option" where
  "bestCapableNode A nodes vm = bestCapableNode_loop A vm None nodes"

definition computeCPUScore :: "go_arch \<Rightarrow> NodeMetrics \<Rightarrow> i64 \<Rightarrow> f64" where
  "computeCPUScore A node vmCPU =
     (if f_is_zero (nm_AllocatableCPUCores node) then Fin 0
      else let avail = f_sub A (AvailableCPUCores A node) (f_of_i64 A vmCPU);
               score = f_mul A (f_div A avail (nm_AllocatableCPUCores node)) (Fin 100)
           in clamp score)"

definition computeMemScore :: "go_arch \<Rightarrow> NodeMetrics \<Rightarrow> i64 \<Rightarrow> f64" where
  "computeMemScore A node vmMem =
     (if nm_AllocatableMemBytes node = 0 then Fin 0
      else let avail = f_of_i64 A (AvailableMemBytes node - vmMem);
               score = f_mul A (f_div A avail (f_of_i64 A (nm_AllocatableMemBytes node))) (Fin 100)
           in clamp score)"

definition computeStorageScore ::
    "go_arch \<Rightarrow> StorageType \<Rightarrow> VMVolumeInfo list \<Rightarrow> CephMetrics \<Rightarrow> f64 \<times> i64 \<times> bool" where
  "computeStorageScore A storageType volumes ceph =
     (case storageType of
        StorageTypeCloud \<Rightarrow> (Fin 100, 0, True)
      | StorageTypeCeph \<Rightarrow>
          let ratio = f_div A (f_of_i64 A (ceph_AvailableBytes ceph)) (f_of_i64 A (ceph_TotalBytes ceph))
          in if f_lt ratio (minCephAvailableRatio A) then (Fin 0, ceph_AvailableBytes ceph, False)
             else let totalVolumeSize = fold (\<lambda>v acc. acc + vol_SizeBytes v) volumes 0
                  in if sint (ceph_AvailableBytes ceph) < sint totalVolumeSize
                     then (Fin 0, ceph_AvailableBytes ceph, False)
                     else (clamp (f_mul A ratio (Fin 100)), ceph_AvailableBytes ceph, True)
      | StorageTypeOther \<Rightarrow> (Fin 0, 0, False))"

section \<open>Score\<close>

record ScoringInput =
  in_SourceVM :: SourceVMInfo
  in_ClusterSCs :: "string \<rightharpoonup> SCProvisioner list"
  in_NodeMetrics :: ClusterNodeMetrics
  in_CephMetrics :: "string \<rightharpoonup> CephMetrics"

definition sourceVolumesSCs :: "ScoringInput \<Rightarrow> string set" where
  "sourceVolumesSCs input =
     {vol_StorageClass v | v. v \<in> set (vm_Volumes (in_SourceVM input)) \<and> vol_StorageClass v \<noteq> []}"

lemma sourceVolumesSCs_code [code]:
  "sourceVolumesSCs input =
     set (filter (\<lambda>s. s \<noteq> []) (map vol_StorageClass (vm_Volumes (in_SourceVM input))))"
  by (auto simp: sourceVolumesSCs_def)

definition excluded_as :: "string \<Rightarrow> string \<Rightarrow> ExcludedCluster + CandidateCluster" where
  "excluded_as cluster reason = Inl \<lparr>excl_Cluster = cluster, excl_Reason = reason\<rparr>"

definition totalScore :: "go_arch \<Rightarrow> f64 \<Rightarrow> f64 \<Rightarrow> f64 \<Rightarrow> f64" where
  "totalScore A cpuScore memScore storageScore =
     f_add A (f_add A (f_mul A (weightCPU A) cpuScore) (f_mul A (weightMemory A) memScore))
       (f_mul A (weightStorage A) storageScore)"

text \<open>The body of the loop of \<^verbatim>\<open>Score\<close> for a cluster that is not the source cluster:
  the entry appended to \<^verbatim>\<open>excluded\<close> or to \<^verbatim>\<open>candidates\<close>.\<close>

definition Score_cluster ::
    "go_arch \<Rightarrow> ScoringInput \<Rightarrow> string \<Rightarrow> SCProvisioner list \<Rightarrow> ExcludedCluster + CandidateCluster" where
  "Score_cluster A input cluster scs =
     (let vm = in_SourceVM input;
          (matchedSCs, matchedProvisioners) = matchStorageClasses (sourceVolumesSCs input) scs
      in if length matchedSCs = 0
         then excluded_as cluster ''No matching StorageClass found on target cluster''
         else let nodes = (case in_NodeMetrics input cluster of None \<Rightarrow> [] | Some ns \<Rightarrow> ns)
         in if length nodes = 0
         then excluded_as cluster ''No schedulable node metrics available (observability may be unhealthy)''
         else case bestCapableNode A nodes vm of
           None \<Rightarrow> excluded_as cluster ''No node has sufficient CPU and memory for the VM''
         | Some bestNode \<Rightarrow>
             let storageType = classifyFromProvisioners matchedProvisioners;
                 cpuScore = computeCPUScore A bestNode (vm_CPUCores vm);
                 memScore = computeMemScore A bestNode (vm_MemoryBytes vm)
             in if storageType = StorageTypeOther
             then excluded_as cluster ''Unsupported storage type: only cloud and Ceph storage classes are supported''
             else let cephMetrics =
                        (case in_CephMetrics input cluster of None \<Rightarrow> CephMetrics_zero | Some c \<Rightarrow> c)
             in if storageType = StorageTypeCeph \<and> ceph_TotalBytes cephMetrics = 0
             then excluded_as cluster ''Ceph storage capacity data is unavailable (metrics not reported for this cluster)''
             else let (storageScore, cephAvail, storageOK) =
                        computeStorageScore A storageType (vm_Volumes vm) cephMetrics
             in if \<not> storageOK
             then excluded_as cluster ''Insufficient storage space on target cluster''
             else Inr \<lparr>
               cand_Cluster = cluster,
               cand_TotalScore = round2 A (totalScore A cpuScore memScore storageScore),
               cand_CPUScore = round2 A cpuScore,
               cand_MemoryScore = round2 A memScore,
               cand_StorageScore = round2 A storageScore,
               cand_MatchedStorageClasses = matchedSCs,
               cand_BestNode = nm_NodeName bestNode,
               cand_AvailableCPUCores = round2 A (AvailableCPUCores A bestNode),
               cand_AvailableMemoryBytes = AvailableMemBytes bestNode,
               cand_StorageType = storageType,
               cand_CephAvailableBytes = cephAvail\<rparr>)"

fun Score_loop ::
    "go_arch \<Rightarrow> ScoringInput \<Rightarrow> string list \<Rightarrow> CandidateCluster list \<Rightarrow> ExcludedCluster list \<Rightarrow>
     CandidateCluster list \<times> ExcludedCluster list" where
  "Score_loop A input [] candidates excluded = (candidates, excluded)"
| "Score_loop A input (cluster # rest) candidates excluded =
     (if cluster = vm_Cluster (in_SourceVM input)
      then Score_loop A input rest candidates excluded
      else case Score_cluster A input cluster
             (case in_ClusterSCs input cluster of None \<Rightarrow> [] | Some scs \<Rightarrow> scs) of
          Inl x \<Rightarrow> Score_loop A input rest candidates (excluded @ [x])
        | Inr c \<Rightarrow> Score_loop A input rest (candidates @ [c]) excluded)"

type_synonym 'a sorter = "('a \<Rightarrow> 'a \<Rightarrow> bool) \<Rightarrow> 'a list \<Rightarrow> 'a list"

definition better_candidate :: "CandidateCluster \<Rightarrow> CandidateCluster \<Rightarrow> bool" where
  "better_candidate a b \<longleftrightarrow> f_gt (cand_TotalScore a) (cand_TotalScore b)"

text \<open>\<open>order\<close> is the order in which the range over \<^verbatim>\<open>input.ClusterSCs\<close> meets the keys.\<close>

definition Score ::
    "go_arch \<Rightarrow> CandidateCluster sorter \<Rightarrow> string list \<Rightarrow> ScoringInput \<Rightarrow>
     CandidateCluster list \<times> ExcludedCluster list" where
  "Score A sort_Slice order input =
     (let (candidates, excluded) = Score_loop A input order [] []
      in (sort_Slice better_candidate candidates, excluded))"

definition range_order :: "('k \<rightharpoonup> 'v) \<Rightarrow> 'k list \<Rightarrow> bool" where
  "range_order m order \<longleftrightarrow> distinct order \<and> set order = dom m"

end
