(* ===== verification/HttpClient.thy ===== *)
theory HttpClient
  imports Webhook PemRef
begin

text \<open>
  The HTTP client of the migration advisor: \<^verbatim>\<open>controllers/migrationadvisor/httpclient.go\<close>.

  The record \<open>net\<close> is the environment: the certificate pool of the system, the files, the
  transport package of client-go, whether a URL is accepted, and the exchange of a request for
  a response. A pool is the
  set of its certificates (their DER bytes); \<^verbatim>\<open>AppendCertsFromPEM\<close> of \<^verbatim>\<open>crypto/x509\<close> is
  modelled over the PEM decoder of \<open>CaCert\<close>.
\<close>

section \<open>Certificate pools\<close>

text \<open>The certificates that \<^verbatim>\<open>AppendCertsFromPEM\<close> finds; every round consumes input, so the
  length of the input is fuel enough (\<open>pem_codec.certsInPEM_fuel\<close>).\<close>

fun certsInPEM :: "pem_lib \<Rightarrow> nat \<Rightarrow> bytes \<Rightarrow> bytes list" where
  "certsInPEM P 0 data = []"
| "certsInPEM P (Suc n) data =
     (if data = [] then []
      else case pem_Decode P data of
        None \<Rightarrow> []
      | Some (block, rest) \<Rightarrow>
          if blk_Type block \<noteq> ''CERTIFICATE'' \<or> length (blk_Headers block) \<noteq> 0 then certsInPEM P n rest
          else if \<not> x509_parses P (blk_Bytes block) then certsInPEM P n rest
          else blk_Bytes block # certsInPEM P n rest)"

definition pem_certs :: "pem_lib \<Rightarrow> bytes \<Rightarrow> bytes set" where
  "pem_certs P data = set (certsInPEM P (length data) data)"

definition AppendCertsFromPEM :: "pem_lib \<Rightarrow> bytes set \<Rightarrow> bytes \<Rightarrow> bytes set \<times> bool" where
  "AppendCertsFromPEM P pool data = (pool \<union> pem_certs P data, pem_certs P data \<noteq> {})"

section \<open>The environment\<close>

text \<open>\<open>tls_GetCertificate\<close> names the files of the certificate that a server presents.\<close>

record tls_Config =
  tls_RootCAs :: "bytes set"
  tls_MinVersion :: nat
  tls_CipherSuites :: "nat list"
  tls_CurvePreferences :: "nat list"
  tls_NextProtos :: "string list"
  tls_GetCertificate :: "(string \<times> string) option"

definition tls_Config_zero :: tls_Config where
  "tls_Config_zero = \<lparr>tls_RootCAs = {}, tls_MinVersion = 0, tls_CipherSuites = [], tls_CurvePreferences = [],
     tls_NextProtos = [], tls_GetCertificate = None\<rparr>"

record http_Transport =
  tx_TLSClientConfig :: tls_Config
  tx_DialTimeout :: nat
  tx_DialKeepAlive :: nat
  tx_TLSHandshakeTimeout :: nat
  tx_ExpectContinueTimeout :: nat
  tx_MaxIdleConns :: nat
  tx_IdleConnTimeout :: nat

record http_Request =
  hr_Method :: string
  hr_URL :: string
  hr_Query :: "(string \<times> string) list"
  hr_Body :: bytes

record http_Response =
  hs_StatusCode :: nat
  hs_Body :: bytes

record ('w, 'tc, 'rt) net =
  SystemCertPool :: "goerr + bytes set"
  ReadFile :: "string \<Rightarrow> ('w, bytes) prog"
  os_IsNotExist :: "goerr \<Rightarrow> bool"
  TransportConfig :: "rest_Config \<Rightarrow> goerr + 'tc"
  HTTPWrappersForConfig :: "'tc \<Rightarrow> http_Transport \<Rightarrow> goerr + 'rt"
  NewRequest_err :: "string \<Rightarrow> goerr option"
  client_Do :: "'rt \<Rightarrow> http_Request \<Rightarrow> ('w, http_Response) prog"

section \<open>buildHTTPClient\<close>

definition DefaultServiceCAPath :: string where
  "DefaultServiceCAPath = ''/var/run/secrets/service-ca/service-ca.crt''"

definition appendOrFail :: "pem_lib \<Rightarrow> goerr \<Rightarrow> bytes \<Rightarrow> bytes set \<Rightarrow> ('w, bytes set) prog" where
  "appendOrFail P err data pool =
     (case AppendCertsFromPEM P pool data of (pool', ok) \<Rightarrow> if ok then ret pool' else fail err)"

definition addCAData :: "pem_lib \<Rightarrow> rest_Config \<Rightarrow> bytes set \<Rightarrow> ('w, bytes set) prog" where
  "addCAData P restConfig pool =
     (if length (cfg_CAData restConfig) > 0
      then appendOrFail P (Errorf ''no certs found in restConfig.CAData'' [] None) (cfg_CAData restConfig) pool
      else ret pool)"

definition addCAFile :: "('w, 'tc, 'rt) net \<Rightarrow> pem_lib \<Rightarrow> rest_Config \<Rightarrow> bytes set \<Rightarrow> ('w, bytes set) prog" where
  "addCAFile N P restConfig pool =
     (let path = cfg_CAFile restConfig in
      if path \<noteq> [] then
        andThen (wrapErr (\<lambda>err. Errorf ''read cluster CA file %s: %w'' [path] (Some err)) (ReadFile N path))
          (\<lambda>data. appendOrFail P (Errorf ''no certs found in cluster CA file %s'' [path] None) data pool)
      else ret pool)"

definition addServiceCA :: "('w, 'tc, 'rt) net \<Rightarrow> pem_lib \<Rightarrow> string \<Rightarrow> bytes set \<Rightarrow> ('w, bytes set) prog" where
  "addServiceCA N P serviceCAPath pool =
     (if serviceCAPath \<noteq> [] then
        onResult (ReadFile N serviceCAPath) (\<lambda>r. case r of
          Inl err \<Rightarrow> if \<not> os_IsNotExist N err
                     then fail (Errorf ''read service CA %s: %w'' [serviceCAPath] (Some err)) else ret pool
        | Inr data \<Rightarrow>
            appendOrFail P (Errorf ''no certs found in service CA bundle %s'' [serviceCAPath] None) data pool)
      else ret pool)"

text \<open>A nil option is skipped.\<close>

definition applyTLSOpts :: "(tls_Config \<Rightarrow> tls_Config) option list \<Rightarrow> tls_Config \<Rightarrow> tls_Config" where
  "applyTLSOpts tlsOpts conf = fold (\<lambda>opt c. case opt of None \<Rightarrow> c | Some f \<Rightarrow> f c) tlsOpts conf"

definition baseTransport :: "tls_Config \<Rightarrow> http_Transport" where
  "baseTransport conf = \<lparr>tx_TLSClientConfig = conf, tx_DialTimeout = 30, tx_DialKeepAlive = 30,
     tx_TLSHandshakeTimeout = 10, tx_ExpectContinueTimeout = 1, tx_MaxIdleConns = 100,
     tx_IdleConnTimeout = 90\<rparr>"

definition buildHTTPClient ::
    "('w, 'tc, 'rt) net \<Rightarrow> pem_lib \<Rightarrow> rest_Config \<Rightarrow> string \<Rightarrow> (tls_Config \<Rightarrow> tls_Config) option list \<Rightarrow>
     ('w, 'rt) prog" where
  "buildHTTPClient N P restConfig serviceCAPath tlsOpts =
     (let pool = (case SystemCertPool N of Inl err \<Rightarrow> {} | Inr p \<Rightarrow> p) in
      andThen (addCAData P restConfig pool) (\<lambda>pool.
      andThen (addCAFile N P restConfig pool) (\<lambda>pool.
      andThen (addServiceCA N P serviceCAPath pool) (\<lambda>pool.
        let baseTx = baseTransport (applyTLSOpts tlsOpts (tls_Config_zero\<lparr>tls_RootCAs := pool\<rparr>))
        in case TransportConfig N restConfig of
             Inl err \<Rightarrow> fail (Errorf ''build transport config: %w'' [] (Some err))
           | Inr transportCfg \<Rightarrow>
               (case HTTPWrappersForConfig N transportCfg baseTx of
                  Inl err \<Rightarrow> fail (Errorf ''wrap transport with auth: %w'' [] (Some err))
                | Inr rt \<Rightarrow> ret rt)))))"

section \<open>Facts about pools\<close>

context pem_codec
begin

lemma certsInPEM_fuel: "length data \<le> n \<Longrightarrow> length data \<le> m \<Longrightarrow> certsInPEM P n data = certsInPEM P m data"
proof (induction n arbitrary: data m)
  case 0
  then show ?case by (cases m) simp_all
next
  case (Suc n)
  show ?case
  proof (cases "data = []")
    case True
    then show ?thesis by (cases m) simp_all
  next
    case False
    with Suc.prems obtain m' where m: "m = Suc m'" by (cases m) simp_all
    show ?thesis
    proof (cases "pem_Decode P data")
      case (Some br)
      obtain b r where br: "br = (b, r)" by (cases br)
      with Some have "length r < length data" using decode_shorter by blast
      then have "certsInPEM P n r = certsInPEM P m' r" using Suc.prems m by (intro Suc.IH) simp_all
      then show ?thesis using False m Some br by simp
    qed (use False m in simp)
  qed
qed

lemma pem_certs_encs: "list_all (x509_parses P) cs \<Longrightarrow> pem_certs P (encs P cs) = set cs"
proof -
  assume "list_all (x509_parses P) cs"
  then have "certsInPEM P n (encs P cs) = cs" if "length (encs P cs) \<le> n" for n
    using that
  proof (induction cs arbitrary: n)
    case Nil
    then show ?case by (cases n) (simp_all add: encs_def)
  next
    case (Cons c cs)
    have dec: "pem_Decode P (encs P (c # cs)) = Some (cert_block c, encs P cs)"
      using decode_encode [of c "encs P cs"] by (simp add: encs_def)
    then have "length (encs P cs) < length (encs P (c # cs))" by (rule decode_shorter)
    moreover from this obtain m where "n = Suc m" using Cons.prems(2) by (cases n) simp_all
    ultimately show ?case using Cons dec by (auto simp: cert_block_def)
  qed
  then show ?thesis by (simp add: pem_certs_def)
qed

end

section \<open>The trusted roots\<close>

text \<open>The sources of certificates when the files hold \<open>fs\<close>: those that are configured, which of
  them are usable, and the pool they make.\<close>

definition ca_sources :: "(string \<Rightarrow> goerr + bytes) \<Rightarrow> rest_Config \<Rightarrow> string \<Rightarrow> (goerr + bytes) list" where
  "ca_sources fs cfg path =
     (if cfg_CAData cfg = [] then [] else [Inr (cfg_CAData cfg)])
     @ (if cfg_CAFile cfg = [] then [] else [fs (cfg_CAFile cfg)])
     @ (if path = [] then [] else [fs path])"

definition source_certs :: "pem_lib \<Rightarrow> goerr + bytes \<Rightarrow> bytes set" where
  "source_certs P r = (case r of Inl _ \<Rightarrow> {} | Inr data \<Rightarrow> pem_certs P data)"

definition trust_roots :: "pem_lib \<Rightarrow> goerr + bytes set \<Rightarrow> (goerr + bytes) list \<Rightarrow> bytes set" where
  "trust_roots P sys srcs = (case sys of Inl _ \<Rightarrow> {} | Inr p \<Rightarrow> p) \<union> \<Union>(source_certs P ` set srcs)"

text \<open>A source must hold a certificate; only the file of the service CA may be missing.\<close>

definition sources_usable ::
    "(goerr \<Rightarrow> bool) \<Rightarrow> pem_lib \<Rightarrow> (string \<Rightarrow> goerr + bytes) \<Rightarrow> rest_Config \<Rightarrow> string \<Rightarrow> bool" where
  "sources_usable missing P fs cfg path \<longleftrightarrow>
     (cfg_CAData cfg \<noteq> [] \<longrightarrow> pem_certs P (cfg_CAData cfg) \<noteq> {}) \<and>
     (cfg_CAFile cfg \<noteq> [] \<longrightarrow> source_certs P (fs (cfg_CAFile cfg)) \<noteq> {}) \<and>
     (path \<noteq> [] \<longrightarrow> source_certs P (fs path) \<noteq> {} \<or> (\<exists>e. fs path = Inl e \<and> missing e))"

lemma addCAData_eq:
  "addCAData P cfg pool w =
     (if cfg_CAData cfg = [] then Inr pool
      else if pem_certs P (cfg_CAData cfg) = {} then Inl (Errorf ''no certs found in restConfig.CAData'' [] None)
      else Inr (pool \<union> pem_certs P (cfg_CAData cfg)), w)"
  by (simp add: addCAData_def appendOrFail_def AppendCertsFromPEM_def prog_defs)

lemma addCAFile_ok:
  assumes "\<And>p w. ReadFile N p w = (fs p, w)"
  shows "fst (addCAFile N P cfg pool w) = Inr pool' \<longleftrightarrow>
     (cfg_CAFile cfg \<noteq> [] \<longrightarrow> source_certs P (fs (cfg_CAFile cfg)) \<noteq> {}) \<and>
     pool' = pool \<union> (if cfg_CAFile cfg = [] then {} else source_certs P (fs (cfg_CAFile cfg)))"
    and "snd (addCAFile N P cfg pool w) = w"
  using assms by (auto simp: addCAFile_def appendOrFail_def AppendCertsFromPEM_def source_certs_def Let_def prog_defs
      split: sum.split)

lemma addServiceCA_ok:
  assumes "\<And>p w. ReadFile N p w = (fs p, w)"
  shows "fst (addServiceCA N P path pool w) = Inr pool' \<longleftrightarrow>
     (path \<noteq> [] \<longrightarrow> source_certs P (fs path) \<noteq> {} \<or> (\<exists>e. fs path = Inl e \<and> os_IsNotExist N e)) \<and>
     pool' = pool \<union> (if path = [] then {} else source_certs P (fs path))"
    and "snd (addServiceCA N P path pool w) = w"
  using assms by (auto simp: addServiceCA_def appendOrFail_def AppendCertsFromPEM_def source_certs_def prog_defs
      split: sum.split)

text \<open>The three sources in turn: the pool with all their certificates, or an error.\<close>

lemma Inr_iff_cases:
  assumes "\<And>q. fst m = Inr q \<longleftrightarrow> ok \<and> q = q0" and "snd m = w"
  shows "\<exists>e. m = (if ok then Inr q0 else Inl e, w)"
  using assms by (cases m; cases "fst m") auto

lemma andThen_cases:
  assumes "\<exists>e. m w = (if a then Inr x else Inl e, w)" and "\<exists>e. f x w = (if b then Inr y else Inl e, w)"
  shows "\<exists>e. andThen m f w = (if a \<and> b then Inr y else Inl e, w)"
  using assms by (cases a; cases b) (auto simp: andThen_def)

lemma sources_pool:
  assumes "\<And>p w. ReadFile N p w = (fs p, w)"
  shows "\<exists>e. andThen (addCAData P cfg (case SystemCertPool N of Inl err \<Rightarrow> {} | Inr p \<Rightarrow> p)) (\<lambda>pool.
      andThen (addCAFile N P cfg pool) (addServiceCA N P path)) w =
    (if sources_usable (os_IsNotExist N) P fs cfg path
     then Inr (trust_roots P (SystemCertPool N) (ca_sources fs cfg path)) else Inl e, w)"
proof -
  let ?p0 = "case SystemCertPool N of Inl err \<Rightarrow> {} | Inr p \<Rightarrow> p"
  let ?p1 = "?p0 \<union> (if cfg_CAData cfg = [] then {} else pem_certs P (cfg_CAData cfg))"
  let ?p2 = "?p1 \<union> (if cfg_CAFile cfg = [] then {} else source_certs P (fs (cfg_CAFile cfg)))"
  have roots: "trust_roots P (SystemCertPool N) (ca_sources fs cfg path) =
      ?p2 \<union> (if path = [] then {} else source_certs P (fs path))"
    by (auto simp: trust_roots_def ca_sources_def source_certs_def split: sum.split)
  have "\<exists>e. addCAData P cfg ?p0 w = (if cfg_CAData cfg \<noteq> [] \<longrightarrow> pem_certs P (cfg_CAData cfg) \<noteq> {} then Inr ?p1 else Inl e, w)"
    by (simp add: addCAData_eq)
  then show ?thesis unfolding roots sources_usable_def
    by (rule andThen_cases)
      (rule andThen_cases, rule Inr_iff_cases [OF addCAFile_ok [OF assms]], rule Inr_iff_cases [OF addServiceCA_ok [OF assms]])
qed

text \<open>C17: with files that hold \<open>fs\<close>, the client is built exactly if every configured source of
  certificates holds one (a missing file of the service CA is skipped, any other problem is an
  error) and the transport accepts the configuration; it trusts the roots of the system
  and the certificates of all the sources, and nothing else, before the TLS options apply.\<close>

theorem client_trusts_exactly:
  assumes "\<And>p w. ReadFile N p w = (fs p, w)"
  shows "fst (buildHTTPClient N P cfg path tlsOpts w) = Inr rt \<longleftrightarrow>
    sources_usable (os_IsNotExist N) P fs cfg path \<and>
    (\<exists>tc. TransportConfig N cfg = Inr tc \<and>
       HTTPWrappersForConfig N tc (baseTransport (applyTLSOpts tlsOpts
         (tls_Config_zero\<lparr>tls_RootCAs := trust_roots P (SystemCertPool N) (ca_sources fs cfg path)\<rparr>))) = Inr rt)"
proof -
  let ?tail = "\<lambda>pool. case TransportConfig N cfg of
      Inl err \<Rightarrow> fail (Errorf ''build transport config: %w'' [] (Some err))
    | Inr tc \<Rightarrow> (case HTTPWrappersForConfig N tc (baseTransport (applyTLSOpts tlsOpts (tls_Config_zero\<lparr>tls_RootCAs := pool\<rparr>))) of
        Inl err \<Rightarrow> fail (Errorf ''wrap transport with auth: %w'' [] (Some err)) | Inr rt \<Rightarrow> ret rt)"
  have "buildHTTPClient N P cfg path tlsOpts = andThen (andThen (addCAData P cfg (case SystemCertPool N of Inl err \<Rightarrow> {} | Inr p \<Rightarrow> p))
      (\<lambda>pool. andThen (addCAFile N P cfg pool) (addServiceCA N P path))) ?tail"
    by (simp add: buildHTTPClient_def andThen_assoc)
  moreover obtain e where "andThen (addCAData P cfg (case SystemCertPool N of Inl err \<Rightarrow> {} | Inr p \<Rightarrow> p))
      (\<lambda>pool. andThen (addCAFile N P cfg pool) (addServiceCA N P path)) w =
    (if sources_usable (os_IsNotExist N) P fs cfg path
     then Inr (trust_roots P (SystemCertPool N) (ca_sources fs cfg path)) else Inl e, w)"
    using sources_pool [OF assms, of P cfg path w] by blast
  ultimately have "buildHTTPClient N P cfg path tlsOpts w =
      (if sources_usable (os_IsNotExist N) P fs cfg path
       then ?tail (trust_roots P (SystemCertPool N) (ca_sources fs cfg path)) w else (Inl e, w))"
    by (simp only: andThen_def [of "andThen _ _"] prod.case) simp
  then show ?thesis by (auto simp: ret_def fail_def split: sum.split)
qed

text \<open>An environment with a system root, a service CA file and no other files.\<close>

definition demo_net :: "(unit, rest_Config, http_Transport) net" where
  "demo_net = \<lparr>SystemCertPool = Inr {''root''},
     ReadFile = (\<lambda>p w. (if p = ''/ca'' then Inr (encs (pem_ref (\<lambda>_. True)) [''svc''])
                         else Inl (Errorf ''file does not exist'' [] None), w)),
     os_IsNotExist = (\<lambda>e. e = Errorf ''file does not exist'' [] None),
     TransportConfig = Inr, HTTPWrappersForConfig = (\<lambda>tc tx. Inr tx),
     NewRequest_err = (\<lambda>url. None), client_Do = (\<lambda>rt req. ret \<lparr>hs_StatusCode = 200, hs_Body = []\<rparr>)\<rparr>"

theorem client_trusts_exactly_witness:
  "fst (buildHTTPClient demo_net (pem_ref (\<lambda>_. True)) demo_cfg ''/ca'' [None] ()) =
     Inr (baseTransport (tls_Config_zero\<lparr>tls_RootCAs := {''root'', ''svc''}\<rparr>))"
proof -
  let ?P = "pem_ref (\<lambda>_. True)"
  let ?fs = "\<lambda>p. if p = ''/ca'' then Inr (encs ?P [''svc'']) else Inl (Errorf ''file does not exist'' [] None)"
  have "pem_certs ?P (encs ?P [''svc'']) = {''svc''}"
    using pem_ref.pem_certs_encs [of "\<lambda>_. True" "[''svc'']"] by (simp add: pem_ref_def)
  then have "sources_usable (os_IsNotExist demo_net) ?P ?fs demo_cfg ''/ca''"
    "trust_roots ?P (SystemCertPool demo_net) (ca_sources ?fs demo_cfg ''/ca'') = {''root'', ''svc''}"
    by (auto simp: sources_usable_def source_certs_def demo_cfg_def trust_roots_def ca_sources_def demo_net_def)
  moreover have "ReadFile demo_net p w = (?fs p, w)" for p w by (simp add: demo_net_def)
  ultimately show ?thesis
    using client_trusts_exactly [of demo_net ?fs ?P demo_cfg "''/ca''" "[None]" "()"]
    by (simp add: demo_net_def applyTLSOpts_def)
qed

end
