(* ===== verification/GoJson.thy ===== *)
theory GoJson
  imports Hub
begin

text \<open>
  \<^verbatim>\<open>encoding/json\<close> as the advisor uses it: decoding a JSON value into the fields of a struct and
  encoding a string. Splitting the bytes of a document into a JSON value is the parameter
  \<open>parseJSON\<close> of the definitions that decode. A field of a struct is looked up without regard
  to letter case; a missing field or null leaves the zero value, a value of another type is an
  error. Of a repeated key the last value counts.
\<close>

type_synonym json_parser = "bytes \<Rightarrow> goerr + json"

definition typeErr :: goerr where
  "typeErr = Errorf ''json: cannot unmarshal value into Go value'' [] None"

fun sum_map :: "('a \<Rightarrow> goerr + 'b) \<Rightarrow> 'a list \<Rightarrow> goerr + 'b list" where
  "sum_map f [] = Inr []"
| "sum_map f (x # xs) =
     (case f x of
        Inl e \<Rightarrow> Inl e
      | Inr y \<Rightarrow> (case sum_map f xs of Inl e \<Rightarrow> Inl e | Inr ys \<Rightarrow> Inr (y # ys)))"

definition jfield :: "string \<Rightarrow> (string \<times> json) list \<Rightarrow> json" where
  "jfield name kvs =
     (case filter (\<lambda>kv. EqualFold (fst kv) name) kvs of [] \<Rightarrow> JNull | ms \<Rightarrow> snd (last ms))"

fun decodeString :: "json \<Rightarrow> goerr + string" where
  "decodeString JNull = Inr []"
| "decodeString (JStr s) = Inr s"
| "decodeString _ = Inl typeErr"

fun decodeFields :: "json \<Rightarrow> goerr + (string \<times> json) list" where
  "decodeFields JNull = Inr []"
| "decodeFields (JObj kvs) = Inr kvs"
| "decodeFields _ = Inl typeErr"

fun decodeElems :: "json \<Rightarrow> goerr + json list" where
  "decodeElems JNull = Inr []"
| "decodeElems (JArr xs) = Inr xs"
| "decodeElems _ = Inl typeErr"

definition sum_bind :: "goerr + 'a \<Rightarrow> ('a \<Rightarrow> goerr + 'b) \<Rightarrow> goerr + 'b" where
  "sum_bind r f = (case r of Inl e \<Rightarrow> Inl e | Inr x \<Rightarrow> f x)"

lemma sum_bind_simps [simp]: "sum_bind (Inl e) f = Inl e" "sum_bind (Inr x) f = f x"
  by (simp_all add: sum_bind_def)

definition decodeList :: "(json \<Rightarrow> goerr + 'a) \<Rightarrow> json \<Rightarrow> goerr + 'a list" where
  "decodeList f j = sum_bind (decodeElems j) (sum_map f)"

text \<open>A key of a \<^verbatim>\<open>map[string]interface{}\<close>, and its value as a string: empty if it is not one.\<close>

definition map_key :: "(string \<times> json) list \<Rightarrow> string \<Rightarrow> json option" where
  "map_key kvs k = map_of (rev kvs) k"

section \<open>Encoding strings and numbers\<close>

definition hex_digit :: "nat \<Rightarrow> char" where
  "hex_digit n = ''0123456789abcdef'' ! (n mod 16)"

definition escape_char :: "char \<Rightarrow> string" where
  "escape_char c =
     (let n = of_char c :: nat in
      if c = CHR 0x22 then [CHR 0x5C, CHR 0x22]
      else if c = CHR 0x5C then [CHR 0x5C, CHR 0x5C]
      else if n = 10 then [CHR 0x5C, CHR ''n'']
      else if n = 13 then [CHR 0x5C, CHR ''r'']
      else if n = 9 then [CHR 0x5C, CHR ''t'']
      else if n < 32 \<or> c \<in> {CHR ''<'', CHR ''>'', CHR ''&''}
      then CHR 0x5C # ''u00'' @ [hex_digit (n div 16), hex_digit n]
      else [c])"

definition encodeString :: "string \<Rightarrow> bytes" where
  "encodeString s = [CHR 0x22] @ concat (map escape_char s) @ [CHR 0x22]"

fun decimal :: "nat \<Rightarrow> string" where
  "decimal n = (if n < 10 then [''0123456789'' ! n] else decimal (n div 10) @ [''0123456789'' ! (n mod 10)])"

declare decimal.simps [simp del]

lemma sum_map_Inr: "(\<And>x. x \<in> set xs \<Longrightarrow> f x = Inr (g x)) \<Longrightarrow> sum_map f xs = Inr (map g xs)"
  by (induction xs) simp_all

end
