(* ===== verification/Search.thy ===== *)
theory Search
  imports HttpClient GoJson ApiTypes
begin

text \<open>
  The client of the ACM Search API: \<^verbatim>\<open>controllers/migrationadvisor/search_client.go\<close>.

  The loop over the pages has no bound of its own: it is a partial function, and not returning
  is the value \<^const>\<open>None\<close>. The offset is a natural number (an overflow of \<^verbatim>\<open>int\<close> is out of
  reach); encoding the query cannot fail.
\<close>

definition DefaultSearchNamespace :: string where
  "DefaultSearchNamespace = ''open-cluster-management''"

definition SearchAPIServiceEndpoint :: "string \<Rightarrow> string" where
  "SearchAPIServiceEndpoint namespace = ''https://search-search-api.'' @ namespace @ ''.svc:4010/searchapi/graphql''"

record SearchClient =
  sch_RestConfig :: rest_Config
  sch_SearchAPIEndpoint :: string
  sch_ServiceCAPath :: string
  sch_TLSOpts :: "(tls_Config \<Rightarrow> tls_Config) option"

definition search_serviceCAPath :: "SearchClient \<Rightarrow> string" where
  "search_serviceCAPath s = (if sch_ServiceCAPath s \<noteq> [] then sch_ServiceCAPath s else DefaultServiceCAPath)"

definition search_endpoint :: "SearchClient \<Rightarrow> string" where
  "search_endpoint s =
     (if sch_SearchAPIEndpoint s \<noteq> [] then sch_SearchAPIEndpoint s
      else SearchAPIServiceEndpoint DefaultSearchNamespace)"

section \<open>Requests and responses\<close>

definition searchPageSize :: nat where
  "searchPageSize = 1000"

definition newline :: string where
  "newline = [CHR 0x0A]"

definition filterBlock :: string where
  "filterBlock = ''filters: [{ property: '' @ [CHR 0x22] @ ''kind'' @ [CHR 0x22] @ '', values: [''
     @ [CHR 0x22] @ ''StorageClass'' @ [CHR 0x22] @ ''] }]''"

definition gqlQuery :: "nat \<Rightarrow> string" where
  "gqlQuery offset =
     ''{'' @ newline @ ''  search(input: [{'' @ newline
     @ ''    '' @ filterBlock @ newline
     @ ''    limit: '' @ decimal searchPageSize @ newline
     @ ''    offset: '' @ decimal offset @ newline
     @ ''  }]) {'' @ newline @ ''    items'' @ newline @ ''  }'' @ newline @ ''}''"

definition searchRequest :: "string \<Rightarrow> nat \<Rightarrow> http_Request" where
  "searchRequest endpoint offset =
     \<lparr>hr_Method = ''POST'', hr_URL = endpoint, hr_Query = [],
      hr_Body = ''{'' @ encodeString ''query'' @ '':'' @ encodeString (gqlQuery offset) @ ''}''\<rparr>"

record searchResult =
  sr_Search :: "(string \<times> json) list list list"
  sr_Errors :: "string list"

definition decodeSearchResult :: "json \<Rightarrow> goerr + searchResult" where
  "decodeSearchResult j =
     sum_bind (decodeFields j) (\<lambda>top.
     sum_bind (decodeFields (jfield ''data'' top)) (\<lambda>dat.
     sum_bind (decodeList (\<lambda>s. sum_bind (decodeFields s) (\<lambda>fs. decodeList decodeFields (jfield ''items'' fs)))
        (jfield ''search'' dat)) (\<lambda>search.
     sum_bind (decodeList (\<lambda>e. sum_bind (decodeFields e) (\<lambda>fs. decodeString (jfield ''message'' fs)))
        (jfield ''errors'' top)) (\<lambda>errors.
     Inr \<lparr>sr_Search = search, sr_Errors = errors\<rparr>))))"

section \<open>The pages\<close>

type_synonym class_map = "string \<rightharpoonup> SCProvisioner list"

definition addItem :: "(string \<times> json) list \<Rightarrow> class_map \<Rightarrow> class_map" where
  "addItem item out =
     (let cluster = jstr (map_key item ''cluster'');
          name = jstr (map_key item ''name'');
          provisioner = jstr (map_key item ''provisioner'')
      in if cluster = [] \<or> name = [] then out
         else out(cluster \<mapsto> (case out cluster of None \<Rightarrow> [] | Some scs \<Rightarrow> scs)
                               @ [\<lparr>sc_Name = name, sc_Provisioner = provisioner\<rparr>]))"

partial_function (option) searchPages ::
    "('w, 'tc, 'rt) net \<Rightarrow> json_parser \<Rightarrow> 'rt \<Rightarrow> string \<Rightarrow> nat \<Rightarrow> class_map \<Rightarrow> 'w \<Rightarrow>
     ((goerr + class_map) \<times> 'w) option" where
  "searchPages N parseJSON httpClient endpoint offset out w =
     (case NewRequest_err N endpoint of
        Some err \<Rightarrow> Some (Inl (Errorf ''build search request: %w'' [] (Some err)), w)
      | None \<Rightarrow>
     (case client_Do N httpClient (searchRequest endpoint offset) w of (r, w') \<Rightarrow>
     (case r of
        Inl err \<Rightarrow> Some (Inl (Errorf ''search API request: %w'' [] (Some err)), w')
      | Inr resp \<Rightarrow>
          if hs_StatusCode resp \<noteq> 200
          then Some (Inl (Errorf ''search API returned %d: %s'' [decimal (hs_StatusCode resp), hs_Body resp] None), w')
          else (case sum_bind (parseJSON (hs_Body resp)) decodeSearchResult of
             Inl err \<Rightarrow> Some (Inl (Errorf ''decode search response: %w'' [] (Some err)), w')
           | Inr result \<Rightarrow>
               if sr_Errors result \<noteq> []
               then Some (Inl (Errorf ''search API errors: %s'' [hd (sr_Errors result)] None), w')
               else (case sr_Search result of
                  [] \<Rightarrow> Some (Inr out, w')
                | items # _ \<Rightarrow>
                    let out' = fold addItem items out
                    in if length items < searchPageSize then Some (Inr out', w')
                       else searchPages N parseJSON httpClient endpoint (offset + searchPageSize) out' w')))))"

declare searchPages.simps [code]

definition ListStorageClassProvisionersByCluster ::
    "('w, 'tc, 'rt) net \<Rightarrow> pem_lib \<Rightarrow> json_parser \<Rightarrow> SearchClient \<Rightarrow> 'w \<Rightarrow> ((goerr + class_map) \<times> 'w) option" where
  "ListStorageClassProvisionersByCluster N P parseJSON s w =
     (case buildHTTPClient N P (sch_RestConfig s) (search_serviceCAPath s) [sch_TLSOpts s] w of (r, w') \<Rightarrow>
        (case r of
           Inl err \<Rightarrow> Some (Inl (Errorf ''build HTTP client: %w'' [] (Some err)), w')
         | Inr httpClient \<Rightarrow>
             searchPages N parseJSON httpClient (search_endpoint s) 0 Map.empty w'))"

end
