(* ===== verification/Observability.thy ===== *)
theory Observability
  imports HttpClient GoJson ApiTypes Quantity
begin

text \<open>
  The metrics of the migration advisor: \<^verbatim>\<open>controllers/migrationadvisor/observability_client.go\<close>.

  Queries go through the HTTP client of \<open>HttpClient\<close>, which is built once (\<^verbatim>\<open>sync.Once\<close>): the
  state of a program is the world and the result of that first build. The six node queries run
  in parallel: the order in which they complete is an argument, and so is the order in which Go
  ranges over the map of the nodes. Numbers are read by \<^verbatim>\<open>fmt.Sscanf\<close>, modelled over
  \<^verbatim>\<open>strconv.ParseFloat\<close>. The timestamp of a sample is not looked at.
\<close>

section \<open>Scanning a number\<close>

type_synonym scan_state = "string \<times> string"

fun accept :: "string \<Rightarrow> scan_state \<Rightarrow> bool \<times> scan_state" where
  "accept ok (buf, []) = (False, (buf, []))"
| "accept ok (buf, c # cs) = (if c \<in> set ok then (True, (buf @ [c], cs)) else (False, (buf, c # cs)))"

definition acceptAll :: "string \<Rightarrow> scan_state \<Rightarrow> scan_state" where
  "acceptAll ok s = (fst s @ takeWhile (\<lambda>c. c \<in> set ok) (snd s), dropWhile (\<lambda>c. c \<in> set ok) (snd s))"

text \<open>\<^verbatim>\<open>accept\<close> of several bytes in a row; what was accepted before a mismatch stays in the buffer.\<close>

fun acceptSeq :: "string list \<Rightarrow> scan_state \<Rightarrow> bool \<times> scan_state" where
  "acceptSeq [] s = (True, s)"
| "acceptSeq (p # ps) s = (case accept p s of (ok, s') \<Rightarrow> if ok then acceptSeq ps s' else (False, s'))"

definition floatToken :: "string \<Rightarrow> string" where
  "floatToken input =
     (case acceptSeq [''nN'', ''aA'', ''nN''] ([], input) of (isNaN, s) \<Rightarrow>
        if isNaN then fst s
        else case acceptSeq [''iI'', ''nN'', ''fF''] (snd (accept ''+-'' s)) of (isInf, s) \<Rightarrow>
          if isInf then fst s
          else case acceptSeq [''0'', ''xX''] s of (isHex, s) \<Rightarrow>
            let digits = (if isHex then ''0123456789aAbBcCdDeEfF_'' else ''0123456789_'');
                exponent = (if isHex then ''pP'' else ''eEpP'');
                s = acceptAll digits s;
                s = (case accept ''.'' s of (point, s) \<Rightarrow> if point then acceptAll digits s else s)
            in fst (case accept exponent s of (e, s) \<Rightarrow>
                 if e then acceptAll ''0123456789_'' (snd (accept ''+-'' s)) else s))"

definition Atoi :: "string \<Rightarrow> goerr + int" where
  "Atoi s =
     (let neg = (s \<noteq> [] \<and> hd s = CHR ''-'');
          ds = (if s \<noteq> [] \<and> (hd s = CHR ''-'' \<or> hd s = CHR ''+'') then tl s else s);
          n = (if neg then - int (digits_val ds) else int (digits_val ds))
      in if is_digits ds \<and> - (2 ^ 63) \<le> n \<and> n < 2 ^ 63 then Inr n
         else Inl (Errorf ''strconv.Atoi: parsing %q'' [s] None))"

fun Ldexp :: "go_arch \<Rightarrow> f64 \<Rightarrow> int \<Rightarrow> f64" where
  "Ldexp A (Fin r) m = rnd A (r * 2 powi m)"
| "Ldexp A x m = x"

definition convertFloat :: "go_arch \<Rightarrow> float_parse \<Rightarrow> string \<Rightarrow> goerr + f64" where
  "convertFloat A PF str =
     (if CHR ''p'' \<in> set str \<and> CHR ''x'' \<notin> set str \<and> CHR ''X'' \<notin> set str then
        let p = length (takeWhile (\<lambda>c. c \<noteq> CHR ''p'') str)
        in sum_bind (PF (take p str)) (\<lambda>f. sum_bind (Atoi (drop (p + 1) str)) (\<lambda>m. Inr (Ldexp A f m)))
      else PF str)"

fun SkipSpace :: "string \<Rightarrow> goerr + string" where
  "SkipSpace [] = Inr []"
| "SkipSpace (c # cs) =
     (if c = CHR 0x0A \<or> (c = CHR 0x0D \<and> HasPrefix cs [CHR 0x0A]) then Inl (Errorf ''unexpected newline'' [] None)
      else if is_space c then SkipSpace cs else Inr (c # cs))"

text \<open>\<^verbatim>\<open>fmt.Sscanf(s, "%f", &v)\<close>: input after the number is left unread.\<close>

definition Sscanf_f :: "go_arch \<Rightarrow> float_parse \<Rightarrow> string \<Rightarrow> goerr + f64" where
  "Sscanf_f A PF s =
     sum_bind (SkipSpace s) (\<lambda>input.
       if input = [] then Inl (Errorf ''unexpected EOF'' [] None) else convertFloat A PF (floatToken input))"

section \<open>Responses\<close>

record prom_row =
  row_Metric :: "string \<rightharpoonup> string"
  row_Value :: "json \<times> json"

record promResponse =
  pr_Status :: string
  pr_ResultType :: string
  pr_Result :: "prom_row list"
  pr_Error :: string

definition decodeMetric :: "json \<Rightarrow> goerr + (string \<rightharpoonup> string)" where
  "decodeMetric j =
     sum_bind (decodeFields j) (\<lambda>kvs.
     sum_bind (sum_map (\<lambda>(k, v). sum_bind (decodeString v) (\<lambda>s. Inr (k, s))) kvs) (\<lambda>kvs.
     Inr (map_of (rev kvs))))"

text \<open>\<^verbatim>\<open>[2]interface{}\<close>: missing elements are nil, further ones are dropped.\<close>

definition decodeValue :: "json \<Rightarrow> goerr + json \<times> json" where
  "decodeValue j =
     sum_bind (decodeElems j) (\<lambda>xs. Inr (case xs of [] \<Rightarrow> (JNull, JNull) | [x] \<Rightarrow> (x, JNull) | x # y # _ \<Rightarrow> (x, y)))"

definition decodeRow :: "json \<Rightarrow> goerr + prom_row" where
  "decodeRow j =
     sum_bind (decodeFields j) (\<lambda>fs.
     sum_bind (decodeMetric (jfield ''metric'' fs)) (\<lambda>m.
     sum_bind (decodeValue (jfield ''value'' fs)) (\<lambda>v. Inr \<lparr>row_Metric = m, row_Value = v\<rparr>)))"

definition decodePromResponse :: "json \<Rightarrow> goerr + promResponse" where
  "decodePromResponse j =
     sum_bind (decodeFields j) (\<lambda>top.
     sum_bind (decodeString (jfield ''status'' top)) (\<lambda>status.
     sum_bind (decodeFields (jfield ''data'' top)) (\<lambda>dat.
     sum_bind (decodeString (jfield ''resultType'' dat)) (\<lambda>rtype.
     sum_bind (decodeList decodeRow (jfield ''result'' dat)) (\<lambda>rows.
     sum_bind (decodeString (jfield ''error'' top)) (\<lambda>err.
     Inr \<lparr>pr_Status = status, pr_ResultType = rtype, pr_Result = rows, pr_Error = err\<rparr>))))))"

definition metricValue :: "go_arch \<Rightarrow> float_parse \<Rightarrow> json \<times> json \<Rightarrow> goerr + f64" where
  "metricValue A PF row =
     (case snd row of
        JStr s \<Rightarrow> (case Sscanf_f A PF s of
           Inl err \<Rightarrow> Inl (Errorf ''parse metric value %q: %w'' [s] (Some err))
         | Inr v \<Rightarrow> Inr v)
      | _ \<Rightarrow> Inl (Errorf ''value is not a string'' [] None))"

section \<open>Queries\<close>

definition thanosQueryFrontend :: string where
  "thanosQueryFrontend = ''http://observability-thanos-query-frontend.open-cluster-management-observability.svc:9090''"

definition promStatusSuccess :: string where
  "promStatusSuccess = ''success''"

record ObservabilityClient =
  obs_RestConfig :: rest_Config
  obs_ThanosHost :: string
  obs_ServiceCAPath :: string
  obs_TLSOpts :: "(tls_Config \<Rightarrow> tls_Config) option"

definition obs_serviceCAPath :: "ObservabilityClient \<Rightarrow> string" where
  "obs_serviceCAPath ob = (if obs_ServiceCAPath ob \<noteq> [] then obs_ServiceCAPath ob else DefaultServiceCAPath)"

definition obs_baseURL :: "ObservabilityClient \<Rightarrow> string" where
  "obs_baseURL ob = (if obs_ThanosHost ob \<noteq> [] then obs_ThanosHost ob else thanosQueryFrontend)"

text \<open>The state of a client: the world, and the client and error that \<^verbatim>\<open>clientOnce\<close> has stored.\<close>

type_synonym ('w, 'rt) obs_state = "'w \<times> (goerr + 'rt) option"

definition liftObs :: "('w, 'a) prog \<Rightarrow> (('w, 'rt) obs_state, 'a) prog" where
  "liftObs m s = (case m (fst s) of (r, w) \<Rightarrow> (r, (w, snd s)))"

definition obs_httpClient ::
    "('w, 'tc, 'rt) net \<Rightarrow> pem_lib \<Rightarrow> ObservabilityClient \<Rightarrow> (('w, 'rt) obs_state, 'rt) prog" where
  "obs_httpClient N P ob s =
     (case snd s of
        Some r \<Rightarrow> (r, s)
      | None \<Rightarrow> (case buildHTTPClient N P (obs_RestConfig ob) (obs_serviceCAPath ob) [obs_TLSOpts ob] (fst s) of
          (r, w) \<Rightarrow> (r, (w, Some r))))"

definition promRequest :: "ObservabilityClient \<Rightarrow> string \<Rightarrow> http_Request" where
  "promRequest ob promQL = \<lparr>hr_Method = ''GET'', hr_URL = obs_baseURL ob @ ''/api/v1/query'',
     hr_Query = [(''query'', promQL)], hr_Body = []\<rparr>"

definition query ::
    "('w, 'tc, 'rt) net \<Rightarrow> pem_lib \<Rightarrow> json_parser \<Rightarrow> ObservabilityClient \<Rightarrow> string \<Rightarrow>
     (('w, 'rt) obs_state, promResponse) prog" where
  "query N P parseJSON ob promQL =
     andThen (wrapErr (\<lambda>err. Errorf ''build HTTP client: %w'' [] (Some err)) (obs_httpClient N P ob)) (\<lambda>httpClient.
       case NewRequest_err N (obs_baseURL ob @ ''/api/v1/query'') of
         Some err \<Rightarrow> fail (Errorf ''build request: %w'' [] (Some err))
       | None \<Rightarrow>
           andThen (wrapErr (\<lambda>err. Errorf ''thanos query: %w'' [] (Some err))
               (liftObs (client_Do N httpClient (promRequest ob promQL)))) (\<lambda>resp.
             if hs_StatusCode resp \<noteq> 200
             then fail (Errorf ''thanos returned %d: %s'' [decimal (hs_StatusCode resp), hs_Body resp] None)
             else case sum_bind (parseJSON (hs_Body resp)) decodePromResponse of
               Inl err \<Rightarrow> fail (Errorf ''decode thanos response: %w'' [] (Some err))
             | Inr pr \<Rightarrow>
                 if pr_Status pr \<noteq> promStatusSuccess
                 then fail (Errorf ''thanos query failed: %s'' [pr_Error pr] None) else ret pr))"

definition CheckHealth ::
    "('w, 'tc, 'rt) net \<Rightarrow> pem_lib \<Rightarrow> json_parser \<Rightarrow> ObservabilityClient \<Rightarrow> (('w, 'rt) obs_state, unit) prog" where
  "CheckHealth N P parseJSON ob =
     andThen (wrapErr (\<lambda>err. Errorf ''observability endpoint unhealthy: %w'' [] (Some err)) (query N P parseJSON ob ''up''))
       (\<lambda>_. ret ())"

section \<open>Node metrics\<close>

type_synonym nodeKey = "string \<times> string"

definition rowKey :: "prom_row \<Rightarrow> nodeKey" where
  "rowKey row = (map_get (row_Metric row) ''cluster'', map_get (row_Metric row) ''node'')"

text \<open>\<open>fn\<close> is the closure passed to \<^verbatim>\<open>applyMetric\<close>, acting on the variables it captures.\<close>

definition applyMetric ::
    "go_arch \<Rightarrow> float_parse \<Rightarrow> promResponse option \<Rightarrow> nodeKey set \<Rightarrow> (nodeKey \<Rightarrow> f64 \<Rightarrow> 's \<Rightarrow> 's) \<Rightarrow> 's \<Rightarrow> 's" where
  "applyMetric A PF resp schedulableSet fn s =
     (case resp of
        None \<Rightarrow> s
      | Some pr \<Rightarrow> fold (\<lambda>row s.
          let k = rowKey row in
          if k \<notin> schedulableSet then s
          else case metricValue A PF (row_Value row) of Inl _ \<Rightarrow> s | Inr val \<Rightarrow> fn k val s) (pr_Result pr) s)"

type_synonym node_map = "nodeKey \<rightharpoonup> NodeMetrics"

definition updateNode :: "nodeKey \<Rightarrow> (NodeMetrics \<Rightarrow> NodeMetrics) \<Rightarrow> node_map \<Rightarrow> node_map" where
  "updateNode k f nodeMap = (case nodeMap k of None \<Rightarrow> nodeMap | Some nm \<Rightarrow> nodeMap(k \<mapsto> f nm))"

definition applySNOMetric ::
    "go_arch \<Rightarrow> float_parse \<Rightarrow> promResponse option \<Rightarrow> string set \<Rightarrow> (string \<rightharpoonup> string list) \<Rightarrow>
     (NodeMetrics \<Rightarrow> f64 \<Rightarrow> NodeMetrics) \<Rightarrow> node_map \<Rightarrow> node_map" where
  "applySNOMetric A PF resp covered clusterNodes fn nodeMap =
     (case resp of
        None \<Rightarrow> nodeMap
      | Some pr \<Rightarrow> fold (\<lambda>row nodeMap.
          let cluster = map_get (row_Metric row) ''cluster'' in
          if cluster \<in> covered then nodeMap
          else case clusterNodes cluster of
            None \<Rightarrow> nodeMap
          | Some nodes \<Rightarrow>
              if length nodes \<noteq> 1 then nodeMap
              else case metricValue A PF (row_Value row) of
                Inl _ \<Rightarrow> nodeMap
              | Inr val \<Rightarrow> fold (\<lambda>node. updateNode (cluster, node) (\<lambda>nm. fn nm val)) nodes nodeMap)
          (pr_Result pr) nodeMap)"

record nodeMetricResponses =
  qr_cpuAlloc :: "promResponse option"
  qr_memAlloc :: "promResponse option"
  qr_cpuReq :: "promResponse option"
  qr_cpuReqSNO :: "promResponse option"
  qr_memReq :: "promResponse option"
  qr_memReqSNO :: "promResponse option"

definition dq :: string where
  "dq = [CHR 0x22]"

text \<open>The six queries: the prefix of the error, the query, and the field that takes the response.\<close>

definition nodeQueries ::
    "(string \<times> string \<times> (promResponse \<Rightarrow> nodeMetricResponses \<Rightarrow> nodeMetricResponses)) list" where
  "nodeQueries =
     [(''CPU allocatable: %w'', ''kube_node_status_allocatable{resource='' @ dq @ ''cpu'' @ dq @ ''}'',
         \<lambda>r res. res\<lparr>qr_cpuAlloc := Some r\<rparr>),
      (''memory allocatable: %w'', ''kube_node_status_allocatable{resource='' @ dq @ ''memory'' @ dq @ ''}'',
         \<lambda>r res. res\<lparr>qr_memAlloc := Some r\<rparr>),
      (''CPU requests per node: %w'',
         ''sum by(cluster, node)(kube_pod_container_resource_requests{resource='' @ dq @ ''cpu'' @ dq @ ''})'',
         \<lambda>r res. res\<lparr>qr_cpuReq := Some r\<rparr>),
      (''SNO CPU requests: %w'',
         ''sum by(cluster)(kube_pod_container_resource_requests:sum{resource='' @ dq @ ''cpu'' @ dq @ ''})'',
         \<lambda>r res. res\<lparr>qr_cpuReqSNO := Some r\<rparr>),
      (''memory requests per node: %w'',
         ''sum by(cluster, node)(kube_pod_container_resource_requests{resource='' @ dq @ ''memory'' @ dq @ ''})'',
         \<lambda>r res. res\<lparr>qr_memReq := Some r\<rparr>),
      (''SNO memory requests: %w'',
         ''sum by(cluster)(kube_pod_container_resource_requests:sum{resource='' @ dq @ ''memory'' @ dq @ ''})'',
         \<lambda>r res. res\<lparr>qr_memReqSNO := Some r\<rparr>)]"

text \<open>The goroutines of the group in the order of their completion; the group keeps the first error.\<close>

fun runGroup ::
    "(string \<Rightarrow> ('s, promResponse) prog) \<Rightarrow> nat list \<Rightarrow> goerr option \<Rightarrow> nodeMetricResponses \<Rightarrow> 's \<Rightarrow>
     (goerr + nodeMetricResponses) \<times> 's" where
  "runGroup q [] err res s = ((case err of Some e \<Rightarrow> Inl e | None \<Rightarrow> Inr res), s)"
| "runGroup q (i # order) err res s =
     (case nodeQueries ! i of (msg, promQL, store) \<Rightarrow>
        (case q promQL s of
           (Inl e, s') \<Rightarrow> runGroup q order (case err of None \<Rightarrow> Some (Errorf msg [] (Some e)) | Some _ \<Rightarrow> err) res s'
         | (Inr r, s') \<Rightarrow> runGroup q order err (store r res) s'))"

definition runParallelNodeQueries ::
    "(string \<Rightarrow> ('s, promResponse) prog) \<Rightarrow> nat list \<Rightarrow> ('s, nodeMetricResponses) prog" where
  "runParallelNodeQueries q order =
     wrapErr (\<lambda>err. Errorf ''parallel Thanos queries: %w'' [] (Some err))
       (runGroup q order None \<lparr>qr_cpuAlloc = None, qr_memAlloc = None, qr_cpuReq = None, qr_cpuReqSNO = None,
          qr_memReq = None, qr_memReqSNO = None\<rparr>)"

definition schedulableQuery :: string where
  "schedulableQuery =
     [CHR 0x0A] @ ''max by(cluster, node)(kube_node_labels{label_kubevirt_io_schedulable='' @ dq @ ''true'' @ dq @ ''})''
     @ [CHR 0x0A] @ ''  unless on(cluster, node) (kube_node_spec_unschedulable == 1)''
     @ [CHR 0x0A] @ ''  unless on(cluster, node) (kube_node_status_condition{condition='' @ dq @ ''Ready'' @ dq
     @ '',status='' @ dq @ ''true'' @ dq @ ''} == 0)''"

record sched_nodes =
  sn_schedulableSet :: "nodeKey set"
  sn_clusterNodes :: "string \<rightharpoonup> string list"
  sn_nodeMap :: node_map

definition newNode :: "string \<Rightarrow> NodeMetrics" where
  "newNode node = \<lparr>nm_NodeName = node, nm_AllocatableCPUCores = Fin 0, nm_AllocatableMemBytes = 0,
     nm_RequestedCPUCores = Fin 0, nm_RequestedMemBytes = 0\<rparr>"

definition addSchedulable :: "prom_row \<Rightarrow> sched_nodes \<Rightarrow> sched_nodes" where
  "addSchedulable row sn =
     (case rowKey row of (cluster, node) \<Rightarrow>
        if cluster = [] \<or> node = [] then sn
        else \<lparr>sn_schedulableSet = insert (cluster, node) (sn_schedulableSet sn),
              sn_clusterNodes = (sn_clusterNodes sn)(cluster \<mapsto>
                (case sn_clusterNodes sn cluster of None \<Rightarrow> [] | Some ns \<Rightarrow> ns) @ [node]),
              sn_nodeMap = (sn_nodeMap sn)((cluster, node) \<mapsto> newNode node)\<rparr>)"

definition schedulableNodes :: "prom_row list \<Rightarrow> sched_nodes" where
  "schedulableNodes rows =
     fold addSchedulable rows \<lparr>sn_schedulableSet = {}, sn_clusterNodes = Map.empty, sn_nodeMap = Map.empty\<rparr>"

text \<open>Merging the responses into the map of the nodes; the per-node requests also collect the
  clusters they cover.\<close>

definition mergeNodeMetrics :: "go_arch \<Rightarrow> float_parse \<Rightarrow> sched_nodes \<Rightarrow> nodeMetricResponses \<Rightarrow> node_map" where
  "mergeNodeMetrics A PF sn qr =
     (let S = sn_schedulableSet sn;
          m = applyMetric A PF (qr_cpuAlloc qr) S (\<lambda>k v. updateNode k (\<lambda>nm. nm\<lparr>nm_AllocatableCPUCores := v\<rparr>)) (sn_nodeMap sn);
          m = applyMetric A PF (qr_memAlloc qr) S
                (\<lambda>k v. updateNode k (\<lambda>nm. nm\<lparr>nm_AllocatableMemBytes := f_to_i64 A v\<rparr>)) m;
          (m, cpuReqCovered) = applyMetric A PF (qr_cpuReq qr) S
                (\<lambda>k v (m, covered). (updateNode k (\<lambda>nm. nm\<lparr>nm_RequestedCPUCores := v\<rparr>) m, insert (fst k) covered)) (m, {});
          (m, memReqCovered) = applyMetric A PF (qr_memReq qr) S
                (\<lambda>k v (m, covered). (updateNode k (\<lambda>nm. nm\<lparr>nm_RequestedMemBytes := f_to_i64 A v\<rparr>) m, insert (fst k) covered)) (m, {});
          m = applySNOMetric A PF (qr_cpuReqSNO qr) cpuReqCovered (sn_clusterNodes sn)
                (\<lambda>nm v. nm\<lparr>nm_RequestedCPUCores := v\<rparr>) m
      in applySNOMetric A PF (qr_memReqSNO qr) memReqCovered (sn_clusterNodes sn)
           (\<lambda>nm v. nm\<lparr>nm_RequestedMemBytes := f_to_i64 A v\<rparr>) m)"

definition assembleNodes :: "node_map \<Rightarrow> nodeKey list \<Rightarrow> ClusterNodeMetrics" where
  "assembleNodes nodeMap order =
     fold (\<lambda>k result. case nodeMap k of
        None \<Rightarrow> result
      | Some nm \<Rightarrow> result(fst k \<mapsto> (case result (fst k) of None \<Rightarrow> [] | Some ns \<Rightarrow> ns) @ [nm])) order Map.empty"

text \<open>\<open>order\<close> is the order in which the parallel queries complete, \<open>rng\<close> the order of the range
  over the map of the nodes.\<close>

definition FetchNodeMetrics ::
    "go_arch \<Rightarrow> float_parse \<Rightarrow> (string \<Rightarrow> ('s, promResponse) prog) \<Rightarrow> nat list \<Rightarrow> (node_map \<Rightarrow> nodeKey list) \<Rightarrow>
     ('s, ClusterNodeMetrics) prog" where
  "FetchNodeMetrics A PF q order rng =
     andThen (wrapErr (\<lambda>err. Errorf ''query schedulable nodes: %w'' [] (Some err)) (q schedulableQuery)) (\<lambda>schedulableResp.
       let sn = schedulableNodes (pr_Result schedulableResp)
       in andThen (runParallelNodeQueries q order) (\<lambda>qr.
            let nodeMap = mergeNodeMetrics A PF sn qr in ret (assembleNodes nodeMap (rng nodeMap))))"

section \<open>Ceph metrics\<close>

definition cephRow ::
    "go_arch \<Rightarrow> float_parse \<Rightarrow> (CephMetrics \<Rightarrow> i64 \<Rightarrow> CephMetrics) \<Rightarrow> prom_row \<Rightarrow> (string \<rightharpoonup> CephMetrics) \<Rightarrow>
     (string \<rightharpoonup> CephMetrics)" where
  "cephRow A PF set_bytes row out =
     (let cluster = map_get (row_Metric row) ''cluster'' in
      if cluster = [] then out
      else case metricValue A PF (row_Value row) of
        Inl _ \<Rightarrow> out
      | Inr val \<Rightarrow>
          let m = (case out cluster of None \<Rightarrow> CephMetrics_zero | Some m \<Rightarrow> m)
          in out(cluster \<mapsto> set_bytes m (f_to_i64 A val)))"

definition FetchCephMetrics ::
    "go_arch \<Rightarrow> float_parse \<Rightarrow> (string \<Rightarrow> ('s, promResponse) prog) \<Rightarrow> ('s, string \<rightharpoonup> CephMetrics) prog" where
  "FetchCephMetrics A PF q =
     andThen (wrapErr (\<lambda>err. Errorf ''query ceph total bytes: %w'' [] (Some err)) (q ''ceph_cluster_total_bytes'')) (\<lambda>totalResp.
       let out = fold (cephRow A PF (\<lambda>m b. m\<lparr>ceph_TotalBytes := b\<rparr>)) (pr_Result totalResp) Map.empty
       in andThen (wrapErr (\<lambda>err. Errorf ''query ceph available bytes: %w'' [] (Some err))
              (q ''ceph_cluster_total_avail_bytes'')) (\<lambda>availResp.
            ret (fold (cephRow A PF (\<lambda>m b. m\<lparr>ceph_AvailableBytes := b\<rparr>)) (pr_Result availResp) out)))"

end
