(* ===== verification/Handler.thy ===== *)
theory Handler
  imports Rbac VmFetcher Scorer Search Observability
begin

text \<open>
  The HTTP handler of the migration advisor: \<^verbatim>\<open>controllers/migrationadvisor/handler.go\<close>.

  The state of the handler is the world and the cache. What is not the program's own is gathered
  in the record \<open>advisor_env\<close> (the network, the clients, the clock, the platform); the record
  \<open>schedule\<close> holds the orders that the Go runtime is free to choose. The Search client may
  not return, so everything that calls it has an optional result. This theory runs one request,
  with what others do meanwhile as a parameter; several at a time, with the cache and the shared
  refresh, are in \<open>SnapshotRefresh\<close>.
\<close>

section \<open>The cache\<close>

record clusterSnapshot =
  snap_nodes :: ClusterNodeMetrics
  snap_ceph :: "string \<rightharpoonup> CephMetrics"
  snap_scs :: class_map

text \<open>Times are in nanoseconds; a cache that was never filled has the zero time of Go.\<close>

record clusterDataCache =
  cc_nodeData :: ClusterNodeMetrics
  cc_cephData :: "string \<rightharpoonup> CephMetrics"
  cc_scData :: class_map
  cc_ttl :: int
  cc_expiresAt :: int

definition zero_time :: int where
  "zero_time = - 62135596800000000000"

definition emptyCache :: clusterDataCache where
  "emptyCache = \<lparr>cc_nodeData = Map.empty, cc_cephData = Map.empty, cc_scData = Map.empty, cc_ttl = 0,
     cc_expiresAt = zero_time\<rparr>"

definition defaultCacheTTL :: int where
  "defaultCacheTTL = 30000000000"

definition cache_get :: "int \<Rightarrow> clusterDataCache \<Rightarrow> clusterSnapshot option" where
  "cache_get now c =
     (if now < cc_expiresAt c
      then Some \<lparr>snap_nodes = cc_nodeData c, snap_ceph = cc_cephData c, snap_scs = cc_scData c\<rparr> else None)"

definition cache_set :: "int \<Rightarrow> clusterSnapshot \<Rightarrow> clusterDataCache \<Rightarrow> clusterDataCache" where
  "cache_set now s c =
     (let ttl = (if cc_ttl c \<le> 0 then defaultCacheTTL else cc_ttl c)
      in c\<lparr>cc_nodeData := snap_nodes s, cc_cephData := snap_ceph s, cc_scData := snap_scs s,
           cc_expiresAt := now + ttl\<rparr>)"

section \<open>The handler and its environment\<close>

record 'w handler =
  h_RestConfig :: rest_Config
  h_SearchAPIEndpoint :: string
  h_ResolveSearchAPIEndpoint :: "('w, string) prog option"
  h_ThanosHost :: string
  h_ServiceCAPath :: string
  h_CacheTTL :: int
  h_TLSOpts :: "(tls_Config \<Rightarrow> tls_Config) option"

record 'w hstate =
  hst_world :: 'w
  hst_cache :: clusterDataCache

text \<open>\<open>env_Do\<close> is what the group \<^verbatim>\<open>refreshGroup\<close> decides for a caller of \<^verbatim>\<open>Do\<close>: the result of a call in
  flight, which it has waited for, or to run its function. Until then the clock goes on and
  other requests may fill the cache.\<close>

record ('w, 'tc, 'rt, 'c) advisor_env =
  env_net :: "('w, 'tc, 'rt) net"
  env_pem :: pem_lib
  env_json :: json_parser
  env_arch :: go_arch
  env_ParseFloat :: float_parse
  env_unstr :: unstr
  env_clients :: "('w, 'c) wh_api"
  env_Getenv :: "string \<Rightarrow> string"
  env_mcv :: "'w mcv_api"
  env_listMC :: "string \<Rightarrow> ('w, json list) prog"
  env_sort_Slice :: "CandidateCluster sorter"
  env_now :: "'w \<Rightarrow> int"
  env_Do :: "'w hstate \<Rightarrow> (goerr + clusterSnapshot) option \<times> 'w hstate"

record schedule =
  sch_pvcs :: "volumeEntry list \<Rightarrow> nat list"
  sch_queries :: "nat list"
  sch_nodes :: "node_map \<Rightarrow> nodeKey list"
  sch_refresh :: "nat list"
  sch_classes :: "class_map \<Rightarrow> string list"
  sch_vmFirst :: bool

section \<open>Fetching the data of the clusters\<close>

definition listEligibleManagedClusters :: "(string \<Rightarrow> ('w, json list) prog) \<Rightarrow> ('w, string set) prog" where
  "listEligibleManagedClusters listMC =
     andThen (wrapErr (\<lambda>err. Errorf ''list managed clusters with %s=true: %w'' [cnvOperatorInstallLabel] (Some err))
         (listMC (cnvOperatorInstallLabel @ ''=true'')))
       (\<lambda>items. ret (set (filter (\<lambda>n. n \<noteq> []) (map GetName items))))"

definition filterClusterSCsByEligibility :: "class_map \<Rightarrow> string set \<Rightarrow> class_map" where
  "filterClusterSCsByEligibility clusterSCs eligible = clusterSCs |` eligible"

text \<open>What the three goroutines of a refresh write; a map that was not written is nil, which reads
  as empty. The group keeps the first error.\<close>

record refresh =
  rf_nodes :: ClusterNodeMetrics
  rf_ceph :: "string \<rightharpoonup> CephMetrics"
  rf_scs :: class_map
  rf_err :: "goerr option"

definition group_err :: "goerr \<Rightarrow> refresh \<Rightarrow> refresh" where
  "group_err e rf = (case rf_err rf of None \<Rightarrow> rf\<lparr>rf_err := Some e\<rparr> | Some _ \<Rightarrow> rf)"

definition obsClient :: "'w handler \<Rightarrow> ObservabilityClient" where
  "obsClient h = \<lparr>obs_RestConfig = h_RestConfig h, obs_ThanosHost = h_ThanosHost h,
     obs_ServiceCAPath = h_ServiceCAPath h, obs_TLSOpts = h_TLSOpts h\<rparr>"

definition searchClient :: "'w handler \<Rightarrow> string \<Rightarrow> SearchClient" where
  "searchClient h endpoint = \<lparr>sch_RestConfig = h_RestConfig h, sch_SearchAPIEndpoint = endpoint,
     sch_ServiceCAPath = h_ServiceCAPath h, sch_TLSOpts = h_TLSOpts h\<rparr>"

definition refreshTask ::
    "('w, 'tc, 'rt, 'c) advisor_env \<Rightarrow> schedule \<Rightarrow> 'w handler \<Rightarrow> string \<Rightarrow> nat \<Rightarrow> refresh \<times> ('w, 'rt) obs_state \<Rightarrow>
     (refresh \<times> ('w, 'rt) obs_state) option" where
  "refreshTask E sch h endpoint i st =
     (case st of (rf, s) \<Rightarrow>
        let q = query (env_net E) (env_pem E) (env_json E) (obsClient h) in
        if i = 0 then
          (case FetchNodeMetrics (env_arch E) (env_ParseFloat E) q (sch_queries sch) (sch_nodes sch) s of
             (Inl err, s') \<Rightarrow> Some (group_err (Errorf ''fetch node metrics: %w'' [] (Some err)) rf, s')
           | (Inr n, s') \<Rightarrow> Some (rf\<lparr>rf_nodes := n\<rparr>, s'))
        else if i = 1 then
          (case FetchCephMetrics (env_arch E) (env_ParseFloat E) q s of
             (Inl err, s') \<Rightarrow> Some (rf, s')
           | (Inr c, s') \<Rightarrow> Some (rf\<lparr>rf_ceph := c\<rparr>, s'))
        else
          (case ListStorageClassProvisionersByCluster (env_net E) (env_pem E) (env_json E) (searchClient h endpoint) (fst s) of
             None \<Rightarrow> None
           | Some (Inl err, w) \<Rightarrow> Some (group_err err rf, (w, snd s))
           | Some (Inr m, w) \<Rightarrow> Some (rf\<lparr>rf_scs := m\<rparr>, (w, snd s))))"

fun runRefresh ::
    "('w, 'tc, 'rt, 'c) advisor_env \<Rightarrow> schedule \<Rightarrow> 'w handler \<Rightarrow> string \<Rightarrow> nat list \<Rightarrow> refresh \<times> ('w, 'rt) obs_state \<Rightarrow>
     (refresh \<times> ('w, 'rt) obs_state) option" where
  "runRefresh E sch h endpoint [] st = Some st"
| "runRefresh E sch h endpoint (i # order) st =
     Option.bind (refreshTask E sch h endpoint i st) (runRefresh E sch h endpoint order)"

definition resolveEndpoint :: "'w handler \<Rightarrow> ('w, string) prog" where
  "resolveEndpoint h =
     (if h_SearchAPIEndpoint h = [] then
        (case h_ResolveSearchAPIEndpoint h of
           None \<Rightarrow> ret (h_SearchAPIEndpoint h)
         | Some resolve \<Rightarrow> wrapErr (\<lambda>err. Errorf ''resolve Search API endpoint: %w'' [] (Some err)) resolve)
      else ret (h_SearchAPIEndpoint h))"

definition emptyRefresh :: refresh where
  "emptyRefresh = \<lparr>rf_nodes = Map.empty, rf_ceph = Map.empty, rf_scs = Map.empty, rf_err = None\<rparr>"

text \<open>The part after the group: no nodes is an error, the classes are cut down to the eligible clusters.\<close>

definition finishRefresh ::
    "('w, 'tc, 'rt, 'c) advisor_env \<Rightarrow> refresh \<Rightarrow> ('w, clusterSnapshot) prog" where
  "finishRefresh E rf =
     (case rf_err rf of
        Some err \<Rightarrow> fail err
      | None \<Rightarrow>
          if rf_nodes rf = Map.empty then fail (Errorf ''node metrics unavailable: fetched 0 nodes'' [] None)
          else andThen (listEligibleManagedClusters (env_listMC E)) (\<lambda>eligible.
            ret \<lparr>snap_nodes = rf_nodes rf, snap_ceph = rf_ceph rf,
                 snap_scs = filterClusterSCsByEligibility (rf_scs rf) eligible\<rparr>))"

definition fetchFreshClusterData ::
    "('w, 'tc, 'rt, 'c) advisor_env \<Rightarrow> schedule \<Rightarrow> 'w handler \<Rightarrow> 'w hstate \<Rightarrow>
     ((goerr + clusterSnapshot) \<times> 'w hstate) option" where
  "fetchFreshClusterData E sch h s =
     (case resolveEndpoint h (hst_world s) of
        (Inl err, w) \<Rightarrow> Some (Inl err, s\<lparr>hst_world := w\<rparr>)
      | (Inr endpoint, w) \<Rightarrow>
          (case runRefresh E sch h endpoint (sch_refresh sch) (emptyRefresh, (w, None)) of
             None \<Rightarrow> None
           | Some (rf, (w, _)) \<Rightarrow>
               (case finishRefresh E rf w of
                  (Inl err, w) \<Rightarrow> Some (Inl err, s\<lparr>hst_world := w\<rparr>)
                | (Inr snap, w) \<Rightarrow>
                    Some (Inr snap, \<lparr>hst_world = w, hst_cache = cache_set (env_now E w) snap (hst_cache s)\<rparr>))))"

definition getClusterSnapshot ::
    "('w, 'tc, 'rt, 'c) advisor_env \<Rightarrow> schedule \<Rightarrow> 'w handler \<Rightarrow> 'w hstate \<Rightarrow>
     ((goerr + clusterSnapshot) \<times> 'w hstate) option" where
  "getClusterSnapshot E sch h s =
     (let s = s\<lparr>hst_cache := (hst_cache s)\<lparr>cc_ttl := h_CacheTTL h\<rparr>\<rparr>
      in case cache_get (env_now E (hst_world s)) (hst_cache s) of
           Some snap \<Rightarrow> Some (Inr snap, s)
         | None \<Rightarrow>
             (case env_Do E s of
                (Some shared, s) \<Rightarrow> Some (shared, s)
              | (None, s) \<Rightarrow>
                  (case cache_get (env_now E (hst_world s)) (hst_cache s) of
                     Some snap \<Rightarrow> Some (Inr snap, s)
                   | None \<Rightarrow> fetchFreshClusterData E sch h s)))"

section \<open>Evaluation\<close>

definition recommend :: "CandidateCluster list \<Rightarrow> Recommendation option" where
  "recommend candidates =
     (case candidates of
        [] \<Rightarrow> None
      | best # _ \<Rightarrow> Some \<lparr>rec_Cluster = cand_Cluster best, rec_Node = cand_BestNode best,
           rec_TotalScore = cand_TotalScore best, rec_AvailableCPUCores = cand_AvailableCPUCores best,
           rec_AvailableMemoryBytes = cand_AvailableMemoryBytes best, rec_StorageType = cand_StorageType best,
           rec_CephAvailableBytes = cand_CephAvailableBytes best\<rparr>)"

definition branchVM ::
    "('w, 'tc, 'rt, 'c) advisor_env \<Rightarrow> schedule \<Rightarrow> MigrationTargetRequest \<Rightarrow> 'w hstate \<Rightarrow>
     (goerr + SourceVMInfo) \<times> 'w hstate" where
  "branchVM E sch req s =
     (case FetchVMInfo (env_arch E) (env_ParseFloat E) (env_mcv E) (env_unstr E) (sch_pvcs sch) req (hst_world s) of
        (r, w) \<Rightarrow> (r, s\<lparr>hst_world := w\<rparr>))"

text \<open>The two branches; both always run to their end.\<close>

definition runBranches ::
    "('w, 'tc, 'rt, 'c) advisor_env \<Rightarrow> schedule \<Rightarrow> 'w handler \<Rightarrow> MigrationTargetRequest \<Rightarrow> 'w hstate \<Rightarrow>
     ((goerr + SourceVMInfo) \<times> (goerr + clusterSnapshot) \<times> 'w hstate) option" where
  "runBranches E sch h req s =
     (if sch_vmFirst sch then
        (case branchVM E sch req s of (vm, s) \<Rightarrow>
           map_option (\<lambda>(snap, s). (vm, snap, s)) (getClusterSnapshot E sch h s))
      else
        (case getClusterSnapshot E sch h s of
           None \<Rightarrow> None
         | Some (snap, s) \<Rightarrow> (case branchVM E sch req s of (vm, s) \<Rightarrow> Some (vm, snap, s))))"

definition scoreResponse ::
    "('w, 'tc, 'rt, 'c) advisor_env \<Rightarrow> schedule \<Rightarrow> SourceVMInfo \<Rightarrow> clusterSnapshot \<Rightarrow> MigrationTargetResponse" where
  "scoreResponse E sch sourceVM snapshot =
     (case Score (env_arch E) (env_sort_Slice E) (sch_classes sch (snap_scs snapshot))
             \<lparr>in_SourceVM = sourceVM, in_ClusterSCs = snap_scs snapshot, in_NodeMetrics = snap_nodes snapshot,
              in_CephMetrics = snap_ceph snapshot\<rparr> of
        (candidates, excluded) \<Rightarrow>
          \<lparr>resp_SourceVM = sourceVM, resp_Recommendation = recommend candidates, resp_Candidates = candidates,
           resp_ExcludedClusters = excluded\<rparr>)"

definition evaluate ::
    "('w, 'tc, 'rt, 'c) advisor_env \<Rightarrow> schedule \<Rightarrow> 'w handler \<Rightarrow> MigrationTargetRequest \<Rightarrow> 'w hstate \<Rightarrow>
     ((goerr + MigrationTargetResponse) \<times> 'w hstate) option" where
  "evaluate E sch h req s =
     map_option (\<lambda>(vm, snap, s).
       (case vm of
          Inl vmErr \<Rightarrow> (case asVMNotFound vmErr of Some vmNotFound \<Rightarrow> Inl vmNotFound | None \<Rightarrow> Inl vmErr)
        | Inr sourceVM \<Rightarrow> (case snap of
             Inl snapErr \<Rightarrow> Inl snapErr
           | Inr snapshot \<Rightarrow> Inr (scoreResponse E sch sourceVM snapshot)), s))
       (runBranches E sch h req s)"

section \<open>ServeHTTP\<close>

record api_request =
  api_Method :: string
  api_Query :: "string \<Rightarrow> string"
  api_Authorization :: string

text \<open>The body of a reply: a text, the text of an error, a response in JSON, or nothing.\<close>

datatype reply_body = BText string | BErr goerr | BJson MigrationTargetResponse | BNone

record reply =
  rp_StatusCode :: nat
  rp_Body :: reply_body

definition http_Error :: "reply_body \<Rightarrow> nat \<Rightarrow> reply" where
  "http_Error b code = \<lparr>rp_StatusCode = code, rp_Body = b\<rparr>"

fun is_finite :: "f64 \<Rightarrow> bool" where
  "is_finite (Fin _) = True"
| "is_finite _ = False"

text \<open>\<^verbatim>\<open>encoding/json\<close> has no representation of infinities and NaN: the encoder returns an error
  before it writes.\<close>

definition cand_encodes :: "CandidateCluster \<Rightarrow> bool" where
  "cand_encodes c \<longleftrightarrow> list_all is_finite
     [cand_TotalScore c, cand_CPUScore c, cand_MemoryScore c, cand_StorageScore c, cand_AvailableCPUCores c]"

definition response_encodes :: "MigrationTargetResponse \<Rightarrow> bool" where
  "response_encodes r \<longleftrightarrow> list_all cand_encodes (resp_Candidates r) \<and>
     (case resp_Recommendation r of None \<Rightarrow> True | Some rc \<Rightarrow> list_all is_finite [rec_TotalScore rc, rec_AvailableCPUCores rc])"

definition encodeReply :: "MigrationTargetResponse \<Rightarrow> reply" where
  "encodeReply resp = \<lparr>rp_StatusCode = 200, rp_Body = (if response_encodes resp then BJson resp else BNone)\<rparr>"

definition bearerToken :: "string \<Rightarrow> string option" where
  "bearerToken header =
     (case Fields header of
        [scheme, token] \<Rightarrow> if EqualFold scheme ''Bearer'' \<and> token \<noteq> [] then Some token else None
      | _ \<Rightarrow> None)"

definition parseRequest :: "api_request \<Rightarrow> MigrationTargetRequest" where
  "parseRequest r = \<lparr>req_VMNamespace = api_Query r ''vmNamespace'', req_VMName = api_Query r ''vmName'',
     req_ClusterName = api_Query r ''cluster''\<rparr>"

definition evaluateReply :: "goerr + MigrationTargetResponse \<Rightarrow> reply" where
  "evaluateReply r =
     (case r of
        Inr resp \<Rightarrow> encodeReply resp
      | Inl err \<Rightarrow> (case asVMNotFound err of
          Some _ \<Rightarrow> http_Error (BErr err) 400
        | None \<Rightarrow> http_Error (BText ''Internal Server Error'') 500))"

definition ServeHTTP ::
    "('w, 'tc, 'rt, 'c) advisor_env \<Rightarrow> schedule \<Rightarrow> 'w handler \<Rightarrow> api_request \<Rightarrow> 'w hstate \<Rightarrow> (reply \<times> 'w hstate) option" where
  "ServeHTTP E sch h r s =
     (if api_Method r \<noteq> ''GET'' then Some (http_Error (BText ''method not allowed'') 405, s)
      else let req = parseRequest r in
        if req_VMNamespace req = [] \<or> req_VMName req = [] \<or> req_ClusterName req = []
        then Some (http_Error (BText ''vmNamespace, vmName, and cluster query parameters are required'') 400, s)
        else case bearerToken (api_Authorization r) of
          None \<Rightarrow> Some (http_Error (BText ''authorization required'') 401, s)
        | Some token \<Rightarrow>
            (case checkCallerAuthorized (env_clients E) (env_unstr E) (env_Getenv E) (env_listMC E) (h_RestConfig h) token
                    (hst_world s) of
               (Inl err, w) \<Rightarrow>
                 Some (if IsUnauthorized err then http_Error (BText ''authorization required'') 401
                       else http_Error (BText ''Internal Server Error'') 500, s\<lparr>hst_world := w\<rparr>)
             | (Inr False, w) \<Rightarrow>
                 Some (http_Error (BText ''forbidden: requires acm-vm-fleet:admin or cluster-admin for all CNV clusters'') 403,
                   s\<lparr>hst_world := w\<rparr>)
             | (Inr True, w) \<Rightarrow>
                 map_option (\<lambda>(res, s). (evaluateReply res, s)) (evaluate E sch h req (s\<lparr>hst_world := w\<rparr>))))"

end
