(* ===== verification/ObservabilityProps.thy ===== *)
theory ObservabilityProps
  imports Observability Scorer "HOL-Library.List_Lexorder" "HOL-Library.Product_Lexorder" "HOL-Library.Char_ord"
begin

text \<open>
  Properties of the metrics: a declarative specification of what the advisor knows of a node and
  of the Ceph storage of a cluster, and the proof that merging the responses computes it.
\<close>

section \<open>Samples\<close>

definition last_opt :: "'a list \<Rightarrow> 'a option" where
  "last_opt xs = (if xs = [] then None else Some (last xs))"

lemma last_opt_simps [simp]: "last_opt [] = None" "last_opt (xs @ [x]) = Some x"
  by (simp_all add: last_opt_def)

definition resp_rows :: "promResponse option \<Rightarrow> prom_row list" where
  "resp_rows resp = (case resp of None \<Rightarrow> [] | Some pr \<Rightarrow> pr_Result pr)"

text \<open>The values of the rows that satisfy \<open>p\<close> and hold a number.\<close>

definition samples :: "go_arch \<Rightarrow> float_parse \<Rightarrow> (prom_row \<Rightarrow> bool) \<Rightarrow> prom_row list \<Rightarrow> f64 list" where
  "samples A PF p rows =
     List.map_filter (\<lambda>row. if p row then (case metricValue A PF (row_Value row) of Inl _ \<Rightarrow> None | Inr v \<Rightarrow> Some v) else None) rows"

lemma samples_snoc:
  "samples A PF p (rows @ [row]) = samples A PF p rows @
     (if p row then (case metricValue A PF (row_Value row) of Inl _ \<Rightarrow> [] | Inr v \<Rightarrow> [v]) else [])"
  by (simp add: samples_def List.map_filter_def split: sum.split)

lemma samples_Nil [simp]: "samples A PF p [] = []"
  by (simp add: samples_def List.map_filter_def)

definition row_cluster :: "prom_row \<Rightarrow> string" where
  "row_cluster row = map_get (row_Metric row) ''cluster''"

lemma fst_rowKey [simp]: "fst (rowKey row) = row_cluster row"
  by (simp add: rowKey_def row_cluster_def)

definition overwrite :: "(f64 \<Rightarrow> 'a \<Rightarrow> 'a) \<Rightarrow> f64 list \<Rightarrow> 'a \<Rightarrow> 'a" where
  "overwrite upd vs x = (case last_opt vs of None \<Rightarrow> x | Some v \<Rightarrow> upd v x)"

lemma overwrite_simps [simp]:
  "overwrite upd [] x = x" "overwrite upd (vs @ [v]) x = upd v x"
  by (simp_all add: overwrite_def)

lemma overwrite_twice:
  "(\<And>v v' x. upd v (upd v' x) = upd v x) \<Longrightarrow> upd v (overwrite upd vs x) = upd v x"
  by (simp add: overwrite_def split: option.split)

section \<open>The loops\<close>

lemma updateNode_apply: "updateNode k f m k' = (if k' = k then map_option f (m k) else m k')"
  by (simp add: updateNode_def split: option.split)

definition metric_step ::
    "go_arch \<Rightarrow> float_parse \<Rightarrow> nodeKey set \<Rightarrow> (nodeKey \<Rightarrow> f64 \<Rightarrow> 's \<Rightarrow> 's) \<Rightarrow> prom_row \<Rightarrow> 's \<Rightarrow> 's" where
  "metric_step A PF S fn row s =
     (if rowKey row \<notin> S then s
      else case metricValue A PF (row_Value row) of Inl _ \<Rightarrow> s | Inr val \<Rightarrow> fn (rowKey row) val s)"

lemma applyMetric_rows: "applyMetric A PF resp S fn s = fold (metric_step A PF S fn) (resp_rows resp) s"
  by (simp add: applyMetric_def resp_rows_def metric_step_def [abs_def] Let_def split: option.split)

lemma metric_step_node:
  "metric_step A PF S (\<lambda>k v. updateNode k (upd v)) row m k =
     (if k \<in> S \<and> rowKey row = k
      then map_option (\<lambda>x. case metricValue A PF (row_Value row) of Inl _ \<Rightarrow> x | Inr v \<Rightarrow> upd v x) (m k) else m k)"
  by (cases "m k") (auto simp: metric_step_def updateNode_apply split: sum.split)

lemma metric_fold_node:
  assumes upd: "\<And>v v' nm. upd v (upd v' nm) = upd v nm"
  shows "fold (metric_step A PF S (\<lambda>k v. updateNode k (upd v))) rows m k =
    (if k \<in> S then map_option (overwrite upd (samples A PF (\<lambda>row. rowKey row = k) rows)) (m k) else m k)"
proof (induction rows rule: rev_induct)
  case Nil
  then show ?case by (cases "m k") simp_all
next
  case (snoc row rows)
  define F where "F = fold (metric_step A PF S (\<lambda>k v. updateNode k (upd v))) rows m"
  have "fold (metric_step A PF S (\<lambda>k v. updateNode k (upd v))) (rows @ [row]) m k =
      metric_step A PF S (\<lambda>k v. updateNode k (upd v)) row F k"
    by (simp add: F_def)
  then show ?case using snoc [folded F_def]
    by (cases "metricValue A PF (row_Value row)"; cases "m k")
      (auto simp: metric_step_node [of _ _ _ _ _ F] samples_snoc overwrite_twice [of upd, OF upd])
qed

lemmas applyMetric_node = metric_fold_node [where rows = "resp_rows resp" for resp, folded applyMetric_rows]

text \<open>The closures that also collect the covered clusters.\<close>

lemma metric_fold_covered:
  "fold (metric_step A PF S (\<lambda>k v (m, covered). (fn k v m, insert (fst k) covered))) rows (m, covered) =
     (fold (metric_step A PF S fn) rows m,
      covered \<union> {c. \<exists>n. (c, n) \<in> S \<and> samples A PF (\<lambda>row. rowKey row = (c, n)) rows \<noteq> []})"
proof (induction rows rule: rev_induct)
  case (snoc row rows)
  obtain c n where k: "rowKey row = (c, n)" by (cases "rowKey row")
  show ?case
    unfolding fold_append comp_apply fold_simps snoc samples_snoc metric_step_def [of _ _ _ _ row] k
    by (cases "metricValue A PF (row_Value row)") (auto simp: k)
qed simp

definition covered_clusters :: "go_arch \<Rightarrow> float_parse \<Rightarrow> nodeKey set \<Rightarrow> prom_row list \<Rightarrow> string set" where
  "covered_clusters A PF S rows = {c. \<exists>n. (c, n) \<in> S \<and> samples A PF (\<lambda>row. rowKey row = (c, n)) rows \<noteq> []}"

lemma applyMetric_covered:
  "applyMetric A PF resp S (\<lambda>k v (m, covered). (fn k v m, insert (fst k) covered)) (m, {}) =
     (applyMetric A PF resp S fn m, covered_clusters A PF S (resp_rows resp))"
  by (simp add: applyMetric_rows metric_fold_covered covered_clusters_def)

text \<open>The fallback for clusters with a single node.\<close>

lemma applySNO_node:
  assumes upd: "\<And>v v' nm. upd v (upd v' nm) = upd v nm"
  shows "applySNOMetric A PF resp covered cn (\<lambda>nm v. upd v nm) m k =
    (if fst k \<notin> covered \<and> cn (fst k) = Some [snd k]
     then map_option (overwrite upd (samples A PF (\<lambda>row. row_cluster row = fst k) (resp_rows resp))) (m k) else m k)"
proof -
  define step where "step = (\<lambda>(row :: prom_row) m :: node_map. let cluster = map_get (row_Metric row) ''cluster'' in
          if cluster \<in> covered then m
          else case cn cluster of None \<Rightarrow> m | Some nodes \<Rightarrow>
              if length nodes \<noteq> 1 then m
              else case metricValue A PF (row_Value row) of Inl _ \<Rightarrow> m
              | Inr val \<Rightarrow> fold (\<lambda>node. updateNode (cluster, node) (\<lambda>nm. upd val nm)) nodes m)"
  have one: "step row m k = (if row_cluster row = fst k \<and> fst k \<notin> covered \<and> cn (fst k) = Some [snd k]
      then (case metricValue A PF (row_Value row) of Inl _ \<Rightarrow> m k | Inr val \<Rightarrow> map_option (upd val) (m k)) else m k)" for row m
    by (cases k) (auto simp: step_def row_cluster_def Let_def updateNode_apply length_Suc_conv numeral_eq_Suc
        split: option.split sum.split)
  have "fold step rows m k = (if fst k \<notin> covered \<and> cn (fst k) = Some [snd k]
     then map_option (overwrite upd (samples A PF (\<lambda>row. row_cluster row = fst k) rows)) (m k) else m k)" for rows
  proof (induction rows rule: rev_induct)
    case Nil
    then show ?case by (cases "m k") simp_all
  next
    case (snoc row rows)
    then show ?case
      by (cases "metricValue A PF (row_Value row)"; cases "m k")
        (auto simp: one samples_snoc overwrite_twice [of upd, OF upd])
  qed
  moreover have "applySNOMetric A PF resp covered cn (\<lambda>nm v. upd v nm) m = fold step (resp_rows resp) m"
    by (simp add: applySNOMetric_def resp_rows_def step_def [abs_def] split: option.split)
  ultimately show ?thesis by simp
qed

section \<open>The schedulable nodes\<close>

definition named_row :: "prom_row \<Rightarrow> bool" where
  "named_row row \<longleftrightarrow> fst (rowKey row) \<noteq> [] \<and> snd (rowKey row) \<noteq> []"

definition schedulable :: "prom_row list \<Rightarrow> nodeKey list" where
  "schedulable rows = map rowKey (filter named_row rows)"

definition nodes_in :: "prom_row list \<Rightarrow> string \<Rightarrow> string list" where
  "nodes_in rows c = map snd (filter (\<lambda>k. fst k = c) (schedulable rows))"

lemma schedulableNodes_eq:
  "schedulableNodes rows =
     \<lparr>sn_schedulableSet = set (schedulable rows),
      sn_clusterNodes = (\<lambda>c. if nodes_in rows c = [] then None else Some (nodes_in rows c)),
      sn_nodeMap = (\<lambda>k. if k \<in> set (schedulable rows) then Some (newNode (snd k)) else None)\<rparr>"
proof (induction rows rule: rev_induct)
  case Nil
  then show ?case by (simp add: schedulableNodes_def schedulable_def nodes_in_def)
next
  case (snoc row rows)
  obtain c n where k: "rowKey row = (c, n)" by (cases "rowKey row")
  have "schedulableNodes (rows @ [row]) = addSchedulable row (schedulableNodes rows)"
    by (simp add: schedulableNodes_def)
  moreover have "schedulable (rows @ [row]) = schedulable rows @ (if named_row row then [(c, n)] else [])"
    by (simp add: schedulable_def k)
  moreover have "nodes_in (rows @ [row]) c' = nodes_in rows c' @ (if named_row row \<and> c' = c then [n] else [])" for c'
    by (simp add: nodes_in_def schedulable_def k)
  moreover have "named_row row \<longleftrightarrow> c \<noteq> [] \<and> n \<noteq> []" by (simp add: named_row_def k)
  ultimately show ?case
    by (cases "named_row row") (simp_all add: snoc.IH addSchedulable_def k fun_eq_iff, auto)
qed

section \<open>What the advisor knows of a node\<close>

definition latest :: "'a \<Rightarrow> (f64 \<Rightarrow> 'a) \<Rightarrow> f64 list \<Rightarrow> 'a" where
  "latest zero f vs = (case last_opt vs of None \<Rightarrow> zero | Some v \<Rightarrow> f v)"

text \<open>The requests of a node: its own samples, or, if no schedulable node of the cluster has any
  and the node is the only one, those of the cluster.\<close>

definition request_samples ::
    "go_arch \<Rightarrow> float_parse \<Rightarrow> prom_row list \<Rightarrow> promResponse option \<Rightarrow> promResponse option \<Rightarrow> nodeKey \<Rightarrow> f64 list" where
  "request_samples A PF rows perNode perCluster k =
     (if fst k \<notin> covered_clusters A PF (set (schedulable rows)) (resp_rows perNode) \<and> nodes_in rows (fst k) = [snd k]
      then samples A PF (\<lambda>row. row_cluster row = fst k) (resp_rows perCluster)
      else samples A PF (\<lambda>row. rowKey row = k) (resp_rows perNode))"

definition node_view :: "go_arch \<Rightarrow> float_parse \<Rightarrow> prom_row list \<Rightarrow> nodeMetricResponses \<Rightarrow> nodeKey \<Rightarrow> NodeMetrics" where
  "node_view A PF rows qr k =
     \<lparr>nm_NodeName = snd k,
      nm_AllocatableCPUCores = latest (Fin 0) id (samples A PF (\<lambda>row. rowKey row = k) (resp_rows (qr_cpuAlloc qr))),
      nm_AllocatableMemBytes = latest 0 (f_to_i64 A) (samples A PF (\<lambda>row. rowKey row = k) (resp_rows (qr_memAlloc qr))),
      nm_RequestedCPUCores = latest (Fin 0) id (request_samples A PF rows (qr_cpuReq qr) (qr_cpuReqSNO qr) k),
      nm_RequestedMemBytes = latest 0 (f_to_i64 A) (request_samples A PF rows (qr_memReq qr) (qr_memReqSNO qr) k)\<rparr>"

lemma not_covered:
  "k \<in> S \<Longrightarrow> fst k \<notin> covered_clusters A PF S rows \<Longrightarrow> samples A PF (\<lambda>row. rowKey row = k) rows = []"
  by (cases k) (auto simp: covered_clusters_def)

lemma merge_is_view:
  "mergeNodeMetrics A PF (schedulableNodes rows) qr k =
     (if k \<in> set (schedulable rows) then Some (node_view A PF rows qr k) else None)"
proof -
  let ?S = "set (schedulable rows)"
  have cn: "(if nodes_in rows c = [] then None else Some (nodes_in rows c)) = Some [n] \<longleftrightarrow> nodes_in rows c = [n]" for c n
    by auto
  note node = applyMetric_node [where upd = "\<lambda>v nm. nm\<lparr>nm_AllocatableCPUCores := v\<rparr>"]
    applyMetric_node [where upd = "\<lambda>v nm. nm\<lparr>nm_AllocatableMemBytes := f_to_i64 A v\<rparr>"]
    applyMetric_node [where upd = "\<lambda>v nm. nm\<lparr>nm_RequestedCPUCores := v\<rparr>"]
    applyMetric_node [where upd = "\<lambda>v nm. nm\<lparr>nm_RequestedMemBytes := f_to_i64 A v\<rparr>"]
    applySNO_node [where upd = "\<lambda>v nm. nm\<lparr>nm_RequestedCPUCores := v\<rparr>"]
    applySNO_node [where upd = "\<lambda>v nm. nm\<lparr>nm_RequestedMemBytes := f_to_i64 A v\<rparr>"]
  show ?thesis
  proof (cases "k \<in> ?S")
    case True
    note nc = not_covered [OF True, of A PF "resp_rows (qr_cpuReq qr)"] not_covered [OF True, of A PF "resp_rows (qr_memReq qr)"]
    show ?thesis using True nc
      by (auto simp: mergeNodeMetrics_def schedulableNodes_eq applyMetric_covered node cn newNode_def node_view_def
          request_samples_def overwrite_def latest_def Let_def split: option.split)
  next
    case False
    then show ?thesis
      by (simp add: mergeNodeMetrics_def schedulableNodes_eq applyMetric_covered node Let_def)
  qed
qed

lemma assemble_cluster:
  "assembleNodes m order c =
     (let ns = List.map_filter m (filter (\<lambda>k. fst k = c) order) in if ns = [] then None else Some ns)"
proof (induction order rule: rev_induct)
  case (snoc k order)
  then show ?case
    by (cases "m k") (auto simp: assembleNodes_def List.map_filter_def Let_def)
qed (simp add: assembleNodes_def List.map_filter_def)

section \<open>The parallel queries\<close>

definition query_of :: "nat \<Rightarrow> string" where
  "query_of i = fst (snd (nodeQueries ! i))"

definition responses :: "(string \<Rightarrow> promResponse) \<Rightarrow> nodeMetricResponses" where
  "responses r = \<lparr>qr_cpuAlloc = Some (r (query_of 0)), qr_memAlloc = Some (r (query_of 1)),
     qr_cpuReq = Some (r (query_of 2)), qr_cpuReqSNO = Some (r (query_of 3)),
     qr_memReq = Some (r (query_of 4)), qr_memReqSNO = Some (r (query_of 5))\<rparr>"

definition store_all :: "(string \<Rightarrow> promResponse) \<Rightarrow> nat list \<Rightarrow> nodeMetricResponses \<Rightarrow> nodeMetricResponses" where
  "store_all r order res = fold (\<lambda>i. snd (snd (nodeQueries ! i)) (r (query_of i))) order res"

text \<open>A server that answers in every state of \<open>I\<close>.\<close>

definition answering :: "('s \<Rightarrow> bool) \<Rightarrow> (string \<Rightarrow> ('s, promResponse) prog) \<Rightarrow> (string \<Rightarrow> promResponse) \<Rightarrow> bool" where
  "answering I q r \<longleftrightarrow> (\<forall>p s. I s \<longrightarrow> fst (q p s) = Inr (r p) \<and> I (snd (q p s)))"

lemma answeringE:
  assumes "answering I q r" and "I s"
  obtains s' where "q p s = (Inr (r p), s')" and "I s'"
  using assms unfolding answering_def by (metis prod.collapse)

lemma runGroup_answers:
  assumes "answering I q r"
  shows "I s \<Longrightarrow> \<exists>s'. runGroup q order None res s = (Inr (store_all r order res), s') \<and> I s'"
proof (induction order arbitrary: res s)
  case (Cons i order)
  obtain msg promQL st where n: "nodeQueries ! i = (msg, promQL, st)" by (cases "nodeQueries ! i")
  obtain s1 where "q promQL s = (Inr (r promQL), s1)" "I s1" by (rule answeringE [OF assms Cons.prems])
  then show ?case using Cons.IH [of s1] n by (simp add: store_all_def query_of_def)
qed (simp add: store_all_def)

lemma store_simps:
  "snd (snd (nodeQueries ! 0)) p res = res\<lparr>qr_cpuAlloc := Some p\<rparr>"
  "snd (snd (nodeQueries ! 1)) p res = res\<lparr>qr_memAlloc := Some p\<rparr>"
  "snd (snd (nodeQueries ! 2)) p res = res\<lparr>qr_cpuReq := Some p\<rparr>"
  "snd (snd (nodeQueries ! 3)) p res = res\<lparr>qr_cpuReqSNO := Some p\<rparr>"
  "snd (snd (nodeQueries ! 4)) p res = res\<lparr>qr_memReq := Some p\<rparr>"
  "snd (snd (nodeQueries ! 5)) p res = res\<lparr>qr_memReqSNO := Some p\<rparr>"
  by (simp_all add: nodeQueries_def)

definition stored :: "(string \<Rightarrow> promResponse) \<Rightarrow> nat set \<Rightarrow> nodeMetricResponses \<Rightarrow> nodeMetricResponses" where
  "stored r I res =
     (let pick = \<lambda>i old. if i \<in> I then Some (r (query_of i)) else old
      in \<lparr>qr_cpuAlloc = pick 0 (qr_cpuAlloc res), qr_memAlloc = pick 1 (qr_memAlloc res), qr_cpuReq = pick 2 (qr_cpuReq res),
          qr_cpuReqSNO = pick 3 (qr_cpuReqSNO res), qr_memReq = pick 4 (qr_memReq res), qr_memReqSNO = pick 5 (qr_memReqSNO res)\<rparr>)"

lemma stored_insert:
  assumes "i < 6"
  shows "snd (snd (nodeQueries ! i)) (r (query_of i)) (stored r I res) = stored r (insert i I) res"
proof -
  consider "i = 0" | "i = 1" | "i = 2" | "i = 3" | "i = 4" | "i = 5" using assms by linarith
  then show ?thesis by cases (simp_all add: store_simps stored_def Let_def del: One_nat_def)
qed

lemma store_all_complete:
  assumes "set order = {0..<6}"
  shows "store_all r order res = responses r"
proof -
  have "set xs \<subseteq> {0..<6} \<Longrightarrow> store_all r xs res = stored r (set xs) res" for xs
  proof (induction xs rule: rev_induct)
    case Nil
    then show ?case by (simp add: store_all_def stored_def)
  next
    case (snoc i xs)
    then have "store_all r (xs @ [i]) res = snd (snd (nodeQueries ! i)) (r (query_of i)) (stored r (set xs) res)"
      by (simp add: store_all_def)
    then show ?case using stored_insert [of i r "set xs" res] snoc.prems by simp
  qed
  from this [of order] assms show ?thesis by (simp add: responses_def stored_def)
qed

section \<open>Ceph\<close>

lemma cephRow_fold:
  assumes upd: "\<And>m b b'. upd (upd m b') b = upd m b"
  shows "fold (cephRow A PF upd) rows out c =
     (if c = [] then out c
      else case last_opt (samples A PF (\<lambda>row. row_cluster row = c) rows) of
        None \<Rightarrow> out c
      | Some v \<Rightarrow> Some (upd (case out c of None \<Rightarrow> CephMetrics_zero | Some m \<Rightarrow> m) (f_to_i64 A v)))"
proof (induction rows rule: rev_induct)
  case (snoc row rows)
  have one: "cephRow A PF upd row F c = (if c \<noteq> [] \<and> row_cluster row = c then
      (case metricValue A PF (row_Value row) of Inl _ \<Rightarrow> F c
       | Inr v \<Rightarrow> Some (upd (case F c of None \<Rightarrow> CephMetrics_zero | Some m \<Rightarrow> m) (f_to_i64 A v))) else F c)" for F
    by (auto simp: cephRow_def row_cluster_def Let_def split: sum.split)
  define F where "F = fold (cephRow A PF upd) rows out"
  have "fold (cephRow A PF upd) (rows @ [row]) out c = cephRow A PF upd row F c" by (simp add: F_def)
  then show ?case using snoc [folded F_def]
    by (cases "metricValue A PF (row_Value row)") (auto simp: one [of F] samples_snoc upd split: option.splits)
qed simp

definition ceph_view :: "go_arch \<Rightarrow> float_parse \<Rightarrow> prom_row list \<Rightarrow> prom_row list \<Rightarrow> string \<Rightarrow> CephMetrics option" where
  "ceph_view A PF totals avails c =
     (let ts = samples A PF (\<lambda>row. row_cluster row = c) totals; as = samples A PF (\<lambda>row. row_cluster row = c) avails
      in if c = [] \<or> (ts = [] \<and> as = []) then None
         else Some \<lparr>ceph_TotalBytes = latest 0 (f_to_i64 A) ts, ceph_AvailableBytes = latest 0 (f_to_i64 A) as\<rparr>)"

section \<open>Plain numbers\<close>

lemma acceptSeq_mismatch: "c \<notin> set p \<Longrightarrow> acceptSeq (p # ps) (buf, c # cs) = (False, (buf, c # cs))"
  by simp

lemma digit_not: "is_digit c \<Longrightarrow> c \<notin> set ''nN+-iIxX.eEpP''"
  by (auto simp: is_digit_def)

lemma digit_mem: "is_digit c \<Longrightarrow> c \<in> set ''0123456789_''"
proof -
  assume "is_digit c"
  moreover have "48 \<le> m \<and> m \<le> 57 \<Longrightarrow> m \<in> {48, 49, 50, 51, 52, 53, 54, 55, 56, 57}" for m :: nat by simp presburger
  ultimately have "of_char c \<in> {48, 49, 50, 51, 52, 53, 54, 55, 56, 57 :: nat}" unfolding is_digit_def by blast
  then have "c \<in> char_of ` {48, 49, 50, 51, 52, 53, 54, 55, 56, 57 :: nat}" by (metis char_of_char image_eqI)
  then show ?thesis by (auto simp: char_of_def bit_simps)
qed

lemma acceptAll_digits:
  "list_all is_digit ds \<Longrightarrow> acceptAll ''0123456789_'' (buf, ds) = (buf @ ds, [])"
  using digit_mem by (fastforce simp: acceptAll_def list_all_iff)

lemma floatToken_digits: "is_digits ds \<Longrightarrow> floatToken ds = ds"
proof -
  assume ds: "is_digits ds"
  then obtain c cs where c: "ds = c # cs" "is_digit c" "list_all is_digit cs" by (cases ds) (auto simp: is_digits_def)
  note n = digit_not [OF c(2)]
  have n2: "acceptSeq [''xX''] ([CHR ''0''], cs) = (False, ([CHR ''0''], cs))"
    using c(3) by (cases cs) (auto dest: digit_not)
  show ?thesis
  proof (cases "c = CHR ''0''")
    case True
    have "acceptSeq [''0'', ''xX''] ([], c # cs) = (False, ([c], cs))" using n2 True by simp
    then show ?thesis using n c acceptAll_digits [OF c(3), of "[c]"] by (simp add: floatToken_def)
  next
    case False
    have "acceptAll ''0123456789_'' ([], c # cs) = (c # cs, [])" using acceptAll_digits [of "c # cs" "[]"] c by simp
    then show ?thesis using n c False by (simp add: floatToken_def)
  qed
qed

lemma metricValue_digits:
  assumes "float_parser PF" and "is_digits ds" and "digits_val ds \<le> 2 ^ 53"
  shows "metricValue A PF (t, JStr ds) = Inr (Fin (real (digits_val ds)))"
proof -
  obtain c cs where c: "ds = c # cs" "is_digit c" using assms(2) by (cases ds) (auto simp: is_digits_def)
  then have "SkipSpace ds = Inr ds" using digit_not_space [OF c(2)] by (auto simp: is_digit_def)
  moreover have "CHR ''p'' \<notin> set ds" using assms(2) digit_not by (fastforce simp: is_digits_def list_all_iff)
  ultimately show ?thesis
    using c(1) float_parser.parse_digits [OF assms] floatToken_digits [OF assms(2)]
    by (simp add: metricValue_def Sscanf_f_def convertFloat_def)
qed

section \<open>Properties\<close>

lemma image_mset_view:
  assumes "distinct order" and "set order = dom m" and "\<And>k. m k = (if k \<in> K then Some (f k) else None)"
  shows "mset (List.map_filter m (filter p order)) = image_mset f (mset_set {k \<in> K. p k})"
proof -
  have dom: "dom m = K" using assms(3) by (auto simp: dom_def split: if_splits)
  have "List.map_filter m (filter p order) = map f (filter p order)"
    using assms(2,3) dom by (auto simp: List.map_filter_def comp_def intro!: map_cong filter_cong)
  moreover have "mset (filter p order) = mset_set {k \<in> K. p k}"
    using assms(1,2) dom by (metis distinct_filter mset_set_set set_filter)
  ultimately show ?thesis by simp
qed

lemma FetchNodeMetrics_answers:
  assumes "answering I q r" and "I s" and "set order = {0..<6}"
  shows "\<exists>s'. FetchNodeMetrics A PF q order rng s =
    (let m = mergeNodeMetrics A PF (schedulableNodes (pr_Result (r schedulableQuery))) (responses r)
     in (Inr (assembleNodes m (rng m)), s')) \<and> I s'"
proof -
  obtain s1 where s1: "q schedulableQuery s = (Inr (r schedulableQuery), s1)" "I s1" by (rule answeringE [OF assms(1,2)])
  let ?none = "\<lparr>qr_cpuAlloc = None, qr_memAlloc = None, qr_cpuReq = None, qr_cpuReqSNO = None,
      qr_memReq = None, qr_memReqSNO = None\<rparr>"
  obtain s2 where "runGroup q order None ?none s1 = (Inr (responses r), s2)" "I s2"
    using runGroup_answers [OF assms(1) s1(2), of order ?none] store_all_complete [OF assms(3), of r ?none] by auto
  then show ?thesis using s1 by (simp add: FetchNodeMetrics_def runParallelNodeQueries_def prog_defs Let_def)
qed

text \<open>C12: whatever the order in which the parallel queries complete and in which Go ranges over the
  map of the nodes, the metrics of a cluster are exactly one entry for each of its schedulable
  nodes, and the entry is the declarative view of the node: the last valid sample of each
  metric, zero without one, and for the requests of the only node of a cluster without
  samples per node the total of the cluster.\<close>

theorem node_metrics_exact:
  assumes "answering I q r" and "I s"
    and "set order = {0..<6}" and "\<And>m. finite (dom m) \<Longrightarrow> range_order m (rng m)"
  shows "\<exists>result s'. FetchNodeMetrics A PF q order rng s = (Inr result, s') \<and>
    (\<forall>c. (c \<in> dom result \<longleftrightarrow> (\<exists>n. (c, n) \<in> set (schedulable (pr_Result (r schedulableQuery))))) \<and>
         mset (case result c of None \<Rightarrow> [] | Some ns \<Rightarrow> ns) =
         image_mset (node_view A PF (pr_Result (r schedulableQuery)) (responses r))
           (mset_set {k \<in> set (schedulable (pr_Result (r schedulableQuery))). fst k = c}))"
proof -
  let ?rows = "pr_Result (r schedulableQuery)"
  let ?K = "set (schedulable ?rows)"
  let ?m = "mergeNodeMetrics A PF (schedulableNodes ?rows) (responses r)"
  obtain s' where run: "FetchNodeMetrics A PF q order rng s = (Inr (assembleNodes ?m (rng ?m)), s')"
    using FetchNodeMetrics_answers [OF assms(1-3), of A PF rng] by (auto simp: Let_def)
  have view: "?m k = (if k \<in> ?K then Some (node_view A PF ?rows (responses r) k) else None)" for k
    by (rule merge_is_view)
  then have "dom ?m = ?K" by (auto simp: dom_def split: if_splits)
  then have rng: "distinct (rng ?m)" "set (rng ?m) = dom ?m"
    using assms(4) [of ?m] by (simp_all add: range_order_def)
  have ms: "mset (List.map_filter ?m (filter (\<lambda>k. fst k = c) (rng ?m))) =
      image_mset (node_view A PF ?rows (responses r)) (mset_set {k \<in> ?K. fst k = c})" for c
    by (rule image_mset_view [OF rng view])
  have ne: "List.map_filter ?m (filter (\<lambda>k. fst k = c) (rng ?m)) = [] \<longleftrightarrow> (\<nexists>n. (c, n) \<in> ?K)" for c
  proof -
    have "finite {k \<in> ?K. fst k = c}" by simp
    then have "mset (List.map_filter ?m (filter (\<lambda>k. fst k = c) (rng ?m))) = {#} \<longleftrightarrow> {k \<in> ?K. fst k = c} = {}"
      by (simp only: ms image_mset_is_empty_iff mset_set_empty_iff) auto
    then show ?thesis by auto
  qed
  have "mset (case assembleNodes ?m (rng ?m) c of None \<Rightarrow> [] | Some ns \<Rightarrow> ns) =
      mset (List.map_filter ?m (filter (\<lambda>k. fst k = c) (rng ?m)))" for c
    by (simp add: assemble_cluster Let_def)
  moreover have "c \<in> dom (assembleNodes ?m (rng ?m)) \<longleftrightarrow> (\<exists>n. (c, n) \<in> ?K)" for c
    using ne [of c] by (simp add: assemble_cluster Let_def dom_def)
  ultimately show ?thesis using run ms by (intro exI [of _ "assembleNodes ?m (rng ?m)"] exI [of _ s']) simp
qed

text \<open>A server that knows one node, and a range in the order of the keys.\<close>

definition demo_row :: "string \<Rightarrow> string \<Rightarrow> prom_row" where
  "demo_row node v = \<lparr>row_Metric = [''cluster'' \<mapsto> ''c1'', ''node'' \<mapsto> node], row_Value = (JNum 0, JStr v)\<rparr>"

definition demo_prom :: "string \<Rightarrow> promResponse" where
  "demo_prom p = \<lparr>pr_Status = ''success'', pr_ResultType = ''vector'',
     pr_Result = (if p = schedulableQuery then [demo_row ''n1'' ''1'']
                  else if p = query_of 0 then [demo_row ''n1'' ''8'', demo_row ''other'' ''4'']
                  else if p = query_of 3 then [demo_row [] ''2''] else []), pr_Error = []\<rparr>"

definition key_range :: "node_map \<Rightarrow> nodeKey list" where
  "key_range m = sorted_list_of_set (dom m)"

lemma key_range: "finite (dom m) \<Longrightarrow> range_order m (key_range m)"
  by (simp add: key_range_def range_order_def)

lemma demo_queries [simp]:
  "query_of 0 \<noteq> schedulableQuery" "query_of 1 \<noteq> schedulableQuery" "query_of 2 \<noteq> schedulableQuery"
  "query_of 3 \<noteq> schedulableQuery" "query_of 4 \<noteq> schedulableQuery" "query_of 5 \<noteq> schedulableQuery"
  "query_of 1 \<noteq> query_of 0" "query_of 2 \<noteq> query_of 0" "query_of 3 \<noteq> query_of 0" "query_of 4 \<noteq> query_of 0" "query_of 5 \<noteq> query_of 0"
  "query_of 1 \<noteq> query_of 3" "query_of 2 \<noteq> query_of 3" "query_of 4 \<noteq> query_of 3" "query_of 5 \<noteq> query_of 3"
  by (simp_all add: query_of_def nodeQueries_def schedulableQuery_def dq_def)

lemma demo_value:
  "metricValue A ParseFloat_ref (t, JStr ''8'') = Inr (Fin 8)" "metricValue A ParseFloat_ref (t, JStr ''4'') = Inr (Fin 4)"
  "metricValue A ParseFloat_ref (t, JStr ''2'') = Inr (Fin 2)"
  by (simp_all add: metricValue_digits [OF float_ref.float_parser_axioms] is_digits_def is_digit_def digits_val_def)

lemma demo_view:
  "node_view ideal_arch ParseFloat_ref (pr_Result (demo_prom schedulableQuery)) (responses demo_prom) (''c1'', ''n1'') =
     \<lparr>nm_NodeName = ''n1'', nm_AllocatableCPUCores = Fin 8, nm_AllocatableMemBytes = 0,
      nm_RequestedCPUCores = Fin 2, nm_RequestedMemBytes = 0\<rparr>"
  by (simp add: node_view_def request_samples_def covered_clusters_def nodes_in_def schedulable_def named_row_def
      rowKey_def row_cluster_def demo_row_def demo_prom_def responses_def resp_rows_def samples_def latest_def last_opt_def
      List.map_filter_def demo_value del: One_nat_def)

theorem node_metrics_exact_witness:
  "\<exists>result. FetchNodeMetrics ideal_arch ParseFloat_ref (\<lambda>p s. (Inr (demo_prom p), s)) [5, 4, 3, 2, 1, 0] key_range () = (Inr result, ()) \<and>
     result ''c1'' = Some [\<lparr>nm_NodeName = ''n1'', nm_AllocatableCPUCores = Fin 8, nm_AllocatableMemBytes = 0,
       nm_RequestedCPUCores = Fin 2, nm_RequestedMemBytes = 0\<rparr>]"
proof -
  let ?q = "\<lambda>p (s :: unit). (Inr (demo_prom p), s) :: (goerr + promResponse) \<times> unit"
  have "set [5, 4, 3, 2, 1, 0] = {0..<6 :: nat}" by auto
  moreover have "answering (\<lambda>_. True) ?q demo_prom" by (simp add: answering_def)
  ultimately
  obtain result where r: "FetchNodeMetrics ideal_arch ParseFloat_ref ?q [5, 4, 3, 2, 1, 0] key_range () = (Inr result, ())"
    and ms: "mset (case result ''c1'' of None \<Rightarrow> [] | Some ns \<Rightarrow> ns) =
      image_mset (node_view ideal_arch ParseFloat_ref (pr_Result (demo_prom schedulableQuery)) (responses demo_prom))
        (mset_set {k \<in> set (schedulable (pr_Result (demo_prom schedulableQuery))). fst k = ''c1''})"
    using node_metrics_exact [of "\<lambda>_. True" ?q demo_prom "()" "[5, 4, 3, 2, 1, 0]" key_range ideal_arch ParseFloat_ref] key_range
    by auto
  have "{k \<in> set (schedulable (pr_Result (demo_prom schedulableQuery))). fst k = ''c1''} = {(''c1'', ''n1'')}"
    by (auto simp: schedulable_def demo_prom_def demo_row_def named_row_def rowKey_def)
  with ms have "mset (case result ''c1'' of None \<Rightarrow> [] | Some ns \<Rightarrow> ns) = {#\<lparr>nm_NodeName = ''n1'',
      nm_AllocatableCPUCores = Fin 8, nm_AllocatableMemBytes = 0, nm_RequestedCPUCores = Fin 2, nm_RequestedMemBytes = 0\<rparr>#}"
    by (simp add: demo_view)
  with r show ?thesis by (auto split: option.splits)
qed

text \<open>C37: the Ceph metrics of a cluster are its last valid total and its last valid available bytes
  (zero for the one that is missing); a cluster with neither is not listed.\<close>

theorem ceph_metrics_exact:
  assumes "q ''ceph_cluster_total_bytes'' s = (Inr totals, s1)" and "q ''ceph_cluster_total_avail_bytes'' s1 = (Inr avails, s2)"
  shows "FetchCephMetrics A PF q s = (Inr (ceph_view A PF (pr_Result totals) (pr_Result avails)), s2)"
proof -
  let ?T = "fold (cephRow A PF (\<lambda>m b. m\<lparr>ceph_TotalBytes := b\<rparr>)) (pr_Result totals) Map.empty"
  have t: "?T c = (if c = [] then None else map_option (\<lambda>v. CephMetrics_zero\<lparr>ceph_TotalBytes := f_to_i64 A v\<rparr>)
      (last_opt (samples A PF (\<lambda>row. row_cluster row = c) (pr_Result totals))))" for c
    by (simp add: cephRow_fold split: option.split)
  have "fold (cephRow A PF (\<lambda>m b. m\<lparr>ceph_AvailableBytes := b\<rparr>)) (pr_Result avails) ?T c =
      ceph_view A PF (pr_Result totals) (pr_Result avails) c" for c
    by (subst cephRow_fold) (auto simp: t ceph_view_def latest_def last_opt_def CephMetrics_zero_def Let_def)
  then show ?thesis using assms by (simp add: FetchCephMetrics_def prog_defs Let_def fun_eq_iff)
qed

theorem ceph_metrics_exact_witness:
  "FetchCephMetrics ideal_arch ParseFloat_ref (\<lambda>p s. (Inr (demo_prom (if p = ''ceph_cluster_total_bytes'' then query_of 0 else query_of 3)), s)) () =
     (Inr (ceph_view ideal_arch ParseFloat_ref [demo_row ''n1'' ''8'', demo_row ''other'' ''4''] [demo_row [] ''2'']), ())"
  using ceph_metrics_exact [of "\<lambda>p s. (Inr (demo_prom (if p = ''ceph_cluster_total_bytes'' then query_of 0 else query_of 3)), s)" "()"
      "demo_prom (query_of 0)" "()" "demo_prom (query_of 3)" "()" ideal_arch ParseFloat_ref]
  by (simp add: demo_prom_def)

end
