(* ===== verification/SearchProps.thy ===== *)
theory SearchProps
  imports Search Quantity
begin

text \<open>
  Properties of the Search client: the pages of a server are read to the last one and grouped by
  cluster without loss, the loop ends for a server that honours the offset, and does not end
  for one that does not.
\<close>

section \<open>Grouping\<close>

definition item_class :: "(string \<times> json) list \<Rightarrow> (string \<times> SCProvisioner) option" where
  "item_class item =
     (let cluster = jstr (map_key item ''cluster''); name = jstr (map_key item ''name'')
      in if cluster = [] \<or> name = [] then None
         else Some (cluster, \<lparr>sc_Name = name, sc_Provisioner = jstr (map_key item ''provisioner'')\<rparr>))"

definition classes_of :: "(string \<times> json) list list \<Rightarrow> string \<Rightarrow> SCProvisioner list" where
  "classes_of items c = map snd (filter (\<lambda>p. fst p = c) (List.map_filter item_class items))"

definition group_classes :: "(string \<times> json) list list \<Rightarrow> class_map" where
  "group_classes items c = (if classes_of items c = [] then None else Some (classes_of items c))"

lemma classes_of_append [simp]: "classes_of (xs @ ys) c = classes_of xs c @ classes_of ys c"
  by (simp add: classes_of_def List.map_filter_def)

lemma addItem_group: "addItem x (group_classes xs) = group_classes (xs @ [x])"
proof
  fix c show "addItem x (group_classes xs) c = group_classes (xs @ [x]) c"
    by (cases "item_class x")
      (auto simp: addItem_def group_classes_def item_class_def classes_of_def [of "[x]"] List.map_filter_def Let_def
        split: if_splits)
qed

lemma fold_addItem_group: "fold addItem ys (group_classes xs) = group_classes (xs @ ys)"
  by (induction ys arbitrary: xs) (simp_all add: addItem_group)

lemma group_classes_Nil [simp]: "group_classes [] = Map.empty"
  by (rule ext) (simp add: group_classes_def classes_of_def List.map_filter_def)

section \<open>A server with pages\<close>

definition page_doc :: "(string \<times> json) list list \<Rightarrow> json" where
  "page_doc items = JObj [(''data'', JObj [(''search'', JArr [JObj [(''items'', JArr (map JObj items))]])])]"

lemma jfield_same [simp]: "jfield k [(k, v)] = v"
  by (simp add: jfield_def EqualFold_def)

lemma jfield_Nil [simp]: "jfield k [] = JNull"
  by (simp add: jfield_def)

lemma decode_page: "decodeSearchResult (page_doc items) = Inr \<lparr>sr_Search = [items], sr_Errors = []\<rparr>"
proof -
  have "sum_map decodeFields (map JObj items) = Inr items"
    by (induction items) simp_all
  moreover have "jfield ''errors'' [(''data'', v)] = JNull" for v
    by (simp add: jfield_def EqualFold_def ToLower_def to_lower_def)
  ultimately show ?thesis by (simp add: decodeSearchResult_def page_doc_def decodeList_def)
qed

locale search_server =
  fixes N :: "('w, 'tc, 'rt) net" and parseJSON :: json_parser and client :: 'rt and endpoint :: string
    and page :: "nat \<Rightarrow> (string \<times> json) list list"
  assumes url: "NewRequest_err N endpoint = None"
    and answers: "\<exists>body w'. client_Do N client (searchRequest endpoint off) w = (Inr \<lparr>hs_StatusCode = 200, hs_Body = body\<rparr>, w')
      \<and> parseJSON body = Inr (page_doc (page off))"
begin

lemma page_step:
  obtains w' where "searchPages N parseJSON client endpoint off out w =
    (if length (page off) < 1000 then Some (Inr (fold addItem (page off) out), w')
     else searchPages N parseJSON client endpoint (off + 1000) (fold addItem (page off) out) w')"
proof -
  obtain body w' where r: "client_Do N client (searchRequest endpoint off) w = (Inr \<lparr>hs_StatusCode = 200, hs_Body = body\<rparr>, w')"
      "parseJSON body = Inr (page_doc (page off))"
    using answers by blast
  show thesis
    by (rule that [of w'], subst searchPages.simps) (simp add: url r decode_page searchPageSize_def Let_def)
qed

text \<open>A server that returns a full page for every offset keeps the loop going.\<close>

lemma full_pages_diverge:
  assumes "\<And>off. 1000 \<le> length (page off)"
  shows "searchPages N parseJSON client endpoint off out w = None"
proof (rule ccontr)
  assume "searchPages N parseJSON client endpoint off out w \<noteq> None"
  then obtain y where y: "searchPages N parseJSON client endpoint off out w = Some y" by blast
  let ?P = "\<lambda>N' J c e off out w y. N' = N \<longrightarrow> J = parseJSON \<longrightarrow> c = client \<longrightarrow> e = endpoint \<longrightarrow> False"
  from y have "?P N parseJSON client endpoint off out w y"
  proof (rule searchPages.raw_induct [where P = ?P, rotated], intro impI)
    fix f N' J c e off out w y
    assume IH: "\<And>N' J c e off out w y. f N' J c e off out w = Some y \<Longrightarrow> ?P N' J c e off out w y"
      and body: "(case NewRequest_err N' e of
        Some err \<Rightarrow> Some (Inl (Errorf ''build search request: %w'' [] (Some err)), w)
      | None \<Rightarrow>
     (case client_Do N' c (searchRequest e off) w of (r, w') \<Rightarrow>
     (case r of
        Inl err \<Rightarrow> Some (Inl (Errorf ''search API request: %w'' [] (Some err)), w')
      | Inr resp \<Rightarrow>
          if hs_StatusCode resp \<noteq> 200
          then Some (Inl (Errorf ''search API returned %d: %s'' [decimal (hs_StatusCode resp), hs_Body resp] None), w')
          else (case sum_bind (J (hs_Body resp)) decodeSearchResult of
             Inl err \<Rightarrow> Some (Inl (Errorf ''decode search response: %w'' [] (Some err)), w')
           | Inr result \<Rightarrow>
               if sr_Errors result \<noteq> []
               then Some (Inl (Errorf ''search API errors: %s'' [hd (sr_Errors result)] None), w')
               else (case sr_Search result of
                  [] \<Rightarrow> Some (Inr out, w')
                | items # _ \<Rightarrow>
                    let out' = fold addItem items out
                    in if length items < searchPageSize then Some (Inr out', w')
                       else f N' J c e (off + searchPageSize) out' w'))))) = Some y"
      and eq: "N' = N" "J = parseJSON" "c = client" "e = endpoint"
    obtain body w' where r: "client_Do N client (searchRequest endpoint off) w = (Inr \<lparr>hs_StatusCode = 200, hs_Body = body\<rparr>, w')"
        "parseJSON body = Inr (page_doc (page off))"
      using answers by blast
    have "f N parseJSON client endpoint (off + 1000) (fold addItem (page off) out) w' = Some y"
      using body eq r assms [of off] by (simp add: url decode_page searchPageSize_def Let_def not_less [symmetric])
    then show False using IH by blast
  qed
  then show False by simp
qed

end

locale paged_server = search_server N parseJSON client endpoint "\<lambda>off. take 1000 (drop off items)"
  for N :: "('w, 'tc, 'rt) net" and parseJSON client endpoint and items :: "(string \<times> json) list list"
begin

lemma pages_complete:
  "\<exists>w'. searchPages N parseJSON client endpoint off (group_classes (take off items)) w = Some (Inr (group_classes items), w')"
proof (induction "length items - off" arbitrary: off w rule: less_induct)
  case less
  let ?p = "take 1000 (drop off items)"
  have split: "take off items @ ?p = take (off + 1000) items" by (simp add: take_add)
  obtain w' where st: "searchPages N parseJSON client endpoint off (group_classes (take off items)) w =
    (if length ?p < 1000 then Some (Inr (fold addItem ?p (group_classes (take off items))), w')
     else searchPages N parseJSON client endpoint (off + 1000) (fold addItem ?p (group_classes (take off items))) w')"
    by (rule page_step)
  show ?case
  proof (cases "length ?p < 1000")
    case True
    then have "take (off + 1000) items = items" by simp
    then show ?thesis using st True by (simp add: fold_addItem_group split)
  next
    case False
    then have "length items - (off + 1000) < length items - off" by simp
    from less [OF this] show ?thesis using st False by (simp add: fold_addItem_group split)
  qed
qed

end

section \<open>A server in memory\<close>

text \<open>The server reads the offset back from the text of the request.\<close>

lemma decimal_digits: "is_digits (decimal n) \<and> digits_val (decimal n) = n"
proof (induction n rule: decimal.induct)
  case (1 n)
  have d: "is_digit (''0123456789'' ! m) \<and> of_char (''0123456789'' ! m) - 48 = m" if "m < 10" for m
  proof -
    from that have "m \<in> {0, 1, 2, 3, 4, 5, 6, 7, 8, 9}" by auto
    then show ?thesis by (auto simp: is_digit_def)
  qed
  show ?case
  proof (cases "n < 10")
    case True
    then show ?thesis using d [OF True] by (subst (1 2) decimal.simps) (simp add: is_digits_def digits_val_def)
  next
    case False
    have "n mod 10 < 10" by simp
    from d [OF this] 1 False show ?thesis
      by (subst (1 2) decimal.simps) (simp add: is_digits_def digits_val_def)
  qed
qed

lemma escape_digit: "is_digit c \<Longrightarrow> escape_char c = [c]"
  by (auto simp: is_digit_def escape_char_def Let_def)

lemma encode_digits: "list_all is_digit ds \<Longrightarrow> concat (map escape_char ds) = ds"
  by (induction ds) (simp_all add: escape_digit)

definition query_head :: bytes where
  "query_head = ''{'' @ encodeString ''query'' @ '':'' @ [CHR 0x22] @ concat (map escape_char
     (''{'' @ newline @ ''  search(input: [{'' @ newline @ ''    '' @ filterBlock @ newline
      @ ''    limit: '' @ decimal searchPageSize @ newline @ ''    offset: ''))"

definition offset_in :: "bytes \<Rightarrow> nat" where
  "offset_in body = digits_val (takeWhile is_digit (drop (length query_head) body))"

lemma request_offset: "offset_in (hr_Body (searchRequest ep off)) = off"
proof -
  obtain t where "hr_Body (searchRequest ep off) = query_head @ concat (map escape_char (decimal off)) @ CHR 0x5C # t"
    by (simp add: searchRequest_def gqlQuery_def query_head_def encodeString_def newline_def escape_char_def)
  moreover have "\<not> is_digit CHR 0x5C" by (simp add: is_digit_def)
  ultimately show ?thesis
    using decimal_digits [of off]
    by (simp add: offset_in_def encode_digits is_digits_def takeWhile_append2 list_all_iff)
qed

definition mem_search_net :: "(unit, unit, unit) net" where
  "mem_search_net = \<lparr>SystemCertPool = Inr {}, ReadFile = (\<lambda>p. fail (Errorf ''file does not exist'' [] None)),
     os_IsNotExist = (\<lambda>e. True), TransportConfig = (\<lambda>cfg. Inr ()), HTTPWrappersForConfig = (\<lambda>tc tx. Inr ()),
     NewRequest_err = (\<lambda>url. None),
     client_Do = (\<lambda>rt req. ret \<lparr>hs_StatusCode = 200, hs_Body = hr_Body req\<rparr>)\<rparr>"

definition mem_search_parser :: "(nat \<Rightarrow> (string \<times> json) list list) \<Rightarrow> json_parser" where
  "mem_search_parser page body = Inr (page_doc (page (offset_in body)))"

interpretation mem_search: search_server mem_search_net "mem_search_parser page" "()" endpoint page for page endpoint
  by unfold_locales (simp_all add: mem_search_net_def ret_def mem_search_parser_def request_offset)

interpretation mem_paged: paged_server mem_search_net "mem_search_parser (\<lambda>off. take 1000 (drop off items))" "()" endpoint items
  for items endpoint
  by unfold_locales

section \<open>Properties\<close>

text \<open>C15: against a Search API that honours limit and offset the pagination ends, whatever the
  number of storage classes, and returns every class under its cluster, in the order of the
  items; items without a cluster or a name are skipped.\<close>

theorem search_complete:
  assumes "buildHTTPClient N P (sch_RestConfig s) (search_serviceCAPath s) [sch_TLSOpts s] w = (Inr client, w1)"
    and "paged_server N parseJSON client (search_endpoint s) items"
  shows "\<exists>w'. ListStorageClassProvisionersByCluster N P parseJSON s w = Some (Inr (group_classes items), w')"
  using paged_server.pages_complete [OF assms(2), of 0 w1] assms(1)
  by (simp add: ListStorageClassProvisionersByCluster_def)

definition demo_search :: SearchClient where
  "demo_search = \<lparr>sch_RestConfig = demo_cfg, sch_SearchAPIEndpoint = [], sch_ServiceCAPath = [], sch_TLSOpts = None\<rparr>"

lemma demo_search_client:
  "buildHTTPClient mem_search_net P (sch_RestConfig demo_search) (search_serviceCAPath demo_search)
     [sch_TLSOpts demo_search] w = (Inr (), w)"
  by (simp add: buildHTTPClient_def addCAData_def addCAFile_def addServiceCA_def mem_search_net_def demo_search_def
      demo_cfg_def search_serviceCAPath_def DefaultServiceCAPath_def prog_defs Let_def)

theorem search_complete_witness:
  "\<exists>w'. ListStorageClassProvisionersByCluster mem_search_net (pem_ref (\<lambda>_. True))
      (mem_search_parser (\<lambda>off. take 1000 (drop off (replicate 2500 [(''cluster'', JStr ''c''), (''name'', JStr ''gp3'')]))))
      demo_search () = Some (Inr (group_classes (replicate 2500 [(''cluster'', JStr ''c''), (''name'', JStr ''gp3'')])), w')"
  by (rule search_complete [OF demo_search_client mem_paged.paged_server_axioms])

text \<open>C36: the loop over the pages has no bound of its own: against a server that returns a full page
  for every offset it never returns.\<close>

theorem search_diverges:
  assumes "buildHTTPClient N P (sch_RestConfig s) (search_serviceCAPath s) [sch_TLSOpts s] w = (Inr client, w1)"
    and "search_server N parseJSON client (search_endpoint s) page" and "\<And>off. 1000 \<le> length (page off)"
  shows "ListStorageClassProvisionersByCluster N P parseJSON s w = None"
  using search_server.full_pages_diverge [OF assms(2,3)] assms(1)
  by (simp add: ListStorageClassProvisionersByCluster_def)

theorem search_diverges_witness:
  "ListStorageClassProvisionersByCluster mem_search_net (pem_ref (\<lambda>_. True))
      (mem_search_parser (\<lambda>off. replicate 1000 [(''cluster'', JStr ''c''), (''name'', JStr ''gp3'')])) demo_search () = None"
  by (rule search_diverges [OF demo_search_client mem_search.search_server_axioms]) simp

end
