(* ===== verification/ScorerProps.thy ===== *)
theory ScorerProps
  imports Scorer
begin

text \<open>
  The properties of the scorer: the clusters are partitioned into candidates and exclusions,
  the decision for a cluster is characterised, the scores are bounded and the ranking is
  sorted, whatever order the map iteration takes and however the sort breaks ties.
\<close>

section \<open>The contract of sort.Slice\<close>

definition strict_weak :: "('a \<Rightarrow> 'a \<Rightarrow> bool) \<Rightarrow> 'a set \<Rightarrow> bool" where
  "strict_weak lt S \<longleftrightarrow>
     (\<forall>x\<in>S. \<not> lt x x) \<and> (\<forall>x\<in>S. \<forall>y\<in>S. \<forall>z\<in>S. lt x y \<longrightarrow> lt y z \<longrightarrow> lt x z) \<and>
     (\<forall>x\<in>S. \<forall>y\<in>S. \<forall>z\<in>S. \<not> lt x y \<longrightarrow> \<not> lt y z \<longrightarrow> \<not> lt x z)"

lemma strict_weak_subset: "strict_weak lt S \<Longrightarrow> T \<subseteq> S \<Longrightarrow> strict_weak lt T"
  unfolding strict_weak_def by blast

lemma strict_weak_irrefl: "strict_weak lt S \<Longrightarrow> x \<in> S \<Longrightarrow> \<not> lt x x"
  and strict_weak_asym: "strict_weak lt S \<Longrightarrow> x \<in> S \<Longrightarrow> y \<in> S \<Longrightarrow> lt x y \<Longrightarrow> \<not> lt y x"
  and strict_weak_negtrans: "strict_weak lt S \<Longrightarrow> x \<in> S \<Longrightarrow> y \<in> S \<Longrightarrow> z \<in> S \<Longrightarrow>
    \<not> lt x y \<Longrightarrow> \<not> lt y z \<Longrightarrow> \<not> lt x z"
  unfolding strict_weak_def by blast+

lemma sorted_wrt_unique:
  assumes "sorted_wrt R xs" and "sorted_wrt R ys" and "mset xs = mset ys"
    and "\<forall>x\<in>set xs. \<forall>y\<in>set xs. R x y \<longrightarrow> R y x \<longrightarrow> x = y"
  shows "xs = ys"
  using assms
proof (induction xs arbitrary: ys)
  case (Cons x xs)
  obtain y zs where ys: "ys = y # zs" using Cons.prems(3) by (cases ys) auto
  have set: "insert x (set xs) = insert y (set zs)"
    using Cons.prems(3) ys by (metis list.set(2) set_mset_mset)
  have "x = y"
  proof (rule ccontr)
    assume "x \<noteq> y"
    then have "y \<in> set xs" "x \<in> set zs" using set by auto
    then have "R x y" "R y x" using Cons.prems(1,2) ys by auto
    with \<open>y \<in> set xs\<close> \<open>x \<noteq> y\<close> Cons.prems(4) show False by auto
  qed
  with Cons ys show ?case by simp
qed simp

locale slice_sort =
  fixes sort_Slice :: "'a sorter"
  assumes sort_mset: "mset (sort_Slice lt xs) = mset xs"
    and sort_sorted: "strict_weak lt (set xs) \<Longrightarrow> sorted_wrt (\<lambda>a b. \<not> lt b a) (sort_Slice lt xs)"
begin

lemma sort_set: "set (sort_Slice lt xs) = set xs"
  by (metis set_mset_mset sort_mset)

lemma sort_Nil_iff: "sort_Slice lt xs = [] \<longleftrightarrow> xs = []"
  by (metis mset_zero_iff sort_mset)

lemma sort_head_best:
  assumes "strict_weak lt (set xs)" and "sort_Slice lt xs = y # ys" and "x \<in> set xs"
  shows "\<not> lt x y"
proof -
  have "x = y \<or> x \<in> set ys" using assms(2,3) sort_set [of lt xs] by auto
  moreover have "y \<in> set xs" using assms(2) sort_set [of lt xs] by auto
  ultimately show ?thesis
    using sort_sorted [OF assms(1)] assms(1,2) by (auto simp: strict_weak_def)
qed

lemma sort_deterministic:
  assumes "mset xs = mset ys" and "strict_weak lt (set xs)"
    and "\<forall>x\<in>set xs. \<forall>y\<in>set xs. x \<noteq> y \<longrightarrow> lt x y \<or> lt y x"
  shows "sort_Slice lt xs = sort_Slice lt ys"
proof (rule sorted_wrt_unique)
  have "set xs = set ys" using assms(1) by (metis set_mset_mset)
  then show "sorted_wrt (\<lambda>a b. \<not> lt b a) (sort_Slice lt xs)"
    "sorted_wrt (\<lambda>a b. \<not> lt b a) (sort_Slice lt ys)"
    using sort_sorted assms(2) by simp_all
  show "mset (sort_Slice lt xs) = mset (sort_Slice lt ys)" using sort_mset assms(1) by simp
  show "\<forall>x\<in>set (sort_Slice lt xs). \<forall>y\<in>set (sort_Slice lt xs).
      \<not> lt y x \<longrightarrow> \<not> lt x y \<longrightarrow> x = y"
    using assms(3) sort_set by blast
qed

end

text \<open>Go sorts short slices by insertion.\<close>

fun insert_by :: "('a \<Rightarrow> 'a \<Rightarrow> bool) \<Rightarrow> 'a \<Rightarrow> 'a list \<Rightarrow> 'a list" where
  "insert_by lt x [] = [x]"
| "insert_by lt x (y # ys) = (if lt y x then y # insert_by lt x ys else x # y # ys)"

definition insertionSort :: "'a sorter" where
  "insertionSort lt xs = foldr (insert_by lt) xs []"

lemma mset_insert_by [simp]: "mset (insert_by lt x ys) = add_mset x (mset ys)"
  by (induction ys) auto

lemma mset_insertionSort [simp]: "mset (insertionSort lt xs) = mset xs"
  unfolding insertionSort_def by (induction xs) auto

lemma sorted_insert_by:
  assumes "strict_weak lt (insert x (set ys))" and "sorted_wrt (\<lambda>a b. \<not> lt b a) ys"
  shows "sorted_wrt (\<lambda>a b. \<not> lt b a) (insert_by lt x ys)"
  using assms
proof (induction ys)
  case (Cons y ys)
  have set: "set (insert_by lt x ys) = insert x (set ys)"
    by (metis mset_insert_by set_mset_add_mset_insert set_mset_mset)
  have sub: "strict_weak lt (insert x (set ys))"
    using Cons.prems(1) by (rule strict_weak_subset) auto
  show ?case
  proof (cases "lt y x")
    case True
    then have "\<not> lt x y" using strict_weak_asym [OF Cons.prems(1)] by simp
    with True Cons.IH [OF sub] Cons.prems(2) set show ?thesis by simp
  next
    case False
    then have "\<forall>z\<in>set ys. \<not> lt z x"
      using Cons.prems(2) strict_weak_negtrans [OF Cons.prems(1), of _ y x] by simp
    with False Cons.prems(2) show ?thesis by simp
  qed
qed simp

interpretation insertion: slice_sort insertionSort
proof unfold_locales
  fix lt and xs :: "'a list"
  show "mset (insertionSort lt xs) = mset xs" by simp
  show "strict_weak lt (set xs) \<Longrightarrow> sorted_wrt (\<lambda>a b. \<not> lt b a) (insertionSort lt xs)"
  proof (induction xs)
    case (Cons x xs)
    have "set (insertionSort lt xs) = set xs" by (metis mset_insertionSort set_mset_mset)
    then have "strict_weak lt (insert x (set (insertionSort lt xs)))" using Cons.prems by simp
    moreover have "strict_weak lt (set xs)" using Cons.prems by (rule strict_weak_subset) auto
    ultimately show ?case using Cons.IH sorted_insert_by by (simp add: insertionSort_def)
  qed (simp add: insertionSort_def)
qed

section \<open>Partition of the clusters\<close>

definition target_clusters :: "ScoringInput \<Rightarrow> string list \<Rightarrow> string list" where
  "target_clusters input order = filter (\<lambda>c. c \<noteq> vm_Cluster (in_SourceVM input)) order"

definition cluster_scs :: "ScoringInput \<Rightarrow> string \<Rightarrow> SCProvisioner list" where
  "cluster_scs input cluster = (case in_ClusterSCs input cluster of None \<Rightarrow> [] | Some scs \<Rightarrow> scs)"

definition decisions ::
    "go_arch \<Rightarrow> ScoringInput \<Rightarrow> string list \<Rightarrow> (ExcludedCluster + CandidateCluster) list" where
  "decisions A input order =
     map (\<lambda>c. Score_cluster A input c (cluster_scs input c)) (target_clusters input order)"

definition lefts :: "('a + 'b) list \<Rightarrow> 'a list" where
  "lefts rs = map projl (filter isl rs)"

definition rights :: "('a + 'b) list \<Rightarrow> 'b list" where
  "rights rs = map projr (filter (\<lambda>r. \<not> isl r) rs)"

lemma lefts_rights_simps [simp]:
  "lefts [] = []" "lefts (Inl x # rs) = x # lefts rs" "lefts (Inr y # rs) = lefts rs"
  "rights [] = []" "rights (Inl x # rs) = rights rs" "rights (Inr y # rs) = y # rights rs"
  by (simp_all add: lefts_def rights_def)

lemma in_rights [simp]: "y \<in> set (rights rs) \<longleftrightarrow> Inr y \<in> set rs"
  and in_lefts [simp]: "x \<in> set (lefts rs) \<longleftrightarrow> Inl x \<in> set rs"
  by (induction rs) (auto simp: rights_def lefts_def split: sum.splits)

lemma mset_lefts: "mset rs = mset rs' \<Longrightarrow> mset (lefts rs) = mset (lefts rs')"
  and mset_rights: "mset rs = mset rs' \<Longrightarrow> mset (rights rs) = mset (rights rs')"
  by (simp_all add: lefts_def rights_def)

lemma Score_loop_decisions:
  "Score_loop A input order cs es =
     (cs @ rights (decisions A input order), es @ lefts (decisions A input order))"
  by (induction A input order cs es rule: Score_loop.induct)
    (auto simp: decisions_def target_clusters_def cluster_scs_def split: sum.splits)

lemma Score_decisions:
  "Score A sort_Slice order input =
     (sort_Slice better_candidate (rights (decisions A input order)), lefts (decisions A input order))"
  by (simp add: Score_def Score_loop_decisions)

lemma Score_cluster_name:
  "Score_cluster A input c scs = Inl x \<Longrightarrow> excl_Cluster x = c"
  "Score_cluster A input c scs = Inr y \<Longrightarrow> cand_Cluster y = c"
  by (auto simp: Score_cluster_def excluded_as_def Let_def split: prod.splits option.splits if_splits)

lemma names_of_decisions:
  "mset (map cand_Cluster (rights (decisions A input order))) +
   mset (map excl_Cluster (lefts (decisions A input order))) = mset (target_clusters input order)"
proof -
  have "mset (map cand_Cluster (rights rs)) + mset (map excl_Cluster (lefts rs)) = mset cs"
    if "rs = map (\<lambda>c. Score_cluster A input c (cluster_scs input c)) cs" for rs cs
    using that
  proof (induction cs arbitrary: rs)
    case (Cons c cs)
    then show ?case
      by (cases "Score_cluster A input c (cluster_scs input c)") (simp_all add: Score_cluster_name)
  qed simp
  then show ?thesis by (simp add: decisions_def)
qed

section \<open>The best node\<close>

text \<open>The VM fits on a node: its cores (rounded to a float) and its bytes are available there.\<close>

definition has_room :: "go_arch \<Rightarrow> SourceVMInfo \<Rightarrow> NodeMetrics \<Rightarrow> bool" where
  "has_room A vm n \<longleftrightarrow>
     f_le (f_of_i64 A (vm_CPUCores vm)) (AvailableCPUCores A n) \<and>
     sint (vm_MemoryBytes vm) \<le> sint (AvailableMemBytes n)"

lemma node_capable_iff [simp]: "node_capable A vm n = has_room A vm n"
  by (simp add: node_capable_def has_room_def)

definition best_step :: "go_arch \<Rightarrow> SourceVMInfo \<Rightarrow> NodeMetrics option \<Rightarrow> NodeMetrics \<Rightarrow> NodeMetrics option" where
  "best_step A vm best n =
     (if has_room A vm n then
        (case best of
           None \<Rightarrow> Some n
         | Some b \<Rightarrow> if f_gt (AvailableCPUCores A n) (AvailableCPUCores A b) then Some n else best)
      else best)"

lemma bestCapableNode_foldl: "bestCapableNode A nodes vm = foldl (best_step A vm) None nodes"
proof -
  have "bestCapableNode_loop A vm best ns = foldl (best_step A vm) best ns" for best ns
    by (induction A vm best ns rule: bestCapableNode_loop.induct) (simp_all add: best_step_def)
  then show ?thesis by (simp add: bestCapableNode_def)
qed

lemma AvailableCPUCores_lt_iff:
  "f_lt (AvailableCPUCores A m) (AvailableCPUCores A n) \<longleftrightarrow>
   \<not> f_le (AvailableCPUCores A n) (AvailableCPUCores A m)"
  by (rule f_lt_iff) (rule AvailableCPUCores_not_NaN)+

lemma best_step_None [simp]: "best_step A vm best n = None \<longleftrightarrow> best = None \<and> \<not> has_room A vm n"
  by (auto simp: best_step_def split: option.splits)

lemma bestCapableNode_None: "bestCapableNode A nodes vm = None \<longleftrightarrow> (\<forall>n\<in>set nodes. \<not> has_room A vm n)"
  unfolding bestCapableNode_foldl
proof (induction nodes rule: rev_induct)
  case (snoc n ns)
  then show ?case by auto
qed simp

text \<open>The node returned is the first of the capable nodes with the most available CPU.\<close>

lemma bestCapableNode_Some:
  "bestCapableNode A nodes vm = Some b \<Longrightarrow>
   \<exists>pre post. nodes = pre @ b # post \<and> has_room A vm b \<and>
     (\<forall>n\<in>set pre. has_room A vm n \<longrightarrow> f_lt (AvailableCPUCores A n) (AvailableCPUCores A b)) \<and>
     (\<forall>n\<in>set post. has_room A vm n \<longrightarrow> f_le (AvailableCPUCores A n) (AvailableCPUCores A b))"
proof (induction nodes arbitrary: b rule: rev_induct)
  case Nil
  then show ?case by (simp add: bestCapableNode_foldl)
next
  case (snoc n ns)
  have step: "best_step A vm (bestCapableNode A ns vm) n = Some b"
    using snoc.prems by (simp add: bestCapableNode_foldl)
  show ?case
  proof (cases "bestCapableNode A ns vm")
    case None
    then have "b = n" "has_room A vm n"
      using step by (simp_all add: best_step_def split: if_splits)
    with None show ?thesis by (intro exI [of _ ns] exI [of _ "[]"]) (auto simp: bestCapableNode_None)
  next
    case (Some c)
    obtain pre post where c: "ns = pre @ c # post" "has_room A vm c"
      "\<forall>n\<in>set pre. has_room A vm n \<longrightarrow> f_lt (AvailableCPUCores A n) (AvailableCPUCores A c)"
      "\<forall>n\<in>set post. has_room A vm n \<longrightarrow> f_le (AvailableCPUCores A n) (AvailableCPUCores A c)"
      using snoc.IH [OF Some] by blast
    show ?thesis
    proof (cases "has_room A vm n \<and> f_lt (AvailableCPUCores A c) (AvailableCPUCores A n)")
      case True
      then have b: "b = n" using step Some by (simp add: best_step_def)
      have "\<forall>m\<in>set ns. has_room A vm m \<longrightarrow> f_lt (AvailableCPUCores A m) (AvailableCPUCores A n)"
        using c True by (auto intro: f_lt_trans f_le_lt_trans)
      with b True show ?thesis by (intro exI [of _ ns] exI [of _ "[]"]) simp
    next
      case False
      then have b: "b = c" using step Some by (simp add: best_step_def split: if_splits)
      show ?thesis
        using c False b by (intro exI [of _ pre] exI [of _ "post @ [n]"])
          (auto simp: AvailableCPUCores_lt_iff)
    qed
  qed
qed

section \<open>The decision for one cluster\<close>

text \<open>Ceph storage fits the volumes: capacity is reported, a tenth of it is free and the free
  space holds the volumes.\<close>

definition ceph_fits :: "go_arch \<Rightarrow> CephMetrics \<Rightarrow> VMVolumeInfo list \<Rightarrow> bool" where
  "ceph_fits A ceph vols \<longleftrightarrow>
     ceph_TotalBytes ceph \<noteq> 0 \<and>
     \<not> f_lt (f_div A (f_of_i64 A (ceph_AvailableBytes ceph)) (f_of_i64 A (ceph_TotalBytes ceph)))
          (minCephAvailableRatio A) \<and>
     sint (sum_list (map vol_SizeBytes vols)) \<le> sint (ceph_AvailableBytes ceph)"

definition nodes_of :: "ScoringInput \<Rightarrow> string \<Rightarrow> NodeMetrics list" where
  "nodes_of input c = (case in_NodeMetrics input c of None \<Rightarrow> [] | Some ns \<Rightarrow> ns)"

definition ceph_of :: "ScoringInput \<Rightarrow> string \<Rightarrow> CephMetrics" where
  "ceph_of input c = (case in_CephMetrics input c of None \<Rightarrow> CephMetrics_zero | Some m \<Rightarrow> m)"

text \<open>The provisioners of the storage classes that the cluster shares with the VM.\<close>

definition shared_types :: "ScoringInput \<Rightarrow> string \<Rightarrow> StorageType set" where
  "shared_types input c =
     {classifyStorageType (sc_Provisioner sc) | sc.
        sc \<in> set (cluster_scs input c) \<and> sc_Name sc \<in> sourceVolumesSCs input}"

definition can_host :: "go_arch \<Rightarrow> ScoringInput \<Rightarrow> string \<Rightarrow> bool" where
  "can_host A input c \<longleftrightarrow>
     (\<exists>n\<in>set (nodes_of input c). has_room A (in_SourceVM input) n) \<and>
     (if StorageTypeCeph \<in> shared_types input c
      then ceph_fits A (ceph_of input c) (vm_Volumes (in_SourceVM input))
      else StorageTypeCloud \<in> shared_types input c)"

lemma fold_add_sum: "fold (\<lambda>v acc. acc + f v) vs a = a + sum_list (map f vs)" for a :: i64
  by (induction vs arbitrary: a) (simp_all add: add.assoc)

lemma computeStorageScore_ok:
  assumes "computeStorageScore A t vols ceph = (score, avail, ok)" and "t \<noteq> StorageTypeOther"
    and "t = StorageTypeCeph \<longrightarrow> ceph_TotalBytes ceph \<noteq> 0"
  shows "ok \<longleftrightarrow> t = StorageTypeCloud \<or> ceph_fits A ceph vols"
  using assms
  by (cases t) (auto simp: computeStorageScore_def ceph_fits_def fold_add_sum Let_def split: if_splits)

lemma classifyFromProvisioners_cases:
  "classifyFromProvisioners ps =
     (let T = (\<lambda>p. classifyStorageType (sc_Provisioner p)) ` set ps
      in if StorageTypeCeph \<in> T then StorageTypeCeph
         else if StorageTypeCloud \<in> T then StorageTypeCloud else StorageTypeOther)"
  by (auto simp: classifyFromProvisioners_def Let_def list_ex_iff image_iff eq_commute)

lemma Score_cluster_iff:
  "(\<exists>y. Score_cluster A input c (cluster_scs input c) = Inr y) \<longleftrightarrow> can_host A input c"
proof -
  define m where "m = filter (\<lambda>sc. sc_Name sc \<in> sourceVolumesSCs input) (cluster_scs input c)"
  have T: "(\<lambda>p. classifyStorageType (sc_Provisioner p)) ` set m = shared_types input c"
    by (auto simp: shared_types_def m_def)
  have none: "m = [] \<longleftrightarrow> shared_types input c = {}" using T by (metis image_is_empty set_empty)
  have match: "matchStorageClasses (sourceVolumesSCs input) (cluster_scs input c) = (map sc_Name m, m)"
    by (simp add: matchStorageClasses_def m_def Let_def)
  obtain score avail ok where st: "computeStorageScore A (classifyFromProvisioners m)
      (vm_Volumes (in_SourceVM input)) (ceph_of input c) = (score, avail, ok)"
    by (metis prod_cases3)
  note ok = computeStorageScore_ok [OF st, unfolded classifyFromProvisioners_cases T Let_def]
  show ?thesis
  proof (cases "bestCapableNode A (nodes_of input c) (in_SourceVM input)")
    case None
    then have "\<not> can_host A input c" by (simp add: can_host_def bestCapableNode_None)
    with None match show ?thesis
      by (auto simp: Score_cluster_def excluded_as_def nodes_of_def [symmetric] Let_def)
  next
    case (Some b)
    then have node: "\<exists>n\<in>set (nodes_of input c). has_room A (in_SourceVM input) n"
      by (metis bestCapableNode_None option.distinct(1))
    then have "nodes_of input c \<noteq> []" by auto
    with Some match st show ?thesis
      using none ok node
      by (auto simp: Score_cluster_def can_host_def excluded_as_def ceph_fits_def
          nodes_of_def [symmetric] ceph_of_def [symmetric] classifyFromProvisioners_cases T Let_def
          split: if_splits)
  qed
qed

section \<open>Bounds of the scores\<close>

definition in_range :: "f64 \<Rightarrow> bool" where
  "in_range x \<longleftrightarrow> (\<exists>r. x = Fin r \<and> 0 \<le> r \<and> r \<le> 100)"

text \<open>Node metrics are finite numbers; Prometheus may also report NaN and infinities.\<close>

definition finite_node :: "NodeMetrics \<Rightarrow> bool" where
  "finite_node n \<longleftrightarrow>
     (\<exists>a r. nm_AllocatableCPUCores n = Fin a \<and> nm_RequestedCPUCores n = Fin r)"

definition finite_metrics :: "ScoringInput \<Rightarrow> bool" where
  "finite_metrics input \<longleftrightarrow> (\<forall>c. list_all finite_node (nodes_of input c))"

lemma in_range_not_NaN: "in_range x \<Longrightarrow> x \<noteq> NaN"
  by (auto simp: in_range_def)

lemma clamp_in_range: "x \<noteq> NaN \<Longrightarrow> in_range (clamp x)"
  by (cases x) (auto simp: clamp_def in_range_def)

context float_arch
begin

lemma of_i64_Fin: "\<exists>r. f_of_i64 A w = Fin r"
proof -
  have "(2 :: real) ^ 63 \<le> 2 ^ 1000" by (rule power_increasing) simp_all
  moreover have "\<bar>real_of_int (sint w)\<bar> \<le> 2 ^ 63" proof -
    have "\<bar>sint w\<bar> \<le> 2 ^ 63" using sint_range [of w] by simp
    then have "real_of_int \<bar>sint w\<bar> \<le> real_of_int (2 ^ 63)" by (rule of_int_le_iff [THEN iffD2])
    then show ?thesis by simp
  qed
  ultimately show ?thesis using rnd_error [of "of_int (sint w)"] by (auto simp: f_of_i64_def)
qed

lemma of_i64_nonzero:
  assumes "w \<noteq> 0"
  shows "\<exists>r. f_of_i64 A w = Fin r \<and> r \<noteq> 0"
proof -
  obtain r where r: "f_of_i64 A w = Fin r" using of_i64_Fin by blast
  have "sint w \<noteq> 0" using assms by (metis signed_0 signed_word_eqI)
  then have "1 \<le> real_of_int (sint w) \<or> real_of_int (sint w) \<le> -1" by linarith
  then have "1 \<le> r \<or> r \<le> -1"
    using r rnd_mono [of 1 "of_int (sint w)"] rnd_mono [of "of_int (sint w)" "-1"] rnd_int [of 1]
      rnd_int [of "-1"] by (auto simp: f_of_i64_def)
  with r show ?thesis by auto
qed

lemma computeCPUScore_range:
  assumes "finite_node n"
  shows "in_range (computeCPUScore A n cpu)"
proof -
  obtain a where a: "nm_AllocatableCPUCores n = Fin a" using assms by (auto simp: finite_node_def)
  obtain v where v: "f_of_i64 A cpu = Fin v" using of_i64_Fin by blast
  have "f_sub A (AvailableCPUCores A n) (Fin v) \<noteq> NaN"
    by (rule sub_Fin_not_NaN) (rule AvailableCPUCores_not_NaN)
  then have "a \<noteq> 0 \<Longrightarrow>
      in_range (clamp (f_mul A (f_div A (f_sub A (AvailableCPUCores A n) (Fin v)) (Fin a)) (Fin 100)))"
    by (intro clamp_in_range mul_not_NaN div_not_NaN) simp_all
  then show ?thesis
    using a v by (auto simp: computeCPUScore_def f_is_zero_def in_range_def)
qed

lemma computeMemScore_range: "in_range (computeMemScore A n mem)"
proof (cases "nm_AllocatableMemBytes n = 0")
  case False
  then obtain a where a: "f_of_i64 A (nm_AllocatableMemBytes n) = Fin a" "a \<noteq> 0"
    using of_i64_nonzero by blast
  obtain v where v: "f_of_i64 A (AvailableMemBytes n - mem) = Fin v" using of_i64_Fin by blast
  have "in_range (clamp (f_mul A (f_div A (Fin v) (Fin a)) (Fin 100)))"
    using a(2) by (intro clamp_in_range mul_not_NaN div_not_NaN) simp_all
  then show ?thesis using False a(1) v by (simp add: computeMemScore_def)
qed (simp add: computeMemScore_def in_range_def)

lemma computeStorageScore_range:
  assumes "t = StorageTypeCeph \<longrightarrow> ceph_TotalBytes ceph \<noteq> 0"
  shows "in_range (fst (computeStorageScore A t vols ceph))"
proof (cases "t = StorageTypeCeph")
  case True
  then obtain a where a: "f_of_i64 A (ceph_TotalBytes ceph) = Fin a" "a \<noteq> 0"
    using of_i64_nonzero assms by blast
  obtain v where v: "f_of_i64 A (ceph_AvailableBytes ceph) = Fin v" using of_i64_Fin by blast
  have "in_range (clamp (f_mul A (f_div A (Fin v) (Fin a)) (Fin 100)))"
    using a(2) by (intro clamp_in_range mul_not_NaN div_not_NaN) simp_all
  then show ?thesis
    using True a(1) v by (auto simp: computeStorageScore_def Let_def in_range_def simp del: f_div.simps)
qed (cases t; simp add: computeStorageScore_def in_range_def)

text \<open>Rounding to two decimals maps anything below 100.001 into the range.\<close>

lemma round2_range:
  assumes "0 \<le> r" and "r \<le> 100 + 1 / 1000"
  shows "in_range (round2 A (Fin r))"
proof -
  obtain y where y: "rnd A (r * 100) = Fin y" "\<bar>y - r * 100\<bar> \<le> 1 / 1000000"
    using rnd_close [of "r * 100"] assms by auto
  have "f_le (Fin 0) (Fin y)" using rnd_mono [of 0 "r * 100"] y(1) assms(1) by simp
  then have y0: "0 \<le> y" by simp
  have "y \<le> 10000 + 2 / 10" using y(2) assms(2) by linarith
  then have fl: "0 \<le> \<lfloor>y + 1 / 2\<rfloor>" "\<lfloor>y + 1 / 2\<rfloor> \<le> 10000"
    using y0 by linarith+
  then have "(0 :: real) \<le> of_int \<lfloor>y + 1 / 2\<rfloor> / 100" "of_int \<lfloor>y + 1 / 2\<rfloor> / 100 \<le> (100 :: real)"
    by simp_all
  then have "\<exists>q. rnd A (of_int \<lfloor>y + 1 / 2\<rfloor> / 100) = Fin q \<and> 0 \<le> q \<and> q \<le> 100"
    using rnd_between_int [of 0 _ 100] by auto
  then show ?thesis using y(1) y0 by (auto simp: round2_def in_range_def)
qed

lemma round2_in_range: "in_range x \<Longrightarrow> in_range (round2 A x)"
  using round2_range by (auto simp: in_range_def [of x])

lemma weighted:
  assumes "0 \<le> w" and "w \<le> 1" and "0 \<le> x" and "x \<le> 100"
  shows "\<exists>y z. rnd A w = Fin y \<and> f_mul A (Fin y) (Fin x) = Fin z \<and> 0 \<le> z \<and> z \<le> w * x + 1 / 5000"
proof -
  obtain y where y: "rnd A w = Fin y" "\<bar>y - w\<bar> \<le> 1 / 1000000" using rnd_close [of w] assms by auto
  have y0: "0 \<le> y" using rnd_mono [of 0 w] y(1) assms(1) by simp
  have yx: "0 \<le> y * x" "y * x \<le> (w + 1 / 1000000) * x"
  proof -
    have "y \<le> w + 1 / 1000000" using y(2) by linarith
    then show "y * x \<le> (w + 1 / 1000000) * x" using assms(3) by (rule mult_right_mono)
  qed (use y0 assms(3) in simp)
  have wx: "w * x \<le> 100" using assms mult_mono [of w 1 x 100] by simp
  have yx': "y * x \<le> w * x + 1 / 10000" using yx(2) assms(4) by (simp add: algebra_simps)
  obtain z where z: "rnd A (y * x) = Fin z" "\<bar>z - y * x\<bar> \<le> 1 / 1000000"
    using rnd_close [of "y * x"] yx(1) yx' wx by auto
  have "0 \<le> z" using rnd_mono [of 0 "y * x"] z(1) yx(1) by simp
  moreover have "z \<le> w * x + 1 / 5000" using z(2) yx' by linarith
  ultimately show ?thesis using y(1) z(1) by simp
qed

lemma f_add_close:
  assumes "0 \<le> a" and "0 \<le> b" and "a + b \<le> 1000"
  shows "\<exists>c. f_add A (Fin a) (Fin b) = Fin c \<and> 0 \<le> c \<and> c \<le> a + b + 1 / 1000000"
proof -
  obtain c where c: "rnd A (a + b) = Fin c" "\<bar>c - (a + b)\<bar> \<le> 1 / 1000000"
    using rnd_close [of "a + b"] assms by auto
  have "0 \<le> c" using rnd_mono [of 0 "a + b"] c(1) assms by simp
  moreover have "c \<le> a + b + 1 / 1000000" using c(2) by linarith
  ultimately show ?thesis using c(1) by simp
qed

lemma totalScore_range:
  assumes "in_range x" and "in_range y" and "in_range z"
  shows "in_range (round2 A (totalScore A x y z))"
proof -
  obtain a b c where abc: "x = Fin a" "y = Fin b" "z = Fin c" "0 \<le> a" "a \<le> 100" "0 \<le> b" "b \<le> 100"
    "0 \<le> c" "c \<le> 100" using assms by (auto simp: in_range_def)
  obtain a1 where a1: "f_mul A (weightCPU A) x = Fin a1" "0 \<le> a1" "a1 \<le> 35 / 100 * a + 1 / 5000"
    using weighted [of "35 / 100" a] abc by (auto simp: weightCPU_def)
  obtain b1 where b1: "f_mul A (weightMemory A) y = Fin b1" "0 \<le> b1" "b1 \<le> 35 / 100 * b + 1 / 5000"
    using weighted [of "35 / 100" b] abc by (auto simp: weightMemory_def)
  obtain c1 where c1: "f_mul A (weightStorage A) z = Fin c1" "0 \<le> c1" "c1 \<le> 30 / 100 * c + 1 / 5000"
    using weighted [of "30 / 100" c] abc by (auto simp: weightStorage_def)
  obtain d where d: "f_add A (Fin a1) (Fin b1) = Fin d" "0 \<le> d" "d \<le> a1 + b1 + 1 / 1000000"
    using f_add_close [of a1 b1] a1 b1 abc by auto
  obtain t where t: "f_add A (Fin d) (Fin c1) = Fin t" "0 \<le> t" "t \<le> d + c1 + 1 / 1000000"
    using f_add_close [of d c1] a1 b1 c1 d abc by auto
  have "totalScore A x y z = Fin t" using a1 b1 c1 d t by (simp add: totalScore_def)
  moreover have "t \<le> 100 + 1 / 1000" using a1 b1 c1 d t abc by argo
  ultimately show ?thesis using round2_range t(2) by simp
qed

end

section \<open>The fields of a candidate\<close>

lemma Score_cluster_Inr:
  assumes "Score_cluster A input c scs = Inr y"
  obtains b t m ss avail where "bestCapableNode A (nodes_of input c) (in_SourceVM input) = Some b"
    and "m = filter (\<lambda>sc. sc_Name sc \<in> sourceVolumesSCs input) scs" and "m \<noteq> []"
    and "t = classifyFromProvisioners m" and "t \<noteq> StorageTypeOther"
    and "t = StorageTypeCeph \<longrightarrow> ceph_TotalBytes (ceph_of input c) \<noteq> 0"
    and "computeStorageScore A t (vm_Volumes (in_SourceVM input)) (ceph_of input c) = (ss, avail, True)"
    and "y = \<lparr>cand_Cluster = c,
       cand_TotalScore = round2 A (totalScore A (computeCPUScore A b (vm_CPUCores (in_SourceVM input)))
         (computeMemScore A b (vm_MemoryBytes (in_SourceVM input))) ss),
       cand_CPUScore = round2 A (computeCPUScore A b (vm_CPUCores (in_SourceVM input))),
       cand_MemoryScore = round2 A (computeMemScore A b (vm_MemoryBytes (in_SourceVM input))),
       cand_StorageScore = round2 A ss, cand_MatchedStorageClasses = map sc_Name m,
       cand_BestNode = nm_NodeName b, cand_AvailableCPUCores = round2 A (AvailableCPUCores A b),
       cand_AvailableMemoryBytes = AvailableMemBytes b, cand_StorageType = t,
       cand_CephAvailableBytes = avail\<rparr>"
proof -
  define m where "m = filter (\<lambda>sc. sc_Name sc \<in> sourceVolumesSCs input) scs"
  have match: "matchStorageClasses (sourceVolumesSCs input) scs = (map sc_Name m, m)"
    by (simp add: matchStorageClasses_def m_def Let_def)
  obtain ss avail ok where st: "computeStorageScore A (classifyFromProvisioners m)
      (vm_Volumes (in_SourceVM input)) (ceph_of input c) = (ss, avail, ok)" by (metis prod_cases3)
  obtain b where b: "bestCapableNode A (nodes_of input c) (in_SourceVM input) = Some b"
    using assms match by (auto simp: Score_cluster_def excluded_as_def Let_def nodes_of_def [symmetric]
        split: if_splits option.splits)
  show ?thesis
    using assms match b st
    by (intro that [of b m "classifyFromProvisioners m" ss avail])
      (auto simp: m_def [symmetric] Score_cluster_def excluded_as_def Let_def nodes_of_def [symmetric]
        ceph_of_def [symmetric] split: if_splits)
qed

lemma candidate_in_range:
  assumes "float_arch A" and "finite_metrics input" and "Score_cluster A input c scs = Inr y"
  shows "in_range (cand_TotalScore y) \<and> in_range (cand_CPUScore y) \<and> in_range (cand_MemoryScore y) \<and>
    in_range (cand_StorageScore y)"
  using assms(3)
proof (cases rule: Score_cluster_Inr)
  case (1 b t m ss avail)
  have "b \<in> set (nodes_of input c)" using bestCapableNode_Some [OF 1(1)] by auto
  then have "finite_node b" using assms(2) by (auto simp: finite_metrics_def list_all_iff)
  then have cpu: "in_range (computeCPUScore A b (vm_CPUCores (in_SourceVM input)))"
    by (rule float_arch.computeCPUScore_range [OF assms(1)])
  have mem: "in_range (computeMemScore A b (vm_MemoryBytes (in_SourceVM input)))"
    by (rule float_arch.computeMemScore_range [OF assms(1)])
  have st: "in_range ss"
    using float_arch.computeStorageScore_range [OF assms(1), of t "ceph_of input c"] 1(6,7) by (metis fst_conv)
  show ?thesis
    using cpu mem st float_arch.totalScore_range [OF assms(1) cpu mem st]
      float_arch.round2_in_range [OF assms(1)] by (simp add: 1(8))
qed

lemma better_strict_weak:
  "\<forall>y\<in>S. cand_TotalScore y \<noteq> NaN \<Longrightarrow> strict_weak better_candidate S"
  unfolding strict_weak_def better_candidate_def
  by (intro conjI ballI impI) (auto intro: f_lt_trans dest: f_not_lt_trans)

lemma range_order_mset:
  assumes "range_order m o1" and "range_order m o2"
  shows "mset o1 = mset o2"
  using assms by (metis range_order_def set_eq_iff_mset_eq_distinct)

lemma decisions_order:
  "mset o1 = mset o2 \<Longrightarrow> mset (decisions A input o1) = mset (decisions A input o2)"
  by (simp add: decisions_def target_clusters_def)

lemma in_decisions:
  assumes "range_order (in_ClusterSCs input) order"
  shows "r \<in> set (decisions A input order) \<longleftrightarrow>
    (\<exists>c\<in>dom (in_ClusterSCs input). c \<noteq> vm_Cluster (in_SourceVM input) \<and>
       r = Score_cluster A input c (cluster_scs input c))"
  using assms by (auto simp: decisions_def target_clusters_def range_order_def)

lemma decided_not_NaN:
  assumes "float_arch A" and "finite_metrics input"
  shows "\<forall>y\<in>set (rights (decisions A input order)). cand_TotalScore y \<noteq> NaN"
proof
  fix y assume "y \<in> set (rights (decisions A input order))"
  then obtain c where "Score_cluster A input c (cluster_scs input c) = Inr y"
    by (auto simp: decisions_def)
  then show "cand_TotalScore y \<noteq> NaN"
    using candidate_in_range [OF assms] in_range_not_NaN by blast
qed

lemma Score_candidate:
  assumes "slice_sort sort_Slice" and "range_order (in_ClusterSCs input) order"
  shows "(\<exists>y\<in>set (fst (Score A sort_Slice order input)). cand_Cluster y = c) \<longleftrightarrow>
     c \<in> dom (in_ClusterSCs input) \<and> c \<noteq> vm_Cluster (in_SourceVM input) \<and> can_host A input c"
proof -
  have "(\<exists>y\<in>set (fst (Score A sort_Slice order input)). cand_Cluster y = c) \<longleftrightarrow>
      (\<exists>y. Inr y \<in> set (decisions A input order) \<and> cand_Cluster y = c)"
    by (auto simp: Score_decisions slice_sort.sort_set [OF assms(1)])
  also have "\<dots> \<longleftrightarrow> c \<in> dom (in_ClusterSCs input) \<and> c \<noteq> vm_Cluster (in_SourceVM input) \<and>
      (\<exists>y. Score_cluster A input c (cluster_scs input c) = Inr y)"
    unfolding in_decisions [OF assms(2)] by (metis Score_cluster_name(2))
  finally show ?thesis by (simp only: Score_cluster_iff)
qed

section \<open>An input for the witnesses\<close>

definition demo_vm :: SourceVMInfo where
  "demo_vm = \<lparr>vm_Name = ''vm'', vm_Namespace = ''ns'', vm_Cluster = ''src'', vm_CPUCores = 2,
     vm_MemoryBytes = 4, vm_Volumes =
       [\<lparr>vol_Name = ''d'', vol_StorageClass = ''gp3'', vol_SizeBytes = 10\<rparr>]\<rparr>"

definition demo_node :: "f64 \<Rightarrow> NodeMetrics" where
  "demo_node alloc = \<lparr>nm_NodeName = ''n1'', nm_AllocatableCPUCores = alloc, nm_AllocatableMemBytes = 100,
     nm_RequestedCPUCores = Fin 1, nm_RequestedMemBytes = 10\<rparr>"

definition demo_input :: "f64 \<Rightarrow> ScoringInput" where
  "demo_input alloc = \<lparr>in_SourceVM = demo_vm,
     in_ClusterSCs = [''src'' \<mapsto> [], ''a'' \<mapsto> [\<lparr>sc_Name = ''gp3'', sc_Provisioner = ''ebs.csi.aws.com''\<rparr>],
       ''b'' \<mapsto> []],
     in_NodeMetrics = [''a'' \<mapsto> [demo_node alloc]], in_CephMetrics = Map.empty\<rparr>"

abbreviation demo_order :: "string list" where
  "demo_order \<equiv> [''src'', ''a'', ''b'']"

lemma demo_range_order: "range_order (in_ClusterSCs (demo_input alloc)) demo_order"
  by (auto simp: range_order_def demo_input_def)

lemma demo_fields: "in_SourceVM (demo_input alloc) = demo_vm" "vm_CPUCores demo_vm = 2"
  "nm_AllocatableCPUCores (demo_node alloc) = alloc" "nm_RequestedCPUCores (demo_node alloc) = Fin 1"
  by (simp_all add: demo_input_def demo_vm_def demo_node_def)

lemma demo_nodes: "nodes_of (demo_input alloc) c = (if c = ''a'' then [demo_node alloc] else [])"
  by (simp add: nodes_of_def demo_input_def)

lemma demo_types: "shared_types (demo_input alloc) ''a'' = {StorageTypeCloud}"
proof -
  have "classifyStorageType ''ebs.csi.aws.com'' = StorageTypeCloud" by code_simp
  moreover have "''gp3'' \<in> sourceVolumesSCs (demo_input alloc)"
    by (simp add: sourceVolumesSCs_code demo_input_def demo_vm_def)
  ultimately show ?thesis
    by (auto simp: shared_types_def cluster_scs_def demo_input_def)
qed

lemma demo_can_host:
  "has_room ideal_arch demo_vm (demo_node alloc) \<Longrightarrow> can_host ideal_arch (demo_input alloc) ''a''"
  by (simp add: can_host_def demo_nodes demo_types) (simp add: demo_input_def)

lemma demo_room: "has_room ideal_arch demo_vm (demo_node (Fin 8))"
  "has_room ideal_arch demo_vm (demo_node PInf)"
  by (simp_all add: has_room_def demo_vm_def demo_node_def AvailableCPUCores_def AvailableMemBytes_def
      f_sub_def f_of_i64_def Let_def)

lemma demo_finite: "finite_metrics (demo_input (Fin a))"
  by (simp add: finite_metrics_def demo_nodes finite_node_def demo_node_def)

lemma demo_candidate:
  assumes "has_room ideal_arch demo_vm (demo_node alloc)"
  shows "\<exists>y\<in>set (fst (Score ideal_arch insertionSort demo_order (demo_input alloc))). cand_Cluster y = ''a''"
  using Score_candidate [OF insertion.slice_sort_axioms demo_range_order, of ideal_arch alloc "''a''"] demo_can_host [OF assms]
  by (simp add: demo_input_def demo_vm_def)

section \<open>Properties\<close>

text \<open>C28: every cluster of the map but the source cluster is reported exactly once, as a candidate
  or as an exclusion, and no other cluster is reported.\<close>

theorem score_partition:
  assumes "slice_sort sort_Slice" and "range_order (in_ClusterSCs input) order"
    and "Score A sort_Slice order input = (candidates, excluded)"
  shows "mset (map cand_Cluster candidates) + mset (map excl_Cluster excluded) =
     mset_set (dom (in_ClusterSCs input) - {vm_Cluster (in_SourceVM input)})"
proof -
  have c: "mset candidates = mset (rights (decisions A input order))"
    and e: "excluded = lefts (decisions A input order)"
    using assms(1,3) by (auto simp: Score_decisions slice_sort.sort_mset)
  have "mset (map cand_Cluster candidates) + mset (map excl_Cluster excluded) =
      mset (target_clusters input order)"
    using names_of_decisions [of A input order] c e by (simp add: mset_map)
  also have "\<dots> = mset_set (set (target_clusters input order))"
    by (rule mset_set_set [symmetric]) (use assms(2) in \<open>simp add: range_order_def target_clusters_def\<close>)
  also have "set (target_clusters input order) =
      dom (in_ClusterSCs input) - {vm_Cluster (in_SourceVM input)}"
    using assms(2) by (auto simp: target_clusters_def range_order_def)
  finally show ?thesis .
qed

theorem score_partition_witness:
  "mset (map cand_Cluster (fst (Score ideal_arch insertionSort demo_order (demo_input (Fin 8))))) +
   mset (map excl_Cluster (snd (Score ideal_arch insertionSort demo_order (demo_input (Fin 8))))) =
   {#''a'', ''b''#}"
proof -
  have "dom (in_ClusterSCs (demo_input (Fin 8))) - {vm_Cluster (in_SourceVM (demo_input (Fin 8)))} =
      {''a'', ''b''}" by (auto simp: demo_input_def demo_vm_def)
  with score_partition [OF insertion.slice_sort_axioms demo_range_order prod.collapse [symmetric],
      of ideal_arch "Fin 8"]
  show ?thesis by simp
qed

text \<open>C8: a cluster is a candidate exactly if it is another cluster with a node that has the
  CPU and memory of the VM free and shares a storage class with the VM whose storage is
  supported and, for Ceph, has the capacity.\<close>

theorem candidate_iff:
  assumes "slice_sort sort_Slice" and "range_order (in_ClusterSCs input) order"
  shows "(\<exists>y\<in>set (fst (Score A sort_Slice order input)). cand_Cluster y = c) \<longleftrightarrow>
     c \<in> dom (in_ClusterSCs input) \<and> c \<noteq> vm_Cluster (in_SourceVM input) \<and> can_host A input c"
  using assms by (rule Score_candidate)

theorem candidate_iff_witness:
  "\<exists>y\<in>set (fst (Score ideal_arch insertionSort demo_order (demo_input (Fin 8)))). cand_Cluster y = ''a''"
  using candidate_iff [OF insertion.slice_sort_axioms demo_range_order, of ideal_arch "Fin 8" "''a''"]
    demo_can_host [OF demo_room(1)]
  by (simp add: demo_input_def demo_vm_def)

text \<open>C29: what a candidate reports is true: its node is a node of the cluster with room for the
  VM and no node with room has more CPU available, its storage classes are classes of both
  sides, and Ceph storage holds the volumes.\<close>

theorem candidate_sound:
  assumes "slice_sort sort_Slice" and "y \<in> set (fst (Score A sort_Slice order input))"
  shows "\<exists>b\<in>set (nodes_of input (cand_Cluster y)).
     cand_BestNode y = nm_NodeName b \<and> has_room A (in_SourceVM input) b \<and>
     (\<forall>n\<in>set (nodes_of input (cand_Cluster y)). has_room A (in_SourceVM input) n \<longrightarrow>
        f_le (AvailableCPUCores A n) (AvailableCPUCores A b)) \<and>
     cand_AvailableMemoryBytes y = AvailableMemBytes b \<and>
     cand_MatchedStorageClasses y \<noteq> [] \<and>
     set (cand_MatchedStorageClasses y) =
       sc_Name ` set (cluster_scs input (cand_Cluster y)) \<inter> sourceVolumesSCs input \<and>
     (cand_StorageType y = StorageTypeCeph \<longrightarrow>
        ceph_fits A (ceph_of input (cand_Cluster y)) (vm_Volumes (in_SourceVM input)) \<and>
        cand_CephAvailableBytes y = ceph_AvailableBytes (ceph_of input (cand_Cluster y))) \<and>
     cand_StorageType y \<noteq> StorageTypeOther"
proof -
  have "Inr y \<in> set (decisions A input order)"
    using assms(2) by (simp add: Score_decisions slice_sort.sort_set [OF assms(1)])
  then obtain c where c: "Score_cluster A input c (cluster_scs input c) = Inr y"
    by (auto simp: decisions_def)
  then show ?thesis
  proof (cases rule: Score_cluster_Inr)
    case (1 b t m ss avail)
    obtain pre post where b: "nodes_of input c = pre @ b # post" "has_room A (in_SourceVM input) b"
      "\<forall>n\<in>set pre. has_room A (in_SourceVM input) n \<longrightarrow> f_lt (AvailableCPUCores A n) (AvailableCPUCores A b)"
      "\<forall>n\<in>set post. has_room A (in_SourceVM input) n \<longrightarrow> f_le (AvailableCPUCores A n) (AvailableCPUCores A b)"
      using bestCapableNode_Some [OF 1(1)] by blast
    then have max: "\<forall>n\<in>set (nodes_of input c). has_room A (in_SourceVM input) n \<longrightarrow>
        f_le (AvailableCPUCores A n) (AvailableCPUCores A b)"
      by (auto intro: f_lt_le f_le_refl [OF AvailableCPUCores_not_NaN])
    have ceph: "t = StorageTypeCeph \<longrightarrow> ceph_fits A (ceph_of input c) (vm_Volumes (in_SourceVM input)) \<and>
        avail = ceph_AvailableBytes (ceph_of input c)"
      using computeStorageScore_ok [OF 1(7,5,6)] 1(7)
      by (auto simp: computeStorageScore_def Let_def split: if_splits)
    have "set (map sc_Name m) = sc_Name ` set (cluster_scs input c) \<inter> sourceVolumesSCs input"
      using 1(2) by auto
    with max ceph b(1,2) 1(3,5) show ?thesis
      by (intro bexI [of _ b]) (simp_all add: 1(8))
  qed
qed

theorem candidate_sound_witness:
  "\<exists>y\<in>set (fst (Score ideal_arch insertionSort demo_order (demo_input (Fin 8)))).
     cand_BestNode y = ''n1'' \<and> cand_MatchedStorageClasses y \<noteq> []"
proof -
  obtain y where y: "y \<in> set (fst (Score ideal_arch insertionSort demo_order (demo_input (Fin 8))))"
    "cand_Cluster y = ''a''" using demo_candidate [OF demo_room(1)] by blast
  from candidate_sound [OF insertion.slice_sort_axioms y(1)] y show ?thesis
    by (intro bexI [of _ y]) (simp_all add: demo_nodes demo_node_def)
qed

text \<open>C30: with finite metrics every score of every candidate is a number between 0 and 100, for
  any rounding with the promises of IEEE 754.\<close>

theorem scores_bounded:
  assumes "float_arch A" and "slice_sort sort_Slice" and "finite_metrics input"
    and "y \<in> set (fst (Score A sort_Slice order input))"
  shows "in_range (cand_TotalScore y) \<and> in_range (cand_CPUScore y) \<and> in_range (cand_MemoryScore y) \<and>
     in_range (cand_StorageScore y)"
proof -
  have "Inr y \<in> set (decisions A input order)"
    using assms(4) by (simp add: Score_decisions slice_sort.sort_set [OF assms(2)])
  then show ?thesis using candidate_in_range [OF assms(1,3)] by (auto simp: decisions_def)
qed

theorem scores_bounded_witness:
  "\<exists>y\<in>set (fst (Score ideal_arch insertionSort demo_order (demo_input (Fin 8)))).
     in_range (cand_TotalScore y)"
  using demo_candidate [OF demo_room(1)]
    scores_bounded [OF ideal.float_arch_axioms insertion.slice_sort_axioms demo_finite] by blast

lemma Score_sorted:
  assumes "float_arch A" and "slice_sort sort_Slice" and "finite_metrics input"
  shows "sorted_wrt (\<lambda>a b. f_ge (cand_TotalScore a) (cand_TotalScore b))
     (fst (Score A sort_Slice order input))"
proof -
  let ?cs = "rights (decisions A input order)"
  have nn: "\<forall>y\<in>set ?cs. cand_TotalScore y \<noteq> NaN"
    by (rule decided_not_NaN [OF assms(1,3)])
  have "sorted_wrt (\<lambda>a b. \<not> better_candidate b a) (sort_Slice better_candidate ?cs)"
    by (rule slice_sort.sort_sorted [OF assms(2) better_strict_weak [OF nn]])
  then have "sorted_wrt (\<lambda>a b. f_ge (cand_TotalScore a) (cand_TotalScore b)) (sort_Slice better_candidate ?cs)"
    by (rule sorted_wrt_mono_rel [rotated])
      (use nn in \<open>auto simp: better_candidate_def f_lt_iff slice_sort.sort_set [OF assms(2)]\<close>)
  then show ?thesis by (simp add: Score_decisions)
qed

lemma sorted_scores_unique:
  assumes "sorted_wrt (\<lambda>a b. f_ge (f a) (f b)) xs" and "sorted_wrt (\<lambda>a b. f_ge (f a) (f b)) ys"
    and "mset xs = mset ys"
  shows "map f xs = map f ys"
proof -
  have "mset (map f xs) = mset (map f ys)" using assms(3) by simp
  moreover have "sorted_wrt f_ge (map f xs)" "sorted_wrt f_ge (map f ys)" using assms(1,2) by (simp_all add: sorted_wrt_map)
  ultimately show ?thesis using f_le_antisym by (intro sorted_wrt_unique [of f_ge]) auto
qed

text \<open>C31: with finite metrics the candidates are listed by falling total score.\<close>

theorem ranking_sorted:
  assumes "float_arch A" and "slice_sort sort_Slice" and "finite_metrics input"
  shows "sorted_wrt (\<lambda>a b. f_ge (cand_TotalScore a) (cand_TotalScore b))
     (fst (Score A sort_Slice order input))"
  using assms by (rule Score_sorted)

theorem ranking_sorted_witness:
  "sorted_wrt (\<lambda>a b. f_ge (cand_TotalScore a) (cand_TotalScore b))
     (fst (Score ideal_arch insertionSort demo_order (demo_input (Fin 8)))) \<and>
   fst (Score ideal_arch insertionSort demo_order (demo_input (Fin 8))) \<noteq> []"
  using demo_candidate [OF demo_room(1)]
    ranking_sorted [OF ideal.float_arch_axioms insertion.slice_sort_axioms demo_finite] by fastforce

text \<open>C32: what the result owes to the order in which Go iterates over the map of clusters. With
  finite metrics the same candidates and the same exclusions are found, the same total score
  stands at every place of the ranking, and the ranking is the same list if no two candidates
  tie. Only candidates with the same score may change places; the exclusions come in the order of
  the iteration.\<close>

theorem order_independent:
  assumes "float_arch A" and "slice_sort sort_Slice" and "finite_metrics input"
    and "range_order (in_ClusterSCs input) o1" and "range_order (in_ClusterSCs input) o2"
  shows "mset (fst (Score A sort_Slice o1 input)) = mset (fst (Score A sort_Slice o2 input)) \<and>
     mset (snd (Score A sort_Slice o1 input)) = mset (snd (Score A sort_Slice o2 input)) \<and>
     map cand_TotalScore (fst (Score A sort_Slice o1 input)) = map cand_TotalScore (fst (Score A sort_Slice o2 input)) \<and>
     (inj_on cand_TotalScore (set (fst (Score A sort_Slice o1 input))) \<longrightarrow>
        fst (Score A sort_Slice o1 input) = fst (Score A sort_Slice o2 input))"
proof -
  have d: "mset (decisions A input o1) = mset (decisions A input o2)"
    by (rule decisions_order [OF range_order_mset [OF assms(4,5)]])
  let ?cs = "rights (decisions A input o1)"
  have nn: "\<forall>y\<in>set ?cs. cand_TotalScore y \<noteq> NaN"
    by (rule decided_not_NaN [OF assms(1,3)])
  have "\<forall>x\<in>set ?cs. \<forall>y\<in>set ?cs. x \<noteq> y \<longrightarrow> better_candidate x y \<or> better_candidate y x"
    if "inj_on cand_TotalScore (set ?cs)"
    using that nn f_le_antisym by (auto simp: better_candidate_def f_lt_iff dest: inj_onD)
  moreover have "map cand_TotalScore (fst (Score A sort_Slice o1 input)) = map cand_TotalScore (fst (Score A sort_Slice o2 input))"
    using mset_rights [OF d] assms(1-3)
    by (intro sorted_scores_unique Score_sorted) (simp_all add: Score_decisions slice_sort.sort_mset)
  ultimately show ?thesis
    using mset_lefts [OF d] mset_rights [OF d]
      slice_sort.sort_deterministic [OF assms(2) mset_rights [OF d] better_strict_weak [OF nn]]
    by (simp add: Score_decisions slice_sort.sort_mset [OF assms(2)] slice_sort.sort_set [OF assms(2)])
qed

theorem order_independent_witness:
  "mset (fst (Score ideal_arch insertionSort demo_order (demo_input (Fin 8)))) =
   mset (fst (Score ideal_arch insertionSort [''b'', ''a'', ''src''] (demo_input (Fin 8))))"
proof -
  have "range_order (in_ClusterSCs (demo_input (Fin 8))) [''b'', ''a'', ''src'']"
    by (auto simp: range_order_def demo_input_def)
  from order_independent [OF ideal.float_arch_axioms insertion.slice_sort_axioms demo_finite
      demo_range_order this]
  show ?thesis by blast
qed

text \<open>An infinite allocatable CPU metric makes the CPU score and the total score of the
  candidate NaN, a value that JSON cannot carry and that the comparison of the ranking does
  not order.\<close>

lemma infinite_metric_NaN:
  assumes "slice_sort sort_Slice" and "y \<in> set (fst (Score A sort_Slice order input))"
    and "nodes_of input (cand_Cluster y) = [n]"
    and "nm_AllocatableCPUCores n = PInf" and "nm_RequestedCPUCores n = Fin r"
    and "rnd A (of_int (sint (vm_CPUCores (in_SourceVM input)))) = Fin v"
  shows "cand_CPUScore y = NaN \<and> cand_TotalScore y = NaN \<and> \<not> better_candidate y z \<and> \<not> better_candidate z y"
proof -
  have "Inr y \<in> set (decisions A input order)"
    using assms(2) by (simp add: Score_decisions slice_sort.sort_set [OF assms(1)])
  then obtain c where c: "Score_cluster A input c (cluster_scs input c) = Inr y"
    by (auto simp: decisions_def)
  then show ?thesis
  proof (cases rule: Score_cluster_Inr)
    case (1 b t m ss avail)
    have "b = n" using bestCapableNode_Some [OF 1(1)] assms(3) 1(8) by (auto simp: Cons_eq_append_conv)
    then have "computeCPUScore A b (vm_CPUCores (in_SourceVM input)) = NaN"
      using assms(4-6) by (simp add: computeCPUScore_def AvailableCPUCores_def f_is_zero_def f_sub_def
          f_of_i64_def clamp_def Let_def)
    then have "cand_CPUScore y = NaN" "cand_TotalScore y = NaN"
      by (simp_all add: 1(8) round2_def totalScore_def f_mul_NaN f_add_NaN)
    then show ?thesis by (simp add: better_candidate_def f_lt_NaN)
  qed
qed

end
