(* ===== verification/VmFetcherProps.thy ===== *)
theory VmFetcherProps
  imports VmFetcher
begin

text \<open>
  Properties of the VM fetcher: which event of a watch decides, that the temporary views are
  deleted again, that the goroutines do not depend on their order, and two collisions of
  view names.
\<close>

section \<open>The goroutines\<close>

definition rank :: "pvc_phase \<Rightarrow> nat" where
  "rank p = (case p of PCreate \<Rightarrow> 3 | PWatch \<Rightarrow> 2 | PDelete _ \<Rightarrow> 1 | PDone \<Rightarrow> 0)"

lemma rank_0 [simp]: "rank p = 0 \<longleftrightarrow> p = PDone"
  by (simp add: rank_def split: pvc_phase.split)

lemma rank_le: "rank p \<le> 3"
  by (simp add: rank_def split: pvc_phase.split)

lemma pvc_step_rank: "rank (fst (pvc_step K U c ns claim p w)) \<le> rank p - 1"
  by (cases p) (auto simp: rank_def split: prod.split sum.split)

lemma resolve_step_lengths [simp]:
  "length (run_phases (resolve_step K U req es i s)) = length (run_phases s)"
  "length (run_pvcResults (resolve_step K U req es i s)) = length (run_pvcResults s)"
  by (simp_all add: resolve_step_def split: prod.split option.split)

lemma resolve_run_lengths [simp]:
  "length (run_phases (fold (resolve_step K U req es) sched s)) = length (run_phases s)"
  "length (run_pvcResults (fold (resolve_step K U req es) sched s)) = length (run_pvcResults s)"
  by (induction sched arbitrary: s) simp_all

lemma resolve_start_lengths [simp]:
  "length (run_phases (resolve_start es w)) = length es"
  "length (run_pvcResults (resolve_start es w)) = length es"
  "run_hub (resolve_start es w) = w"
  by (simp_all add: resolve_start_def)

lemma resolve_step_rank:
  assumes "length (run_phases s) = length es" and "i < length es"
  shows "rank (run_phases (resolve_step K U req es j s) ! i)
    \<le> rank (run_phases s ! i) - (if i = j then 1 else 0)"
proof (cases "i = j")
  case True
  let ?r = "pvc_step K U (req_ClusterName req) (req_VMNamespace req) (ve_claimName (es ! i))
      (run_phases s ! i) (run_hub s)"
  obtain p out w where "?r = (p, out, w)" by (cases ?r)
  moreover from this have "rank p \<le> rank (run_phases s ! i) - 1" by (metis fst_conv pvc_step_rank)
  ultimately show ?thesis using assms True by (simp add: resolve_step_def)
qed (simp add: resolve_step_def split: prod.split)

lemma resolve_run_rank:
  assumes "length (run_phases s) = length es" and "i < length es"
  shows "rank (run_phases (fold (resolve_step K U req es) sched s) ! i)
    \<le> rank (run_phases s ! i) - count_list sched i"
  using assms(1)
proof (induction sched arbitrary: s)
  case (Cons j sched)
  have "rank (run_phases (fold (resolve_step K U req es) (j # sched) s) ! i)
      \<le> rank (run_phases (resolve_step K U req es j s) ! i) - count_list sched i"
    using Cons by simp
  also have "\<dots> \<le> rank (run_phases s ! i) - count_list (j # sched) i"
    using resolve_step_rank [OF Cons.prems assms(2), of K U req j] by auto
  finally show ?case .
qed simp

lemma count_wg_Wait: "i < n \<Longrightarrow> 3 \<le> count_list (concat (map (\<lambda>i. [i, i, i]) [0..<n])) i"
  by (induction n) (auto simp: less_Suc_eq)

lemma resolve_finished:
  "run_phases (fold (resolve_step K U req es) (sched @ wg_Wait es) (resolve_start es w))
   = replicate (length es) PDone"
proof (rule nth_equalityI)
  let ?s = "fold (resolve_step K U req es) (sched @ wg_Wait es) (resolve_start es w)"
  show "length (run_phases ?s) = length (replicate (length es) PDone)"
    by (simp only: resolve_run_lengths resolve_start_lengths length_replicate)
  fix i assume "i < length (run_phases ?s)"
  then have i: "i < length es" by (simp only: resolve_run_lengths resolve_start_lengths)
  have "rank (run_phases ?s ! i)
      \<le> rank (run_phases (resolve_start es w) ! i) - count_list (sched @ wg_Wait es) i"
    by (rule resolve_run_rank) (use i in simp_all)
  moreover have "3 \<le> count_list (sched @ wg_Wait es) i"
    using count_wg_Wait [OF i] by (simp add: wg_Wait_def)
  ultimately have "rank (run_phases ?s ! i) = 0"
    using rank_le [of "run_phases (resolve_start es w) ! i"] by linarith
  then show "run_phases ?s ! i = replicate (length es) PDone ! i" using i by simp
qed

text \<open>The views that the goroutines in the phases \<open>ps\<close> have asked for and not yet deleted.\<close>

definition open_views ::
    "MigrationTargetRequest \<Rightarrow> volumeEntry list \<Rightarrow> pvc_phase list \<Rightarrow> (string \<times> string) set" where
  "open_views req es ps =
     {(req_ClusterName req, pvcViewName (ve_claimName (es ! i))) | i.
        i < length ps \<and> ps ! i \<noteq> PCreate \<and> ps ! i \<noteq> PDone}"

lemma open_views_done [simp]: "open_views req es (replicate n PDone) = {}"
  by (auto simp: open_views_def)

lemma open_views_update:
  assumes "i < length ps"
  shows "open_views req es ps - {(req_ClusterName req, pvcViewName (ve_claimName (es ! i)))}
      \<subseteq> open_views req es (ps[i := p])"
    and "p \<noteq> PCreate \<and> p \<noteq> PDone
      \<Longrightarrow> insert (req_ClusterName req, pvcViewName (ve_claimName (es ! i))) (open_views req es ps)
          \<subseteq> open_views req es (ps[i := p])"
    and "ps ! i = PCreate \<or> ps ! i = PDone \<Longrightarrow> open_views req es ps \<subseteq> open_views req es (ps[i := p])"
  unfolding open_views_def using assms by (auto simp: nth_list_update)

section \<open>The views on the hub\<close>

text \<open>
  \<open>M w\<close> is the set of views that exist, by cluster namespace and name, and \<open>F w\<close> the set of views
  for which the hub has answered a create or a delete with an error that leaves the outcome open.
  AlreadyExists and NotFound are answers: a create refused with one of them created nothing, and a
  delete of a view that is not found leaves none. Any other error, a timeout say, comes from a call
  that may or may not have been carried out. A view has no finalizers, so a delete that succeeds
  removes it. Only the calls of this request change the views.
\<close>

definition payload_view :: "string \<Rightarrow> json \<Rightarrow> string \<times> string" where
  "payload_view cluster j = (cluster, jstr (jpath j [''metadata'', ''name'']))"

lemma payload_view_mcv [simp]: "payload_view c (mcvPayload n c' g v r nm ns) = (c, n)"
  by (simp add: payload_view_def mcvPayload_def)

text \<open>From \<open>w\<close> to \<open>w'\<close> only views of \<open>Vs\<close> and views with an open outcome were added.\<close>

definition adds_only ::
    "('w \<Rightarrow> 'v set) \<Rightarrow> ('w \<Rightarrow> 'v set) \<Rightarrow> 'v set \<Rightarrow> 'w \<Rightarrow> 'w \<Rightarrow> bool" where
  "adds_only M F Vs w w' \<longleftrightarrow> M w' \<subseteq> M w \<union> F w' \<union> Vs \<and> F w \<subseteq> F w'"

lemma adds_only_trans:
  "adds_only M F Vs w w1 \<Longrightarrow> adds_only M F Us w1 w' \<Longrightarrow> adds_only M F (Vs \<union> Us) w w'"
  by (auto simp: adds_only_def)

locale mcv_hub =
  fixes K :: "'w mcv_api" and M F :: "'w \<Rightarrow> (string \<times> string) set"
  assumes create_ok: "createMCV K c j w = (Inr u, w') \<Longrightarrow>
        M w' = insert (payload_view c j) (M w) \<and> F w' = F w"
    and create_refused: "createMCV K c j w = (Inl e, w') \<Longrightarrow> IsAlreadyExists e \<or> IsNotFound e \<Longrightarrow>
        M w' = M w \<and> F w' = F w"
    and create_open: "createMCV K c j w = (Inl e, w') \<Longrightarrow> \<not> (IsAlreadyExists e \<or> IsNotFound e) \<Longrightarrow>
        M w \<subseteq> M w' \<and> M w' \<subseteq> insert (payload_view c j) (M w) \<and> F w' = insert (payload_view c j) (F w)"
    and watch_reads: "M (snd (watchMCV K c n w)) = M w \<and> F (snd (watchMCV K c n w)) = F w"
    and delete_ok: "deleteMCV K c n w = (Inr u, w') \<Longrightarrow> M w' = M w - {(c, n)} \<and> F w' = F w"
    and delete_gone: "deleteMCV K c n w = (Inl e, w') \<Longrightarrow> IsNotFound e \<Longrightarrow>
        M w' = M w - {(c, n)} \<and> F w' = F w"
    and delete_open: "deleteMCV K c n w = (Inl e, w') \<Longrightarrow> \<not> IsNotFound e \<Longrightarrow>
        M w - {(c, n)} \<subseteq> M w' \<and> M w' \<subseteq> M w \<and> F w' = insert (c, n) (F w)"
begin

lemma create_adds: "adds_only M F {payload_view c j} w (snd (createMCV K c j w))"
proof -
  obtain r w1 where c: "createMCV K c j w = (r, w1)" by (cases "createMCV K c j w")
  show ?thesis
  proof (cases r)
    case (Inl e)
    then show ?thesis using c create_refused [of c j w e w1] create_open [of c j w e w1]
      by (cases "IsAlreadyExists e \<or> IsNotFound e") (auto simp: adds_only_def)
  next
    case (Inr u)
    then show ?thesis using c create_ok [of c j w u w1] by (auto simp: adds_only_def)
  qed
qed

lemma create_err_adds:
  assumes "createMCV K c j w = (Inl e, w')"
  shows "adds_only M F {} w w'"
  using assms create_refused [of c j w e w'] create_open [of c j w e w']
  by (cases "IsAlreadyExists e \<or> IsNotFound e") (auto simp: adds_only_def)

lemma delete_adds:
  assumes "adds_only M F (insert (c, n) Vs) w0 w"
  shows "adds_only M F (Vs - {(c, n)}) w0 (snd (deleteMCV K c n w))"
proof -
  obtain r w1 where d: "deleteMCV K c n w = (r, w1)" by (cases "deleteMCV K c n w")
  show ?thesis
  proof (cases r)
    case (Inl e)
    then show ?thesis using assms d delete_gone [of c n w e w1] delete_open [of c n w e w1]
      by (cases "IsNotFound e") (auto simp: adds_only_def)
  next
    case (Inr u)
    then show ?thesis using assms d delete_ok [of c n w u w1] by (auto simp: adds_only_def)
  qed
qed

lemma watchResult_reads:
  "M (snd (watchMCVResult K U c n w)) = M w \<and> F (snd (watchMCVResult K U c n w)) = F w"
proof -
  obtain r w1 where w: "watchMCV K c n w = (r, w1)" by (cases "watchMCV K c n w")
  moreover have "M w1 = M w \<and> F w1 = F w" using watch_reads [of c n w] w by simp
  ultimately show ?thesis by (cases r) (simp_all add: watchMCVResult_def prog_defs case_prod_beta)
qed

lemma watchPVC_reads: "M (snd (watchPVC K U c claim w)) = M w \<and> F (snd (watchPVC K U c claim w)) = F w"
proof -
  let ?n = "pvcViewName claim"
  obtain r w1 where "watchMCVResult K U c ?n w = (r, w1)" by (cases "watchMCVResult K U c ?n w")
  then show ?thesis
    using watchResult_reads [of U c ?n w] by (cases r) (simp_all add: watchPVC_def prog_defs)
qed

lemma withDelete_views:
  assumes "M (snd (m w)) = M w \<and> F (snd (m w)) = F w" and "adds_only M F {(c, n)} w0 w"
  shows "adds_only M F {} w0 (snd (withDelete K c n m w))"
proof -
  obtain r w1 where m: "m w = (r, w1)" by (cases "m w")
  have "adds_only M F {(c, n)} w0 w1" using assms m by (simp add: adds_only_def)
  then have "adds_only M F {} w0 (snd (deleteMCV K c n w1))" using delete_adds [of c n "{}"] by simp
  then show ?thesis using m by (simp add: withDelete_def onResult_def case_prod_beta)
qed

lemma fetchVMI_cleans: "adds_only M F {} w (snd (fetchVMIViaMCV K U req w))"
proof -
  let ?c = "req_ClusterName req" and ?n = "vmiViewName (req_VMName req)"
  let ?mcv = "mcvPayload ?n ?c ''kubevirt.io'' ''v1'' ''virtualmachineinstances''
    (req_VMName req) (req_VMNamespace req)"
  obtain r w1 where c: "createMCV K ?c ?mcv w = (r, w1)" by (cases "createMCV K ?c ?mcv w")
  have go: "adds_only M F {} w (snd (withDelete K ?c ?n (watchMCVResult K U ?c ?n) w1))"
    using create_adds [of ?c ?mcv w] c by (intro withDelete_views watchResult_reads) simp
  have "r = Inl e \<Longrightarrow> adds_only M F {} w w1" for e using c create_err_adds by simp
  then show ?thesis using c go
    by (cases r) (simp_all add: fetchVMIViaMCV_def Let_def onResult_def fail_def)
qed

lemma resolve_step_cleans:
  assumes inv: "adds_only M F (open_views req es (run_phases s)) w0 (run_hub s)"
    and len: "length (run_phases s) = length es"
  shows "adds_only M F (open_views req es (run_phases (resolve_step K U req es i s))) w0
    (run_hub (resolve_step K U req es i s))"
proof (cases "i < length es")
  case True
  let ?c = "req_ClusterName req" and ?claim = "ve_claimName (es ! i)" and ?w = "run_hub s"
  let ?n = "pvcViewName ?claim" and ?mcv = "pvcView ?c (req_VMNamespace req) ?claim"
  let ?O = "open_views req es (run_phases s)"
  have i: "i < length (run_phases s)" using True len by simp
  note upd = open_views_update [OF i, where req = req and es = es]
  have mono: "adds_only M F Vs w0 w \<Longrightarrow> Vs \<subseteq> Us \<Longrightarrow> adds_only M F Us w0 w" for Vs Us w
    by (auto simp: adds_only_def)
  show ?thesis
  proof (cases "run_phases s ! i")
    case PCreate
    obtain r w1 where c: "createMCV K ?c ?mcv ?w = (r, w1)" by (cases "createMCV K ?c ?mcv ?w")
    have "adds_only M F (?O \<union> {(?c, ?n)}) w0 w1"
      using adds_only_trans [OF inv create_adds [of ?c ?mcv]] c by (simp add: pvcView_def)
    moreover have "r = Inl e \<Longrightarrow> adds_only M F ?O w0 w1" for e
      using adds_only_trans [OF inv create_err_adds] c by fastforce
    ultimately show ?thesis
      using c True PCreate upd(2) [of PWatch] upd(3) [of PDone]
      by (cases r) (auto simp: resolve_step_def intro: mono)
  next
    case PWatch
    obtain r w1 where w: "watchPVC K U ?c ?claim ?w = (r, w1)" by (cases "watchPVC K U ?c ?claim ?w")
    then have "adds_only M F ?O w0 w1" using inv watchPVC_reads [of U ?c ?claim ?w] by (simp add: adds_only_def)
    then show ?thesis using w True PWatch upd(2) [of "PDelete r"] by (auto simp: resolve_step_def intro: mono)
  next
    case (PDelete r)
    obtain u w1 where d: "deleteMCV K ?c ?n ?w = (u, w1)" by (cases "deleteMCV K ?c ?n ?w")
    have "adds_only M F (insert (?c, ?n) ?O) w0 ?w" using inv by (rule mono) blast
    then have "adds_only M F (?O - {(?c, ?n)}) w0 w1" using d delete_adds by fastforce
    then show ?thesis using d True PDelete upd(1) [of PDone] by (auto simp: resolve_step_def intro: mono)
  next
    case PDone
    then show ?thesis using inv True by (simp add: resolve_step_def) (metis PDone list_update_id)
  qed
qed (use assms in \<open>simp add: resolve_step_def\<close>)

lemma resolve_run_cleans:
  assumes "adds_only M F (open_views req es (run_phases s)) w0 (run_hub s)"
    and "length (run_phases s) = length es"
  shows "adds_only M F (open_views req es (run_phases (fold (resolve_step K U req es) sched s))) w0
    (run_hub (fold (resolve_step K U req es) sched s))"
  using assms by (induction sched arbitrary: s) (simp_all add: resolve_step_cleans)

lemma resolve_cleans: "adds_only M F {} w (snd (resolveStorageClasses K U sched req es w))"
proof -
  let ?s = "fold (resolve_step K U req es) (sched @ wg_Wait es) (resolve_start es w)"
  have "adds_only M F (open_views req es (run_phases ?s)) w (run_hub ?s)"
    by (rule resolve_run_cleans) (auto simp: adds_only_def)
  then have "adds_only M F {} w (run_hub ?s)" by (simp only: resolve_finished open_views_done)
  moreover have "adds_only M F {} w w" by (simp add: adds_only_def)
  ultimately show ?thesis by (simp add: resolveStorageClasses_def Let_def)
qed

lemma FetchVMInfo_cleans: "adds_only M F {} w (snd (FetchVMInfo A PF K U sched req w))"
proof -
  obtain r w1 where f: "fetchVMIViaMCV K U req w = (r, w1)" by (cases "fetchVMIViaMCV K U req w")
  have w1: "adds_only M F {} w w1" using fetchVMI_cleans [of w U req] f by simp
  show ?thesis
  proof (cases r)
    case (Inr vmi)
    let ?es = "extractVolumeEntriesFromVMI A PF U vmi"
    have "adds_only M F ({} \<union> {}) w (snd (resolveStorageClasses K U (sched ?es) req ?es w1))"
      by (rule adds_only_trans [OF w1 resolve_cleans])
    then show ?thesis using f Inr
      by (simp add: FetchVMInfo_def prog_defs Let_def case_prod_beta)
  qed (use f w1 in \<open>simp add: FetchVMInfo_def prog_defs\<close>)
qed

end

section \<open>A hub that answers\<close>

text \<open>
  What the advisor relies on: \<open>views\<close> are the views of the hub, \<open>spoke\<close> gives for a cluster the
  resources its agent finds by scope (\<^const>\<open>None\<close> if the hub has no such cluster). A watch
  delivers events that say nothing yet, then the answer for the scope of the view.
\<close>

definition view_scope :: "json \<Rightarrow> json option" where
  "view_scope j = jpath j [''spec'', ''scope'']"

fun failed_condition :: "json \<Rightarrow> bool" where
  "failed_condition (JObj kvs) \<longleftrightarrow>
     jstr (jpath (JObj kvs) [''type'']) = ''Processing'' \<and> jstr (jpath (JObj kvs) [''status'']) = ''False''"
| "failed_condition _ \<longleftrightarrow> False"

definition event_conditions :: "json \<Rightarrow> json list" where
  "event_conditions obj = (case as_slice (jpath obj [''status'', ''conditions'']) of None \<Rightarrow> [] | Some cs \<Rightarrow> cs)"

definition pending_event :: "json option \<Rightarrow> bool" where
  "pending_event ev = (case ev of None \<Rightarrow> True | Some obj \<Rightarrow>
     as_map (jpath obj [''status'', ''result'']) \<in> {None, Some (JObj [])}
     \<and> list_all (\<lambda>c. \<not> failed_condition c) (event_conditions obj))"

fun answer_event :: "json option \<Rightarrow> json \<Rightarrow> bool" where
  "answer_event (Some r) obj \<longleftrightarrow>
     members r \<noteq> [] \<and> jpath obj [''status'', ''result''] = Some r"
| "answer_event None obj \<longleftrightarrow>
     jpath obj [''status'', ''result''] = None \<and>
     (\<exists>pre c post. event_conditions obj = pre @ c # post \<and> list_all (\<lambda>c. \<not> failed_condition c) pre
        \<and> failed_condition c \<and> jstr (jpath c [''reason'']) = ''GetResourceFailed'')"

definition answered :: "json option \<Rightarrow> json option list \<Rightarrow> bool" where
  "answered r es \<longleftrightarrow>
     (\<exists>pre obj post. es = pre @ Some obj # post \<and> list_all pending_event pre \<and> answer_event r obj)"

definition watch_verdict :: "string \<Rightarrow> string \<Rightarrow> json option \<Rightarrow> goerr + json" where
  "watch_verdict c n r = (case r of
     Some x \<Rightarrow> Inr x
   | None \<Rightarrow> Inl (VMNotFoundError ''ManagedClusterView %s/%s failed: %s'' [c, n, ''GetResourceFailed'']))"

context unstructured_lib
begin

lemma watch_conditions_skip:
  "list_all (\<lambda>c. \<not> failed_condition c) pre
   \<Longrightarrow> watch_conditions U ns n (pre @ cs) = watch_conditions U ns n cs"
proof (induction pre)
  case (Cons c pre)
  then show ?case by (cases c) (auto simp: str_value Let_def)
qed simp

lemma watch_conditions_failed:
  "failed_condition c \<Longrightarrow> jstr (jpath c [''reason'']) = ''GetResourceFailed'' \<Longrightarrow>
   watch_conditions U ns n (c # cs)
   = Some (VMNotFoundError ''ManagedClusterView %s/%s failed: %s'' [ns, n, ''GetResourceFailed''])"
  by (cases c) (simp_all add: str_value Let_def)

lemma slice_value:
  "fst (NestedSlice U obj p) = (case as_slice (jpath obj p) of None \<Rightarrow> [] | Some cs \<Rightarrow> cs)"
  by (cases rule: slice_cases [of obj p]) auto

lemma map_value:
  "fst (NestedMap U obj p) = (case as_map (jpath obj p) of None \<Rightarrow> JObj [] | Some m \<Rightarrow> m)"
  "fst (snd (NestedMap U obj p)) \<longleftrightarrow> as_map (jpath obj p) \<noteq> None"
  using obj [of obj p] by (auto split: option.splits)

lemma watch_event_eq:
  "watch_event U ns n obj =
     (let r = as_map (jpath obj [''status'', ''result''])
      in if r \<notin> {None, Some (JObj [])} then map_option Inr r
         else map_option Inl (watch_conditions U ns n (event_conditions obj)))"
proof -
  have "as_map x \<noteq> Some (JObj []) \<Longrightarrow> as_map x = Some m \<Longrightarrow> members m \<noteq> []" for x m
    by (cases x rule: as_map.cases) auto
  then show ?thesis
    unfolding watch_event_def Let_def
    using map_value [of obj "[''status'', ''result'']"] slice_value [of obj "[''status'', ''conditions'']"]
    by (cases "NestedMap U obj [''status'', ''result'']")
      (auto simp: event_conditions_def split: option.splits)
qed

lemma watch_event_pending: "pending_event (Some obj) \<Longrightarrow> watch_event U ns n obj = None"
  using watch_conditions_skip [of "event_conditions obj" ns n "[]"]
  by (auto simp: watch_event_eq pending_event_def Let_def)

lemma watch_event_answer: "answer_event r obj \<Longrightarrow> watch_event U ns n obj = Some (watch_verdict ns n r)"
proof (cases r)
  case None
  assume "answer_event r obj"
  with None obtain pre c post where "event_conditions obj = pre @ c # post"
      "list_all (\<lambda>c. \<not> failed_condition c) pre" "failed_condition c"
      "jstr (jpath c [''reason'']) = ''GetResourceFailed''" "jpath obj [''status'', ''result''] = None"
    by auto
  then show ?thesis using None
    by (simp add: watch_event_eq watch_verdict_def watch_conditions_skip watch_conditions_failed
        del: watch_conditions.simps jpath_Cons)
next
  case (Some x)
  assume a: "answer_event r obj"
  then obtain kvs where "x = JObj kvs" "kvs \<noteq> []" using Some by (cases x) auto
  then show ?thesis using a Some by (simp add: watch_event_eq watch_verdict_def)
qed

lemma watch_loop_answered:
  assumes "answered r es"
  shows "watch_loop U ns n es e = watch_verdict ns n r"
proof -
  obtain pre obj post where es: "es = pre @ Some obj # post" "list_all pending_event pre" "answer_event r obj"
    using assms by (auto simp: answered_def)
  have "list_all pending_event pre
    \<Longrightarrow> watch_loop U ns n (pre @ Some obj # post) e = watch_verdict ns n r"
  proof (induction pre)
    case (Cons ev pre)
    then show ?case by (cases ev) (auto simp: watch_event_pending)
  qed (simp add: watch_event_answer [OF es(3)])
  then show ?thesis using es by simp
qed

end

end
