(* ===== verification/VmFetcherLive.thy ===== *)
theory VmFetcherLive
  imports VmFetcherProps
begin

text \<open>
  What the VM fetcher returns on a hub that answers its views, for every interleaving of the
  goroutines, with an in-memory hub that satisfies the contract; and the two ways in which a
  request can be given the answer of another: views are named without the namespace, and
  long claim names are cut.
\<close>

locale mcv_live = unstructured_lib U
  for U :: unstr +
  fixes K :: "'w mcv_api"
    and views :: "'w \<Rightarrow> string \<times> string \<Rightarrow> json option"
    and spoke :: "'w \<Rightarrow> string \<Rightarrow> (json \<Rightarrow> json option) option"
  assumes create_new: "spoke w c = Some f \<Longrightarrow> views w (payload_view c j) = None \<Longrightarrow>
      \<exists>u w'. createMCV K c j w = (Inr u, w') \<and> views w' = (views w)(payload_view c j \<mapsto> j) \<and> spoke w' = spoke w"
    and create_dup: "spoke w c = Some f \<Longrightarrow> views w (payload_view c j) = Some j' \<Longrightarrow>
      \<exists>e w'. createMCV K c j w = (Inl e, w') \<and> IsAlreadyExists e \<and> views w' = views w \<and> spoke w' = spoke w"
    and create_absent: "spoke w c = None \<Longrightarrow>
      \<exists>e w'. createMCV K c j w = (Inl e, w') \<and> IsNotFound e \<and> \<not> IsAlreadyExists e \<and> views w' = views w"
    and watch: "spoke w c = Some f \<Longrightarrow> views w (c, n) = Some j \<Longrightarrow> view_scope j = Some sc \<Longrightarrow>
      \<exists>es e w'. watchMCV K c n w = (Inr (es, e), w') \<and> answered (f sc) es \<and> views w' = views w \<and> spoke w' = spoke w"
    and delete: "\<exists>r w'. deleteMCV K c n w = (r, w') \<and> views w' = (views w)((c, n) := None) \<and> spoke w' = spoke w"
begin

lemma watchResult_answer:
  assumes "spoke w c = Some f" and "views w (c, n) = Some j" and "view_scope j = Some sc"
  shows "\<exists>w'. watchMCVResult K U c n w = (watch_verdict c n (f sc), w') \<and> views w' = views w \<and> spoke w' = spoke w"
proof -
  obtain es e w' where w: "watchMCV K c n w = (Inr (es, e), w')" "answered (f sc) es"
      "views w' = views w" "spoke w' = spoke w"
    using watch [OF assms] by blast
  then show ?thesis
    using watch_loop_answered [OF w(2), of c n e] by (simp add: watchMCVResult_def prog_defs)
qed

end

text \<open>The answers for the views of the two kinds.\<close>

definition vmi_scope :: "MigrationTargetRequest \<Rightarrow> json" where
  "vmi_scope req = JObj [
     (''apiGroup'', JStr ''kubevirt.io''), (''version'', JStr ''v1''),
     (''resource'', JStr ''virtualmachineinstances''),
     (''name'', JStr (req_VMName req)), (''namespace'', JStr (req_VMNamespace req))]"

definition pvc_scope :: "string \<Rightarrow> string \<Rightarrow> json" where
  "pvc_scope ns claim = JObj [
     (''apiGroup'', JStr []), (''version'', JStr ''v1''), (''resource'', JStr ''persistentvolumeclaims''),
     (''name'', JStr claim), (''namespace'', JStr ns)]"

lemma view_scope_pvcView [simp]: "view_scope (pvcView c ns claim) = Some (pvc_scope ns claim)"
  by (simp add: view_scope_def pvcView_def mcvPayload_def pvc_scope_def)

lemma payload_view_pvcView [simp]: "payload_view c (pvcView c' ns claim) = (c, pvcViewName claim)"
  by (simp add: pvcView_def)

text \<open>The storage class of a claim as the cluster has it, and what the fetcher makes of it.\<close>

definition claim_class :: "(json \<Rightarrow> json option) \<Rightarrow> string \<Rightarrow> string \<Rightarrow> string" where
  "claim_class f ns claim =
     (case f (pvc_scope ns claim) of
        Some pvc \<Rightarrow> jstr (jpath pvc [''spec'', ''storageClassName''])
      | None \<Rightarrow> [])"

definition claim_result :: "(json \<Rightarrow> json option) \<Rightarrow> string \<Rightarrow> string \<Rightarrow> string \<Rightarrow> goerr + string" where
  "claim_result f c ns claim =
     (case watch_verdict c (pvcViewName claim) (f (pvc_scope ns claim)) of
        Inl err \<Rightarrow> Inl (Errorf ''watch MCV for PVC %s: %w'' [claim] (Some err))
      | Inr pvc \<Rightarrow> Inr (jstr (jpath pvc [''spec'', ''storageClassName''])))"

lemma claim_result_class: "fst (slot (claim_result f c ns claim)) = claim_class f ns claim"
  by (simp add: claim_result_def claim_class_def watch_verdict_def slot_def split: option.split)

text \<open>What holds of one goroutine: its phase \<open>p\<close>, its slot \<open>r\<close> and the view \<open>v\<close> it uses.\<close>

definition goroutine_ok ::
    "(json \<Rightarrow> json option) \<Rightarrow> string \<Rightarrow> string \<Rightarrow> string \<Rightarrow> pvc_phase \<Rightarrow> pvc_result \<Rightarrow> json option \<Rightarrow> bool" where
  "goroutine_ok f c ns claim p r v \<longleftrightarrow>
     (if claim = [] then p = PDone \<and> r = ([], None)
      else case p of
        PCreate \<Rightarrow> v = None
      | PWatch \<Rightarrow> v = Some (pvcView c ns claim)
      | PDelete q \<Rightarrow> v = Some (pvcView c ns claim) \<and> q = claim_result f c ns claim
      | PDone \<Rightarrow> v = None \<and> r = slot (claim_result f c ns claim))"

context mcv_live
begin

lemma watchPVC_answer:
  assumes "spoke w c = Some f" and "views w (c, pvcViewName claim) = Some (pvcView c ns claim)"
  shows "\<exists>w'. watchPVC K U c claim w = (claim_result f c ns claim, w') \<and> views w' = views w \<and> spoke w' = spoke w"
proof -
  obtain w' where "watchMCVResult K U c (pvcViewName claim) w =
      (watch_verdict c (pvcViewName claim) (f (pvc_scope ns claim)), w')" "views w' = views w" "spoke w' = spoke w"
    using watchResult_answer [OF assms] by auto
  then show ?thesis
    by (cases "watch_verdict c (pvcViewName claim) (f (pvc_scope ns claim))")
      (simp_all add: watchPVC_def prog_defs claim_result_def str_value del: jpath_Cons)
qed

lemma pvc_step_ok:
  assumes ok: "goroutine_ok f c ns claim p r (views w (c, pvcViewName claim))"
    and f: "spoke w c = Some f" and ne: "claim \<noteq> []"
  obtains p' out w' where "pvc_step K U c ns claim p w = (p', out, w')"
    and "goroutine_ok f c ns claim p' (case out of None \<Rightarrow> r | Some r' \<Rightarrow> r') (views w' (c, pvcViewName claim))"
    and "\<And>k. k \<noteq> (c, pvcViewName claim) \<Longrightarrow> views w' k = views w k"
    and "spoke w' = spoke w"
proof (cases p)
  case PCreate
  have "views w (payload_view c (pvcView c ns claim)) = None" using ok ne PCreate by (simp add: goroutine_ok_def)
  then show ?thesis using create_new [OF f, of "pvcView c ns claim"] that ne PCreate
    by (fastforce simp: goroutine_ok_def)
next
  case PWatch
  have "views w (c, pvcViewName claim) = Some (pvcView c ns claim)" using ok ne PWatch by (simp add: goroutine_ok_def)
  then show ?thesis using watchPVC_answer [OF f] that ne PWatch by (fastforce simp: goroutine_ok_def)
next
  case (PDelete q)
  then have "q = claim_result f c ns claim" using ok ne by (simp add: goroutine_ok_def)
  then show ?thesis using delete [of c "pvcViewName claim" w] that ne PDelete by (fastforce simp: goroutine_ok_def)
next
  case PDone
  then show ?thesis using that ok by simp
qed

end

section \<open>All goroutines, in every interleaving\<close>

definition claim_views :: "MigrationTargetRequest \<Rightarrow> volumeEntry list \<Rightarrow> (string \<times> string) set" where
  "claim_views req es = (\<lambda>e. (req_ClusterName req, pvcViewName (ve_claimName e))) ` {e \<in> set es. ve_claimName e \<noteq> []}"

definition distinct_views :: "volumeEntry list \<Rightarrow> bool" where
  "distinct_views es \<longleftrightarrow> distinct (map (\<lambda>e. pvcViewName (ve_claimName e)) (filter (\<lambda>e. ve_claimName e \<noteq> []) es))"

definition run_ok ::
    "(json \<Rightarrow> json option) \<Rightarrow> MigrationTargetRequest \<Rightarrow> volumeEntry list \<Rightarrow> (string \<times> string \<Rightarrow> json option) \<Rightarrow>
     (string \<times> string \<Rightarrow> json option) \<Rightarrow> pvc_phase list \<Rightarrow> pvc_result list \<Rightarrow> bool" where
  "run_ok f req es V v ps rs \<longleftrightarrow>
     length ps = length es \<and> length rs = length es
     \<and> (\<forall>i < length es. let claim = ve_claimName (es ! i) in
          goroutine_ok f (req_ClusterName req) (req_VMNamespace req) claim (ps ! i) (rs ! i)
            (v (req_ClusterName req, pvcViewName claim)))
     \<and> (\<forall>k. k \<notin> claim_views req es \<longrightarrow> v k = V k)"

definition resolved_volume :: "(json \<Rightarrow> json option) \<Rightarrow> string \<Rightarrow> volumeEntry \<Rightarrow> VMVolumeInfo" where
  "resolved_volume f ns e =
     \<lparr>vol_Name = ve_name e,
      vol_StorageClass = (if ve_claimName e = [] then [] else claim_class f ns (ve_claimName e)),
      vol_SizeBytes = ve_sizeBytes e\<rparr>"

lemma distinct_filter_nth:
  "distinct (map g (filter P xs)) \<Longrightarrow> i < length xs \<Longrightarrow> j < length xs \<Longrightarrow> i \<noteq> j \<Longrightarrow>
   P (xs ! i) \<Longrightarrow> P (xs ! j) \<Longrightarrow> g (xs ! i) \<noteq> g (xs ! j)"
proof (induction xs arbitrary: i j)
  case (Cons x xs)
  have "distinct (map g (filter P xs))" using Cons.prems(1) by (simp split: if_splits)
  note IH = Cons.IH [OF this]
  have "P x \<Longrightarrow> k < length xs \<Longrightarrow> P (xs ! k) \<Longrightarrow> g x \<noteq> g (xs ! k)" for k
    using Cons.prems(1) by (force simp: in_set_conv_nth)
  then show ?case using Cons.prems IH by (cases i; cases j) (auto, metis)
qed simp

lemma goroutine_ok_no_claim: "goroutine_ok f c ns [] p r v \<longleftrightarrow> p = PDone \<and> r = ([], None)"
  by (simp add: goroutine_ok_def)

lemma claim_views_iff:
  "(req_ClusterName req, pvcViewName (ve_claimName (es ! i))) \<in> claim_views req es"
  if "i < length es" and "ve_claimName (es ! i) \<noteq> []"
  using that by (auto simp: claim_views_def)

lemma run_ok_start:
  assumes "\<And>k. k \<in> claim_views req es \<Longrightarrow> V k = None"
  shows "run_ok f req es V V (run_phases (resolve_start es w)) (run_pvcResults (resolve_start es w))"
  unfolding run_ok_def resolve_start_def
  using assms claim_views_iff [where req = req and es = es] by (auto simp: goroutine_ok_def Let_def)

lemma run_ok_done:
  assumes ok: "run_ok f req es V v (replicate (length es) PDone) rs"
    and free: "\<And>k. k \<in> claim_views req es \<Longrightarrow> V k = None"
  shows "v = V"
    and "map2 (\<lambda>e r. \<lparr>vol_Name = ve_name e, vol_StorageClass = fst r, vol_SizeBytes = ve_sizeBytes e\<rparr>) es rs
         = map (resolved_volume f (req_VMNamespace req)) es"
proof -
  have at: "goroutine_ok f (req_ClusterName req) (req_VMNamespace req) (ve_claimName (es ! i)) PDone (rs ! i)
      (v (req_ClusterName req, pvcViewName (ve_claimName (es ! i))))" if "i < length es" for i
    using ok that by (simp add: run_ok_def Let_def)
  show "v = V"
  proof
    fix k show "v k = V k"
    proof (cases "k \<in> claim_views req es")
      case True
      then obtain i where "i < length es" "ve_claimName (es ! i) \<noteq> []"
          "k = (req_ClusterName req, pvcViewName (ve_claimName (es ! i)))"
        by (auto simp: claim_views_def in_set_conv_nth)
      then show ?thesis using at [of i] free [OF True] by (simp add: goroutine_ok_def)
    qed (use ok in \<open>simp add: run_ok_def del: split_paired_All\<close>)
  qed
  have len: "length rs = length es" using ok by (simp add: run_ok_def)
  have "fst (rs ! i) = vol_StorageClass (resolved_volume f (req_VMNamespace req) (es ! i))" if "i < length es" for i
    using at [OF that] by (auto simp: resolved_volume_def goroutine_ok_def claim_result_class split: if_splits)
  then show "map2 (\<lambda>e r. \<lparr>vol_Name = ve_name e, vol_StorageClass = fst r, vol_SizeBytes = ve_sizeBytes e\<rparr>) es rs
      = map (resolved_volume f (req_VMNamespace req)) es"
    using len by (intro nth_equalityI) (simp_all add: resolved_volume_def)
qed

context mcv_live
begin

lemma resolve_step_ok:
  assumes ok: "run_ok f req es V (views (run_hub s)) (run_phases s) (run_pvcResults s)"
    and f: "spoke (run_hub s) (req_ClusterName req) = Some f" and dist: "distinct_views es"
  shows "let s' = resolve_step K U req es i s in
    run_ok f req es V (views (run_hub s')) (run_phases s') (run_pvcResults s') \<and> spoke (run_hub s') = spoke (run_hub s)"
proof (cases "i < length es")
  case True
  let ?c = "req_ClusterName req" and ?ns = "req_VMNamespace req" and ?claim = "ve_claimName (es ! i)"
  have at: "goroutine_ok f ?c ?ns ?claim (run_phases s ! i) (run_pvcResults s ! i)
      (views (run_hub s) (?c, pvcViewName ?claim))"
    using ok True by (simp add: run_ok_def Let_def)
  show ?thesis
  proof (cases "?claim = []")
    case no_claim: True
    then have "run_phases s ! i = PDone" using at by (simp add: goroutine_ok_no_claim)
    then show ?thesis using True ok by (simp add: resolve_step_def) (metis list_update_id)
  next
    case False
    obtain p' out w' where st: "pvc_step K U ?c ?ns ?claim (run_phases s ! i) (run_hub s) = (p', out, w')"
      and ok': "goroutine_ok f ?c ?ns ?claim p' (case out of None \<Rightarrow> run_pvcResults s ! i | Some r' \<Rightarrow> r')
          (views w' (?c, pvcViewName ?claim))"
      and other: "\<And>k. k \<noteq> (?c, pvcViewName ?claim) \<Longrightarrow> views w' k = views (run_hub s) k"
      and sp: "spoke w' = spoke (run_hub s)"
      using pvc_step_ok [OF at f False] by blast
    let ?rs = "case out of None \<Rightarrow> run_pvcResults s | Some r \<Rightarrow> (run_pvcResults s)[i := r]"
    have len: "length (run_phases s) = length es" "length ?rs = length es"
      using ok by (auto simp: run_ok_def split: option.split)
    have "goroutine_ok f ?c ?ns (ve_claimName (es ! j)) ((run_phases s)[i := p'] ! j) (?rs ! j)
        (views w' (?c, pvcViewName (ve_claimName (es ! j))))" if j: "j < length es" for j
    proof (cases "j = i")
      case True
      then show ?thesis using ok' j ok by (cases out) (auto simp: run_ok_def)
    next
      case ne: False
      have "goroutine_ok f ?c ?ns (ve_claimName (es ! j)) ((run_phases s)[i := p'] ! j) (?rs ! j)
          (views (run_hub s) (?c, pvcViewName (ve_claimName (es ! j))))"
        using ok j ne by (cases out) (simp_all add: run_ok_def Let_def)
      moreover have "ve_claimName (es ! j) \<noteq> [] \<Longrightarrow> pvcViewName (ve_claimName (es ! j)) \<noteq> pvcViewName ?claim"
        using distinct_filter_nth [OF dist [unfolded distinct_views_def] j True ne] False by blast
      ultimately show ?thesis using other by (cases "ve_claimName (es ! j) = []") (simp_all add: goroutine_ok_no_claim)
    qed
    moreover have "k \<notin> claim_views req es \<Longrightarrow> views w' k = V k" for k
      using other [of k] claim_views_iff [OF True False, of req] ok by (auto simp: run_ok_def simp del: split_paired_All)
    ultimately show ?thesis using True st sp len by (simp add: resolve_step_def run_ok_def Let_def)
  qed
qed (use ok in \<open>simp add: resolve_step_def\<close>)

lemma resolve_run_ok:
  assumes "run_ok f req es V (views (run_hub s)) (run_phases s) (run_pvcResults s)"
    and "spoke (run_hub s) (req_ClusterName req) = Some f" and "distinct_views es"
  shows "let s' = fold (resolve_step K U req es) sched s in
    run_ok f req es V (views (run_hub s')) (run_phases s') (run_pvcResults s') \<and> spoke (run_hub s') = spoke (run_hub s)"
  using assms
proof (induction sched arbitrary: s)
  case (Cons i sched)
  then show ?case using resolve_step_ok [OF Cons.prems, of i] by (simp add: Let_def)
qed simp

lemma resolve_answer:
  assumes f: "spoke w (req_ClusterName req) = Some f" and dist: "distinct_views es"
    and free: "\<And>k. k \<in> claim_views req es \<Longrightarrow> views w k = None"
  shows "\<exists>w'. resolveStorageClasses K U sched req es w = (map (resolved_volume f (req_VMNamespace req)) es, w')
    \<and> views w' = views w \<and> spoke w' = spoke w"
proof (cases "es = []")
  case False
  let ?s = "fold (resolve_step K U req es) (sched @ wg_Wait es) (resolve_start es w)"
  have "run_ok f req es (views w) (views (run_hub ?s)) (run_phases ?s) (run_pvcResults ?s)"
    and sp: "spoke (run_hub ?s) = spoke w"
    using resolve_run_ok [of f req es "views w" "resolve_start es w" "sched @ wg_Wait es"]
      run_ok_start [OF free, where f = f and w = w] f dist by (simp_all add: Let_def del: fold_append)
  then have "run_ok f req es (views w) (views (run_hub ?s)) (replicate (length es) PDone) (run_pvcResults ?s)"
    by (simp only: resolve_finished)
  from run_ok_done [OF this free] sp False show ?thesis
    by (simp add: resolveStorageClasses_def Let_def del: fold_append)
qed (simp add: resolveStorageClasses_def)

end

section \<open>FetchVMInfo\<close>

definition vmi_view :: "MigrationTargetRequest \<Rightarrow> json" where
  "vmi_view req = mcvPayload (vmiViewName (req_VMName req)) (req_ClusterName req)
     ''kubevirt.io'' ''v1'' ''virtualmachineinstances'' (req_VMName req) (req_VMNamespace req)"

lemma vmi_view_simps [simp]:
  "view_scope (vmi_view req) = Some (vmi_scope req)"
  "payload_view c (vmi_view req) = (c, vmiViewName (req_VMName req))"
  by (simp_all add: view_scope_def vmi_view_def mcvPayload_def vmi_scope_def payload_view_def)

definition vm_info ::
    "go_arch \<Rightarrow> float_parse \<Rightarrow> unstr \<Rightarrow> MigrationTargetRequest \<Rightarrow> (json \<Rightarrow> json option) \<Rightarrow> json \<Rightarrow> SourceVMInfo" where
  "vm_info A PF U req f vmi =
     (case extractResourceRequests A PF U vmi of (cpu, mem, _) \<Rightarrow>
        \<lparr>vm_Name = req_VMName req, vm_Namespace = req_VMNamespace req, vm_Cluster = req_ClusterName req,
         vm_CPUCores = cpu, vm_MemoryBytes = mem,
         vm_Volumes = map (resolved_volume f (req_VMNamespace req)) (extractVolumeEntriesFromVMI A PF U vmi)\<rparr>)"

context mcv_live
begin

lemma view_read:
  assumes "spoke w c = Some f" and "views w (c, n) = Some j" and "view_scope j = Some sc"
  shows "\<exists>w'. withDelete K c n (watchMCVResult K U c n) w = (watch_verdict c n (f sc), w')
    \<and> views w' = (views w)((c, n) := None) \<and> spoke w' = spoke w"
proof -
  obtain w1 where w1: "watchMCVResult K U c n w = (watch_verdict c n (f sc), w1)" "views w1 = views w" "spoke w1 = spoke w"
    using watchResult_answer [OF assms] by blast
  obtain r w2 where "deleteMCV K c n w1 = (r, w2)" "views w2 = (views w1)((c, n) := None)" "spoke w2 = spoke w1"
    using delete by blast
  with w1 show ?thesis by (simp add: withDelete_def onResult_def)
qed

text \<open>The answer is the one for the view of this name: the new one, or the one already there.\<close>

lemma fetchVMI_answer:
  assumes f: "spoke w (req_ClusterName req) = Some f"
    and j: "j = (case views w (req_ClusterName req, vmiViewName (req_VMName req)) of
                   None \<Rightarrow> vmi_view req | Some j' \<Rightarrow> j')"
    and sc: "view_scope j = Some sc"
  shows "\<exists>w'. fetchVMIViaMCV K U req w = (watch_verdict (req_ClusterName req) (vmiViewName (req_VMName req)) (f sc), w')
    \<and> views w' = (views w)((req_ClusterName req, vmiViewName (req_VMName req)) := None) \<and> spoke w' = spoke w"
proof -
  let ?c = "req_ClusterName req" and ?n = "vmiViewName (req_VMName req)"
  obtain r w1 where cr: "createMCV K ?c (vmi_view req) w = (r, w1)"
      "\<And>e. r = Inl e \<Longrightarrow> IsAlreadyExists e" "views w1 = (views w)((?c, ?n) := Some j)" "spoke w1 = spoke w"
  proof (cases "views w (?c, ?n)")
    case None
    then show ?thesis using create_new [OF f, of "vmi_view req"] that j by fastforce
  next
    case (Some j')
    then show ?thesis using create_dup [OF f, of "vmi_view req" j'] that j by fastforce
  qed
  obtain w2 where "withDelete K ?c ?n (watchMCVResult K U ?c ?n) w1 = (watch_verdict ?c ?n (f sc), w2)"
      "views w2 = (views w1)((?c, ?n) := None)" "spoke w2 = spoke w1"
    using view_read [of w1 ?c f ?n j sc] cr f sc by auto
  with cr show ?thesis
    by (cases r) (simp_all add: fetchVMIViaMCV_def onResult_def Let_def vmi_view_def [symmetric])
qed

lemma fetchVMI_no_cluster:
  assumes "spoke w (req_ClusterName req) = None"
  shows "\<exists>w'. fetchVMIViaMCV K U req w = (Inl (VMNotFoundError ''cluster %q not found on hub (no namespace %q)''
      [req_ClusterName req, req_ClusterName req]), w') \<and> views w' = views w"
  using create_absent [OF assms, of "vmi_view req"]
  by (auto simp: fetchVMIViaMCV_def onResult_def fail_def Let_def vmi_view_def [symmetric])

lemma FetchVMInfo_answer:
  assumes f: "spoke w (req_ClusterName req) = Some f" and vmi: "f (vmi_scope req) = Some vmi"
    and free: "views w (req_ClusterName req, vmiViewName (req_VMName req)) = None"
    and dist: "distinct_views (extractVolumeEntriesFromVMI A PF U vmi)"
    and claims: "\<And>k. k \<in> claim_views req (extractVolumeEntriesFromVMI A PF U vmi) \<Longrightarrow> views w k = None"
  shows "\<exists>w'. FetchVMInfo A PF K U sched req w = (Inr (vm_info A PF U req f vmi), w') \<and> views w' = views w"
proof -
  let ?es = "extractVolumeEntriesFromVMI A PF U vmi"
  obtain w1 where w1: "fetchVMIViaMCV K U req w = (Inr vmi, w1)" "views w1 = views w" "spoke w1 = spoke w"
    using fetchVMI_answer [OF f, of "vmi_view req"] free vmi by (auto simp: watch_verdict_def fun_upd_idem)
  then obtain w2 where "resolveStorageClasses K U (sched ?es) req ?es w1 =
      (map (resolved_volume f (req_VMNamespace req)) ?es, w2)" "views w2 = views w1"
    using resolve_answer [of w1 req f ?es "sched ?es"] f dist claims by auto
  with w1 show ?thesis
    by (auto simp: FetchVMInfo_def vm_info_def prog_defs Let_def split: prod.split)
qed

end

section \<open>An in-memory hub\<close>

record mcv_mem =
  mcv_views :: "string \<times> string \<Rightarrow> json option"
  mcv_agents :: "string \<Rightarrow> (json \<Rightarrow> json option) option"

definition agent_finds :: "(json \<Rightarrow> json option) \<Rightarrow> json \<Rightarrow> json option" where
  "agent_finds f sc = Option.bind (f sc) (\<lambda>r. if members r = [] then None else Some r)"

definition mcv_spoke :: "mcv_mem \<Rightarrow> string \<Rightarrow> (json \<Rightarrow> json option) option" where
  "mcv_spoke w c = map_option agent_finds (mcv_agents w c)"

definition mem_event :: "json option \<Rightarrow> json" where
  "mem_event r = JObj [(''status'', JObj (case r of
     Some x \<Rightarrow> [(''result'', x)]
   | None \<Rightarrow> [(''conditions'', JArr [JObj [(''type'', JStr ''Processing''), (''status'', JStr ''False''),
        (''reason'', JStr ''GetResourceFailed'')]])]))]"

definition mem_mcv_api :: "mcv_mem mcv_api" where
  "mem_mcv_api = \<lparr>
     createMCV = (\<lambda>c j w.
       if mcv_agents w c = None then (Inl (ApiStatus NotFound []), w)
       else if mcv_views w (payload_view c j) \<noteq> None then (Inl (ApiStatus AlreadyExists []), w)
       else (Inr (), w\<lparr>mcv_views := (mcv_views w)(payload_view c j \<mapsto> j)\<rparr>)),
     deleteMCV = (\<lambda>c n w. (Inr (), w\<lparr>mcv_views := (mcv_views w)((c, n) := None)\<rparr>)),
     watchMCV = (\<lambda>c n w. (Inr (case mcv_views w (c, n) of
         None \<Rightarrow> []
       | Some j \<Rightarrow> [None, Some (mem_event (Option.bind (mcv_spoke w c) (\<lambda>f. Option.bind (view_scope j) f)))],
       ChanClosed), w))\<rparr>"

lemma mem_event_answer: "\<forall>x. r = Some x \<longrightarrow> members x \<noteq> [] \<Longrightarrow> answer_event r (mem_event r)"
  by (cases r) (auto simp: mem_event_def event_conditions_def Cons_eq_append_conv)

lemma agent_finds_members: "agent_finds f sc = Some x \<Longrightarrow> members x \<noteq> []"
  by (auto simp: agent_finds_def bind_eq_Some_conv split: if_splits)

lemma mem_watch:
  assumes "mcv_spoke w c = Some f" and "mcv_views w (c, n) = Some j" and "view_scope j = Some sc"
  shows "\<exists>es e w'. watchMCV mem_mcv_api c n w = (Inr (es, e), w') \<and> answered (f sc) es
    \<and> mcv_views w' = mcv_views w \<and> mcv_spoke w' = mcv_spoke w"
proof -
  have "answer_event (f sc) (mem_event (f sc))"
    using assms(1) by (intro mem_event_answer) (auto simp: mcv_spoke_def agent_finds_members)
  then have "answered (f sc) ([None] @ Some (mem_event (f sc)) # [])"
    unfolding answered_def by (intro exI [of _ "[None]"] exI [of _ "mem_event (f sc)"] exI [of _ "[]"]) (simp add: pending_event_def)
  then show ?thesis using assms by (simp add: mem_mcv_api_def)
qed

interpretation mem_mcv: mcv_hub mem_mcv_api "\<lambda>w. dom (mcv_views w)" "\<lambda>w. {}"
  by unfold_locales (auto simp: mem_mcv_api_def IsAlreadyExists_def IsNotFound_def split: if_splits)

text \<open>A hub whose creates and deletes may time out: \<open>flk_faults\<close> says for each of them in turn whether
  it is answered (\<^const>\<open>None\<close>) or times out, and then whether it was carried out.\<close>

record flaky_hub =
  flk_mem :: mcv_mem
  flk_faults :: "bool option list"
  flk_open :: "(string \<times> string) set"

definition flaky_call :: "string \<times> string \<Rightarrow> (mcv_mem, unit) prog \<Rightarrow> (flaky_hub, unit) prog" where
  "flaky_call v m h =
     (let h' = h\<lparr>flk_faults := tl (flk_faults h)\<rparr>; done = (\<lambda>h. h\<lparr>flk_mem := snd (m (flk_mem h))\<rparr>) in
      case flk_faults h of
        Some carried_out # _ \<Rightarrow>
          (Inl (ApiStatus OtherReason ''Timeout''), (if carried_out then done h' else h')\<lparr>flk_open := insert v (flk_open h)\<rparr>)
      | _ \<Rightarrow> (fst (m (flk_mem h)), done h'))"

definition flaky_mcv_api :: "flaky_hub mcv_api" where
  "flaky_mcv_api = \<lparr>
     createMCV = (\<lambda>c j. flaky_call (payload_view c j) (createMCV mem_mcv_api c j)),
     deleteMCV = (\<lambda>c n. flaky_call (c, n) (deleteMCV mem_mcv_api c n)),
     watchMCV = (\<lambda>c n h. (fst (watchMCV mem_mcv_api c n (flk_mem h)), h))\<rparr>"

interpretation flaky_mcv: mcv_hub flaky_mcv_api "\<lambda>h. dom (mcv_views (flk_mem h))" flk_open
  by unfold_locales
    (auto simp: flaky_mcv_api_def flaky_call_def mem_mcv_api_def IsAlreadyExists_def IsNotFound_def Let_def
      split: if_splits list.splits option.splits)

interpretation mem_mcv_live: mcv_live unstr_ref mem_mcv_api mcv_views mcv_spoke
proof unfold_locales
  show "\<exists>es e w'. watchMCV mem_mcv_api c n w = (Inr (es, e), w') \<and> answered (f sc) es
      \<and> mcv_views w' = mcv_views w \<and> mcv_spoke w' = mcv_spoke w"
    if "mcv_spoke w c = Some f" "mcv_views w (c, n) = Some j" "view_scope j = Some sc" for w c f n j sc
    using that by (rule mem_watch)
qed (auto simp: mem_mcv_api_def mcv_spoke_def fun_eq_iff IsAlreadyExists_def IsNotFound_def)

text \<open>A VM with one disk, as the agents of a cluster report it.\<close>

definition demo_vm_req :: MigrationTargetRequest where
  "demo_vm_req = \<lparr>req_VMNamespace = ''apps'', req_VMName = ''db'', req_ClusterName = ''east''\<rparr>"

definition demo_vmi :: "int \<Rightarrow> json" where
  "demo_vmi cores = JObj [
     (''spec'', JObj [(''domain'', JObj [(''cpu'', JObj [(''cores'', JNum cores)])])]),
     (''status'', JObj [(''volumeStatus'', JArr [JObj [
        (''name'', JStr ''disk''),
        (''persistentVolumeClaimInfo'', JObj [(''claimName'', JStr ''db-disk'')])]])])]"

definition demo_pvc :: json where
  "demo_pvc = JObj [(''spec'', JObj [(''storageClassName'', JStr ''ceph'')])]"

definition demo_agent :: "json \<Rightarrow> json option" where
  "demo_agent sc =
     (if sc = vmi_scope demo_vm_req then Some (demo_vmi 4)
      else if sc = vmi_scope (demo_vm_req\<lparr>req_VMNamespace := ''test''\<rparr>) then Some (demo_vmi 1)
      else if sc = pvc_scope ''apps'' ''db-disk'' then Some demo_pvc
      else None)"

definition demo_mcv :: "(string \<times> string \<Rightarrow> json option) \<Rightarrow> mcv_mem" where
  "demo_mcv v = \<lparr>mcv_views = v, mcv_agents = (\<lambda>c. if c = ''east'' then Some demo_agent else None)\<rparr>"

lemma demo_entries:
  "extractVolumeEntriesFromVMI ideal_arch ParseFloat_ref unstr_ref (demo_vmi n) =
     [\<lparr>ve_name = ''disk'', ve_claimName = ''db-disk'', ve_sizeBytes = 0\<rparr>]"
  by (simp add: extractVolumeEntriesFromVMI_def demo_vmi_def unstr_ref_def nested_def volumeEntryOf_def
      List.map_filter_def parseBytes_def parseQuantityToBytes_def)

lemma demo_requests:
  "extractResourceRequests ideal_arch ParseFloat_ref unstr_ref (demo_vmi 4) = (4, 0, None)"
  by (simp add: extractResourceRequests_def extractCPU_def extractMemory_def unstr_ref_def nested_def
      demo_vmi_def i64_of_int_def)

lemma demo_spoke:
  "mcv_spoke (demo_mcv v) ''east'' = Some (agent_finds demo_agent)"
  "agent_finds demo_agent (vmi_scope demo_vm_req) = Some (demo_vmi 4)"
  "agent_finds demo_agent (vmi_scope (demo_vm_req\<lparr>req_VMNamespace := ''test''\<rparr>)) = Some (demo_vmi 1)"
  "agent_finds demo_agent (pvc_scope ''apps'' ''db-disk'') = Some demo_pvc"
  by (simp_all add: mcv_spoke_def demo_mcv_def agent_finds_def demo_agent_def vmi_scope_def pvc_scope_def
      demo_vm_req_def demo_vmi_def demo_pvc_def)

section \<open>Properties\<close>

text \<open>C34: Whatever \<^verbatim>\<open>FetchVMInfo\<close> returns and however its goroutines interleave, a
  ManagedClusterView that it leaves behind is one for which the hub answered a create or a delete
  with an error that leaves open whether the call was carried out; every other view that exists
  afterwards existed before. The witness is a request whose delete times out: the error is
  discarded and the view stays.\<close>

theorem views_cleaned:
  assumes "mcv_hub K M F"
  shows "M (snd (FetchVMInfo A PF K U sched req w)) \<subseteq> M w \<union> F (snd (FetchVMInfo A PF K U sched req w))"
  using mcv_hub.FetchVMInfo_cleans [OF assms, of w A PF U sched req] by (simp add: adds_only_def)

theorem views_cleaned_witness:
  "\<exists>h'. FetchVMInfo ideal_arch ParseFloat_ref flaky_mcv_api unstr_ref (\<lambda>_. []) (demo_vm_req\<lparr>req_VMName := ''web''\<rparr>)
         \<lparr>flk_mem = demo_mcv (\<lambda>_. None), flk_faults = [None, Some False], flk_open = {}\<rparr>
       = (Inl (Errorf ''fetch VMI: %w'' [] (Some (VMNotFoundError ''ManagedClusterView %s/%s failed: %s''
            [''east'', ''migration-advisor-vmi-web'', ''GetResourceFailed'']))), h')
     \<and> dom (mcv_views (flk_mem h')) = {(''east'', ''migration-advisor-vmi-web'')}
     \<and> dom (mcv_views (flk_mem h')) \<subseteq> flk_open h'"
proof -
  let ?h = "\<lparr>flk_mem = demo_mcv (\<lambda>_. None), flk_faults = [None, Some False], flk_open = {}\<rparr>"
    and ?req = "demo_vm_req\<lparr>req_VMName := ''web''\<rparr>"
  obtain r h' where f: "FetchVMInfo ideal_arch ParseFloat_ref flaky_mcv_api unstr_ref (\<lambda>_. []) ?req ?h = (r, h')"
    by (cases "FetchVMInfo ideal_arch ParseFloat_ref flaky_mcv_api unstr_ref (\<lambda>_. []) ?req ?h")
  have "dom (mcv_views (flk_mem h')) \<subseteq> flk_open h'"
    using views_cleaned [OF flaky_mcv.mcv_hub_axioms, of ideal_arch ParseFloat_ref unstr_ref "\<lambda>_. []" ?req ?h] f
    by (simp add: demo_mcv_def)
  moreover have "r = Inl (Errorf ''fetch VMI: %w'' [] (Some (VMNotFoundError ''ManagedClusterView %s/%s failed: %s''
        [''east'', ''migration-advisor-vmi-web'', ''GetResourceFailed''])))
      \<and> dom (mcv_views (flk_mem h')) = {(''east'', ''migration-advisor-vmi-web'')}"
    using f
    by (auto simp: FetchVMInfo_def fetchVMIViaMCV_def withDelete_def watchMCVResult_def prog_defs Let_def
        flaky_mcv_api_def flaky_call_def mem_mcv_api_def demo_mcv_def demo_vm_req_def vmiViewName_def mcv_spoke_def
        view_scope_def mcvPayload_def mem_event_def agent_finds_def demo_agent_def vmi_scope_def pvc_scope_def
        unstr_ref_def nested_def payload_view_def watch_event_def split: if_splits)
  ultimately show ?thesis using f by blast
qed

text \<open>C11: On a hub whose agents answer, if no view of the names that the request uses exists and
  the claims of the VM have different view names, \<^verbatim>\<open>FetchVMInfo\<close> returns the CPU, memory and
  volumes of the instance, every volume with the storage class of its claim on the cluster
  (empty if the claim is not found), for every interleaving of its goroutines, and the views of
  the hub are what they were.\<close>

theorem fetch_correct:
  assumes "mcv_live U K views spoke"
    and "spoke w (req_ClusterName req) = Some f" and "f (vmi_scope req) = Some vmi"
    and "views w (req_ClusterName req, vmiViewName (req_VMName req)) = None"
    and "distinct_views (extractVolumeEntriesFromVMI A PF U vmi)"
    and "\<forall>k \<in> claim_views req (extractVolumeEntriesFromVMI A PF U vmi). views w k = None"
  shows "\<exists>w'. FetchVMInfo A PF K U sched req w = (Inr (vm_info A PF U req f vmi), w') \<and> views w' = views w"
  using assms(6) by (intro mcv_live.FetchVMInfo_answer [OF assms(1-5)]) blast

theorem fetch_correct_witness:
  "\<exists>w'. FetchVMInfo ideal_arch ParseFloat_ref mem_mcv_api unstr_ref (\<lambda>_. [0]) demo_vm_req (demo_mcv (\<lambda>_. None)) =
     (Inr \<lparr>vm_Name = ''db'', vm_Namespace = ''apps'', vm_Cluster = ''east'', vm_CPUCores = 4, vm_MemoryBytes = 0,
           vm_Volumes = [\<lparr>vol_Name = ''disk'', vol_StorageClass = ''ceph'', vol_SizeBytes = 0\<rparr>]\<rparr>, w')
   \<and> mcv_views w' = (\<lambda>_. None)"
proof -
  let ?A = ideal_arch and ?P = ParseFloat_ref
  have "vm_info ?A ?P unstr_ref demo_vm_req (agent_finds demo_agent) (demo_vmi 4) =
      \<lparr>vm_Name = ''db'', vm_Namespace = ''apps'', vm_Cluster = ''east'', vm_CPUCores = 4, vm_MemoryBytes = 0,
       vm_Volumes = [\<lparr>vol_Name = ''disk'', vol_StorageClass = ''ceph'', vol_SizeBytes = 0\<rparr>]\<rparr>"
    using demo_spoke(4) demo_requests
    by (simp add: vm_info_def demo_entries resolved_volume_def claim_class_def demo_pvc_def demo_vm_req_def)
  moreover have "mcv_views (demo_mcv (\<lambda>_. None)) = (\<lambda>_. None)" by (simp add: demo_mcv_def)
  ultimately show ?thesis
    using fetch_correct [OF mem_mcv_live.mcv_live_axioms, of "demo_mcv (\<lambda>_. None)" demo_vm_req
        "agent_finds demo_agent" "demo_vmi 4" ?A ?P "\<lambda>_. [0]"] demo_spoke(1,2)
    by (simp add: demo_entries distinct_views_def demo_vm_req_def)
qed

text \<open>C35: A view is named by cluster and VM name only. When the view of a VM of the same name in
  another namespace is still there (a request in flight, or left over), the request is
  answered with that other VM's instance, and the other request's view is deleted.\<close>

theorem view_of_namesake:
  assumes "mcv_live U K views spoke"
    and "spoke w (req_ClusterName req) = Some f"
    and "views w (req_ClusterName req, vmiViewName (req_VMName req)) = Some (vmi_view (req\<lparr>req_VMNamespace := ns'\<rparr>))"
    and "f (vmi_scope (req\<lparr>req_VMNamespace := ns'\<rparr>)) = Some vmi'"
  shows "\<exists>w'. fetchVMIViaMCV K U req w = (Inr vmi', w')
    \<and> views w' (req_ClusterName req, vmiViewName (req_VMName req)) = None"
  using mcv_live.fetchVMI_answer [OF assms(1,2) refl, of "vmi_scope (req\<lparr>req_VMNamespace := ns'\<rparr>)"] assms(3,4)
  by (auto simp: watch_verdict_def)

theorem view_of_namesake_witness:
  "\<exists>w'. fetchVMIViaMCV mem_mcv_api unstr_ref demo_vm_req
       (demo_mcv [(''east'', ''migration-advisor-vmi-db'') \<mapsto> vmi_view (demo_vm_req\<lparr>req_VMNamespace := ''test''\<rparr>)])
     = (Inr (demo_vmi 1), w') \<and> mcv_views w' (''east'', ''migration-advisor-vmi-db'') = None"
  using view_of_namesake [OF mem_mcv_live.mcv_live_axioms, of "demo_mcv [(''east'', ''migration-advisor-vmi-db'') \<mapsto>
      vmi_view (demo_vm_req\<lparr>req_VMNamespace := ''test''\<rparr>)]" demo_vm_req "agent_finds demo_agent" "''test''" "demo_vmi 1"]
    demo_spoke
  by (simp add: demo_vm_req_def vmiViewName_def demo_mcv_def)

text \<open>A view for a claim has a name of at most 253 bytes, and short claims have different
  view names; claims that agree in their first 231 bytes share one. The name of the view for an
  instance is not cut: it is too long for a VM name of more than 231 bytes.\<close>

theorem view_names:
  "length (pvcViewName a) \<le> 253
   \<and> (length a \<le> 231 \<and> length b \<le> 231 \<longrightarrow> (pvcViewName a = pvcViewName b \<longleftrightarrow> a = b))
   \<and> (take 231 a = take 231 b \<longrightarrow> pvcViewName a = pvcViewName b)
   \<and> (253 < length (vmiViewName a) \<longleftrightarrow> 231 < length a)"
  by (auto simp: pvcViewName_def vmiViewName_def Let_def)

theorem view_names_witness:
  "pvcViewName ''data'' \<noteq> pvcViewName ''logs''
   \<and> pvcViewName (replicate 231 CHR ''x'' @ ''a'') = pvcViewName (replicate 231 CHR ''x'' @ ''b'')"
  using view_names [of "''data''" "''logs''"]
    view_names [of "replicate 231 CHR ''x'' @ ''a''" "replicate 231 CHR ''x'' @ ''b''"]
  by simp

end
