(* ===== verification/AdvisorDemo.thy ===== *)
theory AdvisorDemo
  imports Handler ObservabilityProps SearchProps ScorerProps VmFetcherLive
begin

text \<open>
  An advisor in memory: one managed cluster with a node and a cloud storage class, the VM of
  \<open>VmFetcherLive\<close> on another cluster, a caller with the cluster administrator role. Every law
  that the properties of the handler assume of the environment holds of it.
\<close>

section \<open>Documents\<close>

definition row_doc :: "string \<Rightarrow> string \<Rightarrow> json" where
  "row_doc node v = JObj [(''metric'', JObj [(''cluster'', JStr ''c1''), (''node'', JStr node)]), (''value'', JArr [JNum 0, JStr v])]"

definition prom_doc :: "json list \<Rightarrow> json" where
  "prom_doc rows = JObj [(''status'', JStr ''success''), (''data'', JObj [(''resultType'', JStr ''vector''), (''result'', JArr rows)])]"

lemma EqualFold_keys [simp]:
  "EqualFold ''status'' ''status''" "\<not> EqualFold ''data'' ''status''" "EqualFold ''data'' ''data''"
  "\<not> EqualFold ''status'' ''data''" "\<not> EqualFold ''status'' ''error''" "\<not> EqualFold ''data'' ''error''"
  "EqualFold ''resultType'' ''resultType''" "\<not> EqualFold ''result'' ''resultType''" "EqualFold ''result'' ''result''"
  "\<not> EqualFold ''resultType'' ''result''" "EqualFold ''metric'' ''metric''" "\<not> EqualFold ''value'' ''metric''"
  "EqualFold ''value'' ''value''" "\<not> EqualFold ''metric'' ''value''"
  by (simp_all add: EqualFold_def ToLower_def to_lower_def)

lemma decode_row_doc: "decodeRow (row_doc node v) = Inr (demo_row node v)"
proof -
  have "map_of [(''node'', node), (''cluster'', ''c1'')] = [''cluster'' \<mapsto> ''c1'', ''node'' \<mapsto> node]" by auto
  then show ?thesis by (simp add: decodeRow_def row_doc_def jfield_def decodeMetric_def decodeValue_def demo_row_def)
qed

lemma decode_prom_doc:
  "decodePromResponse (prom_doc (map (\<lambda>(n, v). row_doc n v) rows)) =
     Inr \<lparr>pr_Status = ''success'', pr_ResultType = ''vector'', pr_Result = map (\<lambda>(n, v). demo_row n v) rows, pr_Error = []\<rparr>"
proof -
  have "sum_map decodeRow (map (\<lambda>(n, v). row_doc n v) rows) = Inr (map (\<lambda>(n, v). demo_row n v) rows)"
    by (induction rows) (auto simp: decode_row_doc)
  then show ?thesis by (simp add: decodePromResponse_def prom_doc_def jfield_def decodeList_def)
qed

definition demo_rows :: "string \<Rightarrow> (string \<times> string) list" where
  "demo_rows p = (if p = schedulableQuery then [(''n1'', ''1'')]
     else if p = query_of 0 then [(''n1'', ''8''), (''other'', ''4'')]
     else if p = query_of 3 then [([], ''2'')] else [])"

lemma demo_prom_rows:
  "demo_prom p = \<lparr>pr_Status = ''success'', pr_ResultType = ''vector'', pr_Result = map (\<lambda>(n, v). demo_row n v) (demo_rows p),
     pr_Error = []\<rparr>"
  by (simp add: demo_prom_def demo_rows_def)

section \<open>The environment\<close>

definition demo_item :: "(string \<times> json) list" where
  "demo_item = [(''cluster'', JStr ''c1''), (''name'', JStr ''ceph''), (''provisioner'', JStr ''ebs.csi.aws.com'')]"

text \<open>The network answers a request with its query, or with a marker for the Search API.\<close>

definition adv_net :: "(mcv_mem, unit, unit) net" where
  "adv_net = \<lparr>SystemCertPool = Inr {}, ReadFile = (\<lambda>p. fail (Errorf ''file does not exist'' [] None)),
     os_IsNotExist = (\<lambda>e. True), TransportConfig = (\<lambda>cfg. Inr ()), HTTPWrappersForConfig = (\<lambda>tc tx. Inr ()),
     NewRequest_err = (\<lambda>url. None),
     client_Do = (\<lambda>rt req. ret \<lparr>hs_StatusCode = 200,
       hs_Body = (case hr_Query req of [] \<Rightarrow> ''S'' | (k, v) # _ \<Rightarrow> CHR ''Q'' # v)\<rparr>)\<rparr>"

definition adv_json :: json_parser where
  "adv_json body = Inr (if body = ''S'' then page_doc [demo_item]
     else prom_doc (map (\<lambda>(n, v). row_doc n v) (demo_rows (tl body))))"

definition adv_clients :: "(mcv_mem, rest_Config) wh_api" where
  "adv_clients = \<lparr>newForConfig = Inr, getUserPermission = (\<lambda>cfg name w.
     (if cfg_BearerToken cfg = ''tok'' \<and> name = ''managedcluster:admin'' then Inr demo_binding
      else Inl (ApiStatus Forbidden name), w)), unmarshalPlan = (\<lambda>b. Inl (Errorf ''not a plan'' [] None))\<rparr>"

definition class_range :: "class_map \<Rightarrow> string list" where
  "class_range m = sorted_list_of_set (dom m)"

definition adv_env :: "(mcv_mem, unit, unit, rest_Config) advisor_env" where
  "adv_env = \<lparr>env_net = adv_net, env_pem = pem_ref (\<lambda>_. True), env_json = adv_json, env_arch = ideal_arch,
     env_ParseFloat = ParseFloat_ref, env_unstr = unstr_ref, env_clients = adv_clients, env_Getenv = (\<lambda>_. []),
     env_mcv = mem_mcv_api, env_listMC = (\<lambda>sel. ret [demo_mc]), env_sort_Slice = insertionSort, env_now = (\<lambda>w. 0),
     env_Do = Pair None\<rparr>"

definition adv_sched :: schedule where
  "adv_sched = \<lparr>sch_pvcs = (\<lambda>_. [0]), sch_queries = [5, 4, 3, 2, 1, 0], sch_nodes = key_range, sch_refresh = [2, 0, 1],
     sch_classes = class_range, sch_vmFirst = True\<rparr>"

definition adv_handler :: "mcv_mem handler" where
  "adv_handler = \<lparr>h_RestConfig = demo_cfg, h_SearchAPIEndpoint = [], h_ResolveSearchAPIEndpoint = None, h_ThanosHost = [],
     h_ServiceCAPath = [], h_CacheTTL = 0, h_TLSOpts = None\<rparr>"

definition adv_state :: "mcv_mem hstate" where
  "adv_state = \<lparr>hst_world = demo_mcv (\<lambda>_. None), hst_cache = emptyCache\<rparr>"

lemma adv_client: "buildHTTPClient adv_net P demo_cfg DefaultServiceCAPath [None] w = (Inr (), w)"
  by (simp add: buildHTTPClient_def addCAData_def addCAFile_def addServiceCA_def adv_net_def demo_cfg_def prog_defs Let_def)

abbreviation adv_query :: "string \<Rightarrow> ((mcv_mem, unit) obs_state, promResponse) prog" where
  "adv_query \<equiv> query adv_net (pem_ref (\<lambda>_. True)) adv_json (obsClient adv_handler)"

text \<open>The client that \<^verbatim>\<open>sync.Once\<close> holds never is an error, and no query changes the world.\<close>

definition adv_ok :: "mcv_mem \<Rightarrow> (mcv_mem, unit) obs_state \<Rightarrow> bool" where
  "adv_ok w s \<longleftrightarrow> fst s = w \<and> snd s \<in> {None, Some (Inr ())}"

lemma adv_query_eq:
  assumes "adv_ok w s"
  shows "adv_query p s = (Inr (demo_prom p), (w, Some (Inr ())))"
proof -
  have "obs_httpClient adv_net (pem_ref (\<lambda>_. True)) (obsClient adv_handler) s = (Inr (), (w, Some (Inr ())))"
    using assms by (cases s) (auto simp: adv_ok_def obs_httpClient_def adv_client obsClient_def adv_handler_def obs_serviceCAPath_def)
  moreover have "client_Do adv_net () (promRequest (obsClient adv_handler) p) w = (Inr \<lparr>hs_StatusCode = 200, hs_Body = CHR ''Q'' # p\<rparr>, w)"
    "NewRequest_err adv_net url = None" for url
    by (simp_all add: adv_net_def promRequest_def ret_def)
  ultimately show ?thesis
    by (simp add: query_def prog_defs liftObs_def adv_json_def decode_prom_doc demo_prom_rows promStatusSuccess_def)
qed

lemma adv_answering: "answering (adv_ok w) adv_query demo_prom"
  by (auto simp: answering_def adv_query_eq adv_ok_def)

definition adv_nodes :: ClusterNodeMetrics where
  "adv_nodes = [''c1'' \<mapsto> [\<lparr>nm_NodeName = ''n1'', nm_AllocatableCPUCores = Fin 8, nm_AllocatableMemBytes = 0,
     nm_RequestedCPUCores = Fin 2, nm_RequestedMemBytes = 0\<rparr>]]"

lemma adv_FetchNodeMetrics:
  assumes "adv_ok w s"
  shows "\<exists>s'. FetchNodeMetrics ideal_arch ParseFloat_ref adv_query [5, 4, 3, 2, 1, 0] key_range s = (Inr adv_nodes, s') \<and> adv_ok w s'"
proof -
  let ?m = "mergeNodeMetrics ideal_arch ParseFloat_ref (schedulableNodes (pr_Result (demo_prom schedulableQuery))) (responses demo_prom)"
  have "schedulable (pr_Result (demo_prom schedulableQuery)) = [(''c1'', ''n1'')]"
    by (simp add: schedulable_def demo_prom_def demo_row_def named_row_def rowKey_def)
  then have m: "?m = [(''c1'', ''n1'') \<mapsto> \<lparr>nm_NodeName = ''n1'', nm_AllocatableCPUCores = Fin 8, nm_AllocatableMemBytes = 0,
     nm_RequestedCPUCores = Fin 2, nm_RequestedMemBytes = 0\<rparr>]"
    by (auto simp: fun_eq_iff merge_is_view demo_view)
  then have "assembleNodes ?m (key_range ?m) = adv_nodes"
    by (simp add: key_range_def assembleNodes_def adv_nodes_def)
  moreover have "set [5, 4, 3, 2, 1, 0] = {0..<6 :: nat}" by auto
  ultimately show ?thesis
    using FetchNodeMetrics_answers [OF adv_answering assms, of "[5, 4, 3, 2, 1, 0]" ideal_arch ParseFloat_ref key_range]
    by (simp only: Let_def)
qed

lemma adv_FetchCephMetrics:
  assumes "adv_ok w s"
  shows "FetchCephMetrics ideal_arch ParseFloat_ref adv_query s = (Inr Map.empty, (w, Some (Inr ())))"
proof -
  have "adv_ok w (w, Some (Inr ()))" by (simp add: adv_ok_def)
  moreover have "''ceph_cluster_total_bytes'' \<notin> {schedulableQuery, query_of 0, query_of 3}"
    "''ceph_cluster_total_avail_bytes'' \<notin> {schedulableQuery, query_of 0, query_of 3}"
    by (simp_all add: schedulableQuery_def query_of_def nodeQueries_def)
  ultimately show ?thesis
    using assms by (simp add: FetchCephMetrics_def prog_defs adv_query_eq demo_prom_def Let_def)
qed

definition adv_classes :: class_map where
  "adv_classes = [''c1'' \<mapsto> [\<lparr>sc_Name = ''ceph'', sc_Provisioner = ''ebs.csi.aws.com''\<rparr>]]"

lemma adv_search:
  "ListStorageClassProvisionersByCluster adv_net (pem_ref (\<lambda>_. True)) adv_json (searchClient adv_handler ep) w = Some (Inr adv_classes, w)"
proof -
  have "client_Do adv_net () (searchRequest url off) w = (Inr \<lparr>hs_StatusCode = 200, hs_Body = ''S''\<rparr>, w)"
    "NewRequest_err adv_net url = None" for url off
    by (simp_all add: adv_net_def searchRequest_def ret_def)
  then have "searchPages adv_net adv_json () url 0 Map.empty w = Some (Inr adv_classes, w)" for url
    by (subst searchPages.simps)
      (simp add: adv_json_def decode_page searchPageSize_def addItem_def demo_item_def map_key_def adv_classes_def)
  then show ?thesis
    by (simp add: ListStorageClassProvisionersByCluster_def searchClient_def adv_handler_def search_serviceCAPath_def adv_client)
qed

definition adv_snapshot :: clusterSnapshot where
  "adv_snapshot = \<lparr>snap_nodes = adv_nodes, snap_ceph = Map.empty, snap_scs = adv_classes\<rparr>"

lemma adv_fetchFresh:
  "\<exists>s'. fetchFreshClusterData adv_env adv_sched adv_handler s = Some (Inr adv_snapshot, s') \<and> hst_world s' = hst_world s"
proof -
  let ?w = "hst_world s"
  let ?rf = "\<lparr>rf_nodes = Map.empty, rf_ceph = Map.empty, rf_scs = adv_classes, rf_err = None\<rparr>"
  obtain s1 where n: "FetchNodeMetrics ideal_arch ParseFloat_ref adv_query [5, 4, 3, 2, 1, 0] key_range (?w, None) = (Inr adv_nodes, s1)"
      "adv_ok ?w s1"
    using adv_FetchNodeMetrics [of ?w "(?w, None)"] by (auto simp: adv_ok_def)
  have "runRefresh adv_env adv_sched adv_handler ep [2, 0, 1] (emptyRefresh, (?w, None)) =
      Some (\<lparr>rf_nodes = adv_nodes, rf_ceph = Map.empty, rf_scs = adv_classes, rf_err = None\<rparr>, (?w, Some (Inr ())))" for ep
    by (simp add: refreshTask_def adv_env_def adv_sched_def adv_search n(1) adv_FetchCephMetrics [OF n(2)] emptyRefresh_def
        del: One_nat_def)
  moreover have "finishRefresh adv_env \<lparr>rf_nodes = adv_nodes, rf_ceph = Map.empty, rf_scs = adv_classes, rf_err = None\<rparr> ?w =
      (Inr adv_snapshot, ?w)"
    by (simp add: finishRefresh_def adv_nodes_def listEligibleManagedClusters_def adv_env_def prog_defs GetName_def demo_mc_def
        filterClusterSCsByEligibility_def adv_classes_def adv_snapshot_def)
  moreover have "resolveEndpoint adv_handler ?w = (Inr [], ?w)"
    by (simp add: resolveEndpoint_def adv_handler_def ret_def)
  ultimately show ?thesis
    by (simp add: fetchFreshClusterData_def) (simp add: adv_sched_def)
qed

section \<open>Requests\<close>

lemma adv_getClusterSnapshot:
  assumes "hst_cache s = emptyCache"
  shows "\<exists>s'. getClusterSnapshot adv_env adv_sched adv_handler s = Some (Inr adv_snapshot, s') \<and> hst_world s' = hst_world s"
proof -
  let ?s = "s\<lparr>hst_cache := (hst_cache s)\<lparr>cc_ttl := h_CacheTTL adv_handler\<rparr>\<rparr>"
  have "cache_get (env_now adv_env w) (hst_cache ?s) = None" for w
    using assms by (simp add: cache_get_def emptyCache_def zero_time_def adv_env_def)
  moreover have "env_Do adv_env = Pair None" by (simp add: adv_env_def)
  ultimately show ?thesis using adv_fetchFresh [of ?s] by (simp add: getClusterSnapshot_def Let_def)
qed

lemma adv_range_order: "range_order (snap_scs adv_snapshot) (sch_classes adv_sched (snap_scs adv_snapshot))"
  by (simp add: range_order_def adv_snapshot_def adv_classes_def adv_sched_def class_range_def)

definition adv_vm :: SourceVMInfo where
  "adv_vm = \<lparr>vm_Name = ''db'', vm_Namespace = ''apps'', vm_Cluster = ''east'', vm_CPUCores = 4, vm_MemoryBytes = 0,
     vm_Volumes = [\<lparr>vol_Name = ''disk'', vol_StorageClass = ''ceph'', vol_SizeBytes = 0\<rparr>]\<rparr>"

lemma adv_FetchVMInfo:
  "\<exists>w'. FetchVMInfo ideal_arch ParseFloat_ref mem_mcv_api unstr_ref sched demo_vm_req (demo_mcv (\<lambda>_. None)) = (Inr adv_vm, w')"
proof -
  have "vm_info ideal_arch ParseFloat_ref unstr_ref demo_vm_req (agent_finds demo_agent) (demo_vmi 4) = adv_vm"
    using demo_spoke(4) demo_requests
    by (simp add: vm_info_def demo_entries resolved_volume_def claim_class_def demo_pvc_def demo_vm_req_def adv_vm_def)
  moreover have "mcv_views (demo_mcv (\<lambda>_. None)) = (\<lambda>_. None)" by (simp add: demo_mcv_def)
  ultimately show ?thesis
    using mem_mcv_live.FetchVMInfo_answer [of "demo_mcv (\<lambda>_. None)" demo_vm_req
        "agent_finds demo_agent" "demo_vmi 4" ideal_arch ParseFloat_ref sched] demo_spoke(1,2)
    by (auto simp: demo_entries distinct_views_def demo_vm_req_def)
qed

lemma adv_evaluate:
  "\<exists>s'. evaluate adv_env adv_sched adv_handler demo_vm_req adv_state = Some (Inr (scoreResponse adv_env adv_sched adv_vm adv_snapshot), s')"
proof -
  obtain w where "FetchVMInfo ideal_arch ParseFloat_ref mem_mcv_api unstr_ref (sch_pvcs adv_sched) demo_vm_req
      (demo_mcv (\<lambda>_. None)) = (Inr adv_vm, w)" using adv_FetchVMInfo by blast
  then have "branchVM adv_env adv_sched demo_vm_req adv_state = (Inr adv_vm, adv_state\<lparr>hst_world := w\<rparr>)"
    by (simp add: branchVM_def adv_env_def adv_state_def)
  moreover obtain s' where "getClusterSnapshot adv_env adv_sched adv_handler (adv_state\<lparr>hst_world := w\<rparr>) = Some (Inr adv_snapshot, s')"
    using adv_getClusterSnapshot [of "adv_state\<lparr>hst_world := w\<rparr>"] by (auto simp: adv_state_def)
  ultimately show ?thesis by (simp add: evaluate_def runBranches_def adv_sched_def)
qed

lemma adv_authorized:
  "checkCallerAuthorized adv_clients unstr_ref (\<lambda>_. []) (\<lambda>sel. ret [demo_mc]) demo_cfg ''tok'' w = (Inr True, w)"
proof -
  have roles: "advisorRoleVMFleetAdmin (\<lambda>_. []) = ''acm-vm-fleet:admin''"
    "advisorRoleManagedClusterAdmin (\<lambda>_. []) = ''managedcluster:admin''"
    by code_simp+
  have "listCNVManagedClusters (\<lambda>sel. ret [demo_mc]) w = (Inr [''c1''], w)"
    by (simp add: listCNVManagedClusters_def prog_defs GetName_def demo_mc_def)
  then have "callerIsClusterAdmin adv_clients unstr_ref (\<lambda>_. []) (\<lambda>sel. ret [demo_mc]) (callerConfig demo_cfg ''tok'') w = (Inr True, w)"
    by (simp add: callerIsClusterAdmin_def prog_defs roles adv_clients_def callerConfig_def demo_binding_def unstr_ref_def
        nested_def bindingCluster_def Let_def)
  then show ?thesis
    by (simp add: checkCallerAuthorized_def userPermissionCoversHub_def prog_defs roles adv_clients_def callerConfig_def api_err_defs Let_def)
qed

end
