(* ===== verification/HandlerProps.thy ===== *)
theory HandlerProps
  imports AdvisorDemo
begin

text \<open>
  Properties of the handler: nothing is served and nothing is fetched without an authorization, a
  cluster that is not found is reported as such by every evaluation that returns, only
  labelled clusters are recommended and the recommendation has the best score, and metrics
  that JSON cannot carry give an empty reply.
\<close>

section \<open>Authorization\<close>

definition denied :: "reply \<Rightarrow> bool" where
  "denied rep \<longleftrightarrow> rp_StatusCode rep \<in> {400, 401, 403, 405, 500} \<and> (\<exists>t. rp_Body rep = BText t)"

lemma ServeHTTP_cases:
  assumes "ServeHTTP E sch h r s = Some (rep, s')"
  obtains (early) "denied rep" and "s' = s"
  | (rejected) token x w where "bearerToken (api_Authorization r) = Some token"
      "checkCallerAuthorized (env_clients E) (env_unstr E) (env_Getenv E) (env_listMC E) (h_RestConfig h) token (hst_world s) = (x, w)"
      "x \<noteq> Inr True" "denied rep" "s' = s\<lparr>hst_world := w\<rparr>"
  | (served) token w res where "bearerToken (api_Authorization r) = Some token"
      "checkCallerAuthorized (env_clients E) (env_unstr E) (env_Getenv E) (env_listMC E) (h_RestConfig h) token (hst_world s) = (Inr True, w)"
      "evaluate E sch h (parseRequest r) (s\<lparr>hst_world := w\<rparr>) = Some (res, s')" "rep = evaluateReply res"
proof (cases "bearerToken (api_Authorization r)")
  case None
  then show ?thesis using assms early
    by (auto simp: ServeHTTP_def Let_def denied_def http_Error_def split: if_splits)
next
  case (Some token)
  obtain x w where c: "checkCallerAuthorized (env_clients E) (env_unstr E) (env_Getenv E) (env_listMC E) (h_RestConfig h) token
      (hst_world s) = (x, w)"
    by (cases "checkCallerAuthorized (env_clients E) (env_unstr E) (env_Getenv E) (env_listMC E) (h_RestConfig h) token (hst_world s)")
  show ?thesis
  proof (cases "x = Inr True")
    case True
    then show ?thesis using assms Some c early served [OF Some]
      by (auto simp: ServeHTTP_def Let_def denied_def http_Error_def split: if_splits)
  next
    case False
    then have "x = Inr False \<or> (\<exists>e. x = Inl e)" by (cases x) auto
    then show ?thesis using assms Some c early rejected [OF Some c False]
      by (auto simp: ServeHTTP_def Let_def denied_def http_Error_def split: if_splits)
  qed
qed

section \<open>Evaluation\<close>

lemma runBranches_vm:
  assumes "runBranches E sch h req s = Some (vm, snap, s')"
  shows "\<exists>w w'. FetchVMInfo (env_arch E) (env_ParseFloat E) (env_mcv E) (env_unstr E) (sch_pvcs sch) req w = (vm, w') \<and>
    (w = hst_world s \<or> (\<exists>r s1. getClusterSnapshot E sch h s = Some (r, s1) \<and> w = hst_world s1))"
  using assms by (auto simp: runBranches_def branchVM_def split: if_splits prod.splits option.splits)

lemma runBranches_snap:
  assumes "runBranches E sch h req s = Some (vm, snap, s')"
  shows "\<exists>s1 s2. getClusterSnapshot E sch h s1 = Some (snap, s2) \<and> hst_cache s1 = hst_cache s"
  using assms by (auto simp: runBranches_def branchVM_def split: if_splits prod.splits option.splits)

lemma evaluate_ok:
  assumes "evaluate E sch h req s = Some (Inr resp, s')"
  obtains sourceVM snap s1 s2 where "resp = scoreResponse E sch sourceVM snap"
    and "getClusterSnapshot E sch h s1 = Some (Inr snap, s2)" and "hst_cache s1 = hst_cache s"
proof -
  obtain vm sn s3 where r: "runBranches E sch h req s = Some (vm, sn, s3)"
    using assms by (auto simp: evaluate_def)
  then obtain sourceVM snap where "vm = Inr sourceVM" "sn = Inr snap" "resp = scoreResponse E sch sourceVM snap"
    using assms by (auto simp: evaluate_def split: sum.splits option.splits)
  then show thesis using runBranches_snap [OF r] that by blast
qed

section \<open>Eligible clusters\<close>

lemma finishRefresh_eligible:
  assumes "finishRefresh E rf w = (Inr snap, w')"
  shows "\<exists>items. env_listMC E ''acm/cnv-operator-install=true'' w = (Inr items, w') \<and>
    dom (snap_scs snap) \<subseteq> GetName ` set items - {[]}"
proof -
  obtain r w1 where l: "env_listMC E ''acm/cnv-operator-install=true'' w = (r, w1)"
    by (cases "env_listMC E ''acm/cnv-operator-install=true'' w")
  then show ?thesis using assms
    by (cases r) (auto simp: finishRefresh_def listEligibleManagedClusters_def cnvOperatorInstallLabel_def prog_defs
        filterClusterSCsByEligibility_def split: option.splits if_splits)
qed

lemma fetchFresh_eligible:
  assumes "fetchFreshClusterData E sch h s = Some (Inr snap, s')"
  shows "\<exists>w w' items. env_listMC E ''acm/cnv-operator-install=true'' w = (Inr items, w') \<and>
    dom (snap_scs snap) \<subseteq> GetName ` set items - {[]} \<and>
    hst_cache s' = cache_set (env_now E w') snap (hst_cache s)"
proof -
  obtain rf w once w' where "finishRefresh E rf w = (Inr snap, w')"
      "hst_cache s' = cache_set (env_now E w') snap (hst_cache s)"
    using assms by (auto simp: fetchFreshClusterData_def split: prod.splits sum.splits option.splits)
  then show ?thesis using finishRefresh_eligible by metis
qed

lemma recommend_hd:
  "recommend cs = Some rc \<longleftrightarrow> cs \<noteq> [] \<and> rc = \<lparr>rec_Cluster = cand_Cluster (hd cs), rec_Node = cand_BestNode (hd cs),
     rec_TotalScore = cand_TotalScore (hd cs), rec_AvailableCPUCores = cand_AvailableCPUCores (hd cs),
     rec_AvailableMemoryBytes = cand_AvailableMemoryBytes (hd cs), rec_StorageType = cand_StorageType (hd cs),
     rec_CephAvailableBytes = cand_CephAvailableBytes (hd cs)\<rparr>"
  by (cases cs) (auto simp: recommend_def)

definition scoring_input :: "SourceVMInfo \<Rightarrow> clusterSnapshot \<Rightarrow> ScoringInput" where
  "scoring_input vm snap = \<lparr>in_SourceVM = vm, in_ClusterSCs = snap_scs snap, in_NodeMetrics = snap_nodes snap,
     in_CephMetrics = snap_ceph snap\<rparr>"

lemma scoreResponse_eq:
  "scoreResponse E sch vm snap =
     (let sc = Score (env_arch E) (env_sort_Slice E) (sch_classes sch (snap_scs snap)) (scoring_input vm snap)
      in \<lparr>resp_SourceVM = vm, resp_Recommendation = recommend (fst sc), resp_Candidates = fst sc, resp_ExcludedClusters = snd sc\<rparr>)"
  by (simp add: scoreResponse_def scoring_input_def case_prod_beta Let_def)

lemma candidate_cluster:
  assumes "slice_sort sort_Slice" and "range_order (in_ClusterSCs input) order"
    and "y \<in> set (fst (Score A sort_Slice order input))"
  shows "cand_Cluster y \<in> dom (in_ClusterSCs input) - {vm_Cluster (in_SourceVM input)}"
proof -
  have "Inr y \<in> set (decisions A input order)"
    using assms(3) by (simp add: Score_decisions slice_sort.sort_set [OF assms(1)])
  then obtain c where "c \<in> dom (in_ClusterSCs input)" "c \<noteq> vm_Cluster (in_SourceVM input)"
      "Inr y = Score_cluster A input c (cluster_scs input c)"
    using in_decisions [OF assms(2)] by blast
  then show ?thesis using Score_cluster_name(2) [of A input c "cluster_scs input c" y] by simp
qed

section \<open>The advisor in memory\<close>

definition adv_node :: "f64 \<Rightarrow> NodeMetrics" where
  "adv_node alloc = \<lparr>nm_NodeName = ''n1'', nm_AllocatableCPUCores = alloc, nm_AllocatableMemBytes = 0,
     nm_RequestedCPUCores = Fin 2, nm_RequestedMemBytes = 0\<rparr>"

definition adv_snapshot_with :: "f64 \<Rightarrow> clusterSnapshot" where
  "adv_snapshot_with alloc = adv_snapshot\<lparr>snap_nodes := [''c1'' \<mapsto> [adv_node alloc]]\<rparr>"

lemma adv_snapshot_nodes: "adv_snapshot = adv_snapshot_with (Fin 8)"
  by (simp add: adv_snapshot_with_def adv_snapshot_def adv_nodes_def adv_node_def)

lemma adv_room: "has_room ideal_arch adv_vm (adv_node (Fin 8))" "has_room ideal_arch adv_vm (adv_node PInf)"
  by (simp_all add: has_room_def adv_vm_def adv_node_def AvailableCPUCores_def AvailableMemBytes_def f_sub_def f_of_i64_def)

lemma adv_candidate:
  assumes "has_room ideal_arch adv_vm (adv_node alloc)"
  shows "\<exists>y\<in>set (fst (Score (env_arch adv_env) (env_sort_Slice adv_env) (sch_classes adv_sched (snap_scs (adv_snapshot_with alloc)))
    (scoring_input adv_vm (adv_snapshot_with alloc)))). cand_Cluster y = ''c1''"
proof -
  let ?in = "scoring_input adv_vm (adv_snapshot_with alloc)"
  have scs: "snap_scs (adv_snapshot_with alloc) = snap_scs adv_snapshot" by (simp add: adv_snapshot_with_def)
  have "''ceph'' \<in> sourceVolumesSCs ?in"
    by (simp add: sourceVolumesSCs_code scoring_input_def adv_vm_def)
  moreover have "classifyStorageType ''ebs.csi.aws.com'' = StorageTypeCloud" by code_simp
  ultimately have "shared_types ?in ''c1'' = {StorageTypeCloud}"
    by (auto simp: shared_types_def cluster_scs_def scoring_input_def adv_snapshot_with_def adv_snapshot_def adv_classes_def)
  then have "can_host ideal_arch ?in ''c1''"
    using assms by (simp add: can_host_def nodes_of_def) (simp add: scoring_input_def adv_snapshot_with_def)
  then show ?thesis
    using Score_candidate [OF insertion.slice_sort_axioms, of ?in "sch_classes adv_sched (snap_scs adv_snapshot)" ideal_arch "''c1''"]
      adv_range_order
    by (simp add: scs adv_env_def) (simp add: scoring_input_def scs adv_snapshot_def adv_classes_def adv_vm_def)
qed

section \<open>Properties\<close>

text \<open>C6: a reply with status 200, a change of the cache, and every reply that is not a plain error
  come after an authorization: the request carries a bearer token, and a permission read with
  that token grants the fleet administrator role on the hub or the cluster administrator
  role on every labelled cluster. Every other request is answered by an error and has no effect
  but the authorization check itself.\<close>

theorem served_only_authorized:
  assumes "unstructured_lib (env_unstr E)" and "ServeHTTP E sch h r s = Some (rep, s')"
    and "\<not> denied rep \<or> hst_cache s' \<noteq> hst_cache s"
  shows "\<exists>token client p w1. bearerToken (api_Authorization r) = Some token \<and>
    newForConfig (env_clients E) (callerConfig (h_RestConfig h) token) = Inr client \<and>
    getUserPermission (env_clients E) client (advisorRoleVMFleetAdmin (env_Getenv E)) (hst_world s) = (p, w1) \<and>
    ((\<exists>obj. p = Inr obj \<and> ''local-cluster'' \<in> perm_clusters obj) \<or>
     (\<exists>items w2 obj w3. env_listMC E ''acm/cnv-operator-install=true'' w1 = (Inr items, w2) \<and> items \<noteq> [] \<and>
        getUserPermission (env_clients E) client (advisorRoleManagedClusterAdmin (env_Getenv E)) w2 = (Inr obj, w3) \<and>
        GetName ` set items \<subseteq> perm_clusters obj))"
  using assms(2)
proof (cases rule: ServeHTTP_cases)
  case (served token w res)
  from checkCaller_granted [OF assms(1) served(2)] show ?thesis
    by (intro exI [of _ token]) (simp only: served(1) simp_thms)
qed (use assms(3) in auto)

definition adv_request :: api_request where
  "adv_request = \<lparr>api_Method = ''GET'', api_Query = (\<lambda>k. if k = ''cluster'' then ''east'' else if k = ''vmName'' then ''db'' else ''apps''),
     api_Authorization = ''bearer tok''\<rparr>"

theorem served_only_authorized_witness:
  "\<exists>client. newForConfig (env_clients adv_env) (callerConfig (h_RestConfig adv_handler) ''tok'') = Inr client \<and>
     bearerToken (api_Authorization adv_request) = Some ''tok''"
proof -
  have tok: "bearerToken (api_Authorization adv_request) = Some ''tok''" unfolding adv_request_def by code_simp
  have req: "parseRequest adv_request = demo_vm_req"
    by (simp add: parseRequest_def adv_request_def demo_vm_req_def)
  obtain s' where "evaluate adv_env adv_sched adv_handler demo_vm_req adv_state =
      Some (Inr (scoreResponse adv_env adv_sched adv_vm adv_snapshot), s')" using adv_evaluate by blast
  then have "ServeHTTP adv_env adv_sched adv_handler adv_request adv_state =
      Some (encodeReply (scoreResponse adv_env adv_sched adv_vm adv_snapshot), s')"
    using adv_authorized [of "hst_world adv_state"] tok
    by (simp add: ServeHTTP_def req) (simp add: adv_request_def demo_vm_req_def adv_env_def adv_handler_def evaluateReply_def)
  from served_only_authorized [OF _ this] unstr_ref.unstructured_lib_axioms tok show ?thesis
    by (auto simp: denied_def encodeReply_def adv_env_def)
qed

text \<open>C38: if the cluster of the request has no namespace on the hub, and refreshing the cluster data
  does not make one, every evaluation that returns reports the error for a cluster that is not
  found, whatever the cache and the other services do and in whichever order the two
  branches run; the reply has status 400, where the documentation of the advisor says 500 for
  every evaluation that fails. An evaluation may not return when the pages of Search do not end.\<close>

theorem unknown_cluster_reported:
  assumes "mcv_live (env_unstr E) (env_mcv E) views spoke" and "spoke (hst_world s) (req_ClusterName req) = None"
    and "\<And>r s1. getClusterSnapshot E sch h s = Some (r, s1) \<Longrightarrow> spoke (hst_world s1) = spoke (hst_world s)"
    and "evaluate E sch h req s = Some (res, s')"
  shows "res = Inl (VMNotFoundError ''cluster %q not found on hub (no namespace %q)'' [req_ClusterName req, req_ClusterName req])
    \<and> rp_StatusCode (evaluateReply res) = 400"
proof -
  let ?nf = "VMNotFoundError ''cluster %q not found on hub (no namespace %q)'' [req_ClusterName req, req_ClusterName req]"
  obtain vm sn s3 where r: "runBranches E sch h req s = Some (vm, sn, s3)"
    using assms(4) by (auto simp: evaluate_def)
  obtain w w' where f: "FetchVMInfo (env_arch E) (env_ParseFloat E) (env_mcv E) (env_unstr E) (sch_pvcs sch) req w = (vm, w')"
    and "spoke w (req_ClusterName req) = None"
    using runBranches_vm [OF r] assms(2,3) by metis
  then obtain w1 where "fetchVMIViaMCV (env_mcv E) (env_unstr E) req w = (Inl ?nf, w1)"
    using mcv_live.fetchVMI_no_cluster [OF assms(1)] by blast
  then have "vm = Inl (Errorf ''fetch VMI: %w'' [] (Some ?nf))" using f by (simp add: FetchVMInfo_def prog_defs)
  then show ?thesis using assms(4) r by (auto simp: evaluate_def evaluateReply_def http_Error_def)
qed

theorem unknown_cluster_reported_witness:
  "\<exists>s'. evaluate adv_env adv_sched adv_handler (demo_vm_req\<lparr>req_ClusterName := ''west''\<rparr>) adv_state =
     Some (Inl (VMNotFoundError ''cluster %q not found on hub (no namespace %q)'' [''west'', ''west'']), s')"
proof -
  let ?req = "demo_vm_req\<lparr>req_ClusterName := ''west''\<rparr>"
  obtain vm s1 where "branchVM adv_env adv_sched ?req adv_state = (vm, s1)" "hst_cache s1 = emptyCache"
    by (cases "branchVM adv_env adv_sched ?req adv_state") (auto simp: branchVM_def adv_state_def split: prod.splits)
  then obtain snap s2 where "runBranches adv_env adv_sched adv_handler ?req adv_state = Some (vm, snap, s2)"
    using adv_getClusterSnapshot [of s1] by (auto simp: runBranches_def adv_sched_def)
  then obtain res s' where e: "evaluate adv_env adv_sched adv_handler ?req adv_state = Some (res, s')"
    by (auto simp: evaluate_def)
  have live: "mcv_live (env_unstr adv_env) (env_mcv adv_env) mcv_views mcv_spoke"
    using mem_mcv_live.mcv_live_axioms by (simp add: adv_env_def)
  have "hst_world s1 = hst_world adv_state" if "getClusterSnapshot adv_env adv_sched adv_handler adv_state = Some (r, s1)" for r s1
    using that adv_getClusterSnapshot [of adv_state] by (auto simp: adv_state_def)
  then show ?thesis
    using unknown_cluster_reported [OF live _ _ e] e by (auto simp: adv_state_def mcv_spoke_def demo_mcv_def)
qed

text \<open>C13: on freshly fetched data, every candidate and in particular the recommended cluster carries
  the label that makes it eligible and is not the cluster of the VM; with finite metrics
  no candidate has a better score than the recommendation.\<close>

theorem recommendation_eligible_best:
  assumes "float_arch (env_arch E)" and "slice_sort (env_sort_Slice E)"
    and "range_order (snap_scs snap) (sch_classes sch (snap_scs snap))"
    and "fetchFreshClusterData E sch h s = Some (Inr snap, s')"
    and "finite_metrics (scoring_input vm snap)"
    and "resp_Recommendation (scoreResponse E sch vm snap) = Some rc"
  shows "rec_Cluster rc \<noteq> vm_Cluster vm \<and>
    (\<exists>w w' items. env_listMC E ''acm/cnv-operator-install=true'' w = (Inr items, w') \<and> rec_Cluster rc \<in> GetName ` set items) \<and>
    (\<forall>y\<in>set (resp_Candidates (scoreResponse E sch vm snap)). f_le (cand_TotalScore y) (rec_TotalScore rc))"
proof -
  let ?cs = "fst (Score (env_arch E) (env_sort_Slice E) (sch_classes sch (snap_scs snap)) (scoring_input vm snap))"
  have rc: "?cs \<noteq> []" "rec_Cluster rc = cand_Cluster (hd ?cs)" "rec_TotalScore rc = cand_TotalScore (hd ?cs)"
    using assms(6) by (auto simp: scoreResponse_eq recommend_hd Let_def)
  have "cand_Cluster (hd ?cs) \<in> dom (snap_scs snap) - {vm_Cluster vm}"
    using candidate_cluster [OF assms(2) _ hd_in_set [OF rc(1)]] assms(3) by (simp add: scoring_input_def)
  moreover have "\<forall>y\<in>set ?cs. f_le (cand_TotalScore y) (cand_TotalScore (hd ?cs))"
  proof -
    have "sorted_wrt (\<lambda>a b. f_ge (cand_TotalScore a) (cand_TotalScore b)) ?cs"
      by (rule Score_sorted [OF assms(1,2,5)])
    moreover have "cand_TotalScore (hd ?cs) \<noteq> NaN"
      using decided_not_NaN [OF assms(1,5)] hd_in_set [OF rc(1)]
      by (simp add: Score_decisions slice_sort.sort_set [OF assms(2)])
    ultimately show ?thesis using rc(1) f_le_refl by (cases ?cs) auto
  qed
  moreover obtain w w' items where "env_listMC E ''acm/cnv-operator-install=true'' w = (Inr items, w')"
      "dom (snap_scs snap) \<subseteq> GetName ` set items - {[]}"
    using fetchFresh_eligible [OF assms(4)] by blast
  ultimately have "rec_Cluster rc \<noteq> vm_Cluster vm"
    "\<exists>w w' items. env_listMC E ''acm/cnv-operator-install=true'' w = (Inr items, w') \<and> rec_Cluster rc \<in> GetName ` set items"
    "\<forall>y\<in>set ?cs. f_le (cand_TotalScore y) (rec_TotalScore rc)"
    unfolding rc(2,3) by blast+
  then show ?thesis by (simp add: scoreResponse_eq Let_def)
qed

theorem recommendation_eligible_best_witness:
  "\<exists>rc. resp_Recommendation (scoreResponse adv_env adv_sched adv_vm adv_snapshot) = Some rc \<and>
     rec_Cluster rc \<noteq> ''east'' \<and> rec_Cluster rc = ''c1''"
proof -
  obtain rc where rc: "resp_Recommendation (scoreResponse adv_env adv_sched adv_vm adv_snapshot) = Some rc"
    using adv_candidate [of "Fin 8"] adv_room by (fastforce simp: scoreResponse_eq recommend_hd Let_def adv_snapshot_nodes)
  obtain s' where f: "fetchFreshClusterData adv_env adv_sched adv_handler adv_state = Some (Inr adv_snapshot, s')"
    using adv_fetchFresh by blast
  have A: "float_arch (env_arch adv_env)" "slice_sort (env_sort_Slice adv_env)"
    using ideal.float_arch_axioms insertion.slice_sort_axioms by (simp_all add: adv_env_def)
  have "finite_metrics (scoring_input adv_vm adv_snapshot)"
    by (simp add: finite_metrics_def nodes_of_def scoring_input_def adv_snapshot_def adv_nodes_def finite_node_def)
  from recommendation_eligible_best [OF A adv_range_order f this rc] rc show ?thesis
    by (auto simp: adv_vm_def adv_env_def ret_def GetName_def demo_mc_def)
qed

text \<open>C39: a candidate whose only node reports an infinite allocatable CPU cannot be encoded: the
  caller gets status 200 with an empty body.\<close>

theorem infinite_metric_empty_reply:
  assumes "slice_sort (env_sort_Slice E)" and "y \<in> set (resp_Candidates (scoreResponse E sch vm snap))"
    and "snap_nodes snap (cand_Cluster y) = Some [n]"
    and "nm_AllocatableCPUCores n = PInf" and "nm_RequestedCPUCores n = Fin r"
    and "rnd (env_arch E) (of_int (sint (vm_CPUCores vm))) = Fin v"
  shows "evaluateReply (Inr (scoreResponse E sch vm snap)) = \<lparr>rp_StatusCode = 200, rp_Body = BNone\<rparr>"
proof -
  have "cand_TotalScore y = NaN"
    using infinite_metric_NaN [OF assms(1), of y "env_arch E" "sch_classes sch (snap_scs snap)" "scoring_input vm snap" n r v]
      assms(2-6) by (simp add: scoreResponse_eq scoring_input_def nodes_of_def Let_def)
  then have "\<not> cand_encodes y" by (simp add: cand_encodes_def)
  then have "\<not> response_encodes (scoreResponse E sch vm snap)"
    using assms(2) by (auto simp: response_encodes_def list_all_iff)
  then show ?thesis by (simp add: evaluateReply_def encodeReply_def)
qed

theorem infinite_metric_empty_reply_witness:
  "evaluateReply (Inr (scoreResponse adv_env adv_sched adv_vm (adv_snapshot_with PInf))) = \<lparr>rp_StatusCode = 200, rp_Body = BNone\<rparr>"
proof -
  have S: "slice_sort (env_sort_Slice adv_env)" using insertion.slice_sort_axioms by (simp add: adv_env_def)
  obtain y where "y \<in> set (resp_Candidates (scoreResponse adv_env adv_sched adv_vm (adv_snapshot_with PInf)))" "cand_Cluster y = ''c1''"
    using adv_candidate [of PInf] adv_room by (auto simp: scoreResponse_eq Let_def)
  from infinite_metric_empty_reply [OF S this(1), of "adv_node PInf" 2 4] this(2) show ?thesis
    by (simp add: adv_snapshot_with_def adv_node_def adv_env_def adv_vm_def)
qed

end
