(* ===== verification/SnapshotRefresh.thy ===== *)
theory SnapshotRefresh
  imports AdvisorDemo
begin

text \<open>
  Requests in parallel: \<^verbatim>\<open>getClusterSnapshot\<close> of \<^verbatim>\<open>controllers/migrationadvisor/handler.go\<close> as a
  step relation. The requests share the cache, whose mutex makes \<^verbatim>\<open>get\<close> and \<^verbatim>\<open>set\<close> one step
  each, and the group of calls that deduplicates the refreshes. The group is a library: its
  operations are the record \<open>flight_group\<close> and its documented contract is the locale
  \<open>singleflight\<close>. The outcome of \<^verbatim>\<open>fetchFreshClusterData\<close> is arbitrary, and so is the progress of
  the clock between two steps. Times that the program does not keep (when the flight of a
  caller began) are carried along to state what is served.
\<close>

section \<open>The group\<close>

type_synonym outcome = "goerr + clusterSnapshot"

text \<open>A caller of \<^verbatim>\<open>Do\<close> runs its function or waits for the call in flight; the function returns; the
  result of a caller is there or not yet.\<close>

record 'g flight_group =
  g_Do :: "nat \<Rightarrow> 'g \<Rightarrow> bool \<times> 'g"
  g_return :: "nat \<Rightarrow> outcome \<Rightarrow> 'g \<Rightarrow> 'g"
  g_result :: "nat \<Rightarrow> 'g \<Rightarrow> outcome option"

locale singleflight =
  fixes G :: "'g flight_group" and running :: "'g \<Rightarrow> nat option" and waits :: "'g \<Rightarrow> nat set"
  assumes Do_free: "running g = None \<Longrightarrow>
      \<exists>g'. g_Do G t g = (True, g') \<and> running g' = Some t \<and> waits g' = {} \<and> (\<forall>u. g_result G u g' = (if u = t then None else g_result G u g))"
    and Do_busy: "running g = Some l \<Longrightarrow>
      \<exists>g'. g_Do G t g = (False, g') \<and> running g' = Some l \<and> waits g' = insert t (waits g) \<and>
        (\<forall>u. g_result G u g' = (if u = t then None else g_result G u g))"
    and return_idle: "running g = Some t \<Longrightarrow> running (g_return G t r g) = None"
    and return_result: "running g = Some t \<Longrightarrow>
      g_result G u (g_return G t r g) = (if u = t \<or> u \<in> waits g then Some r else g_result G u g)"

section \<open>Requests\<close>

text \<open>Where a request is in \<^verbatim>\<open>getClusterSnapshot\<close>. From \<open>PRecheck\<close> to \<open>PReturn\<close> it runs the function
  passed to \<^verbatim>\<open>Do\<close>. The number is the moment at which the flight began.\<close>

datatype pc =
    PStart
  | PGet
  | PDo
  | PRecheck int
  | PFetch int
  | PReturn outcome int
  | PWait int
  | PDone outcome

record 'g conc =
  cx_now :: int
  cx_cache :: clusterDataCache
  cx_group :: 'g
  cx_began :: int
  cx_pc :: "nat \<Rightarrow> pc"

text \<open>\<open>Served t r b\<close>: request \<open>t\<close> has got \<open>r\<close>, from the cache at moment \<open>b\<close> or from a flight that began
  at \<open>b\<close>.\<close>

datatype event = Internal | Published int clusterSnapshot | Served nat outcome int

definition goto :: "nat \<Rightarrow> pc \<Rightarrow> 'g conc \<Rightarrow> 'g conc" where
  "goto t p s = s\<lparr>cx_pc := (cx_pc s)(t := p)\<rparr>"

inductive step :: "'g flight_group \<Rightarrow> int \<Rightarrow> nat \<Rightarrow> 'g conc \<Rightarrow> event \<Rightarrow> 'g conc \<Rightarrow> bool"
  for G :: "'g flight_group" and CacheTTL :: int and t :: nat where
  set_ttl: "cx_pc s t = PStart \<Longrightarrow>
    step G CacheTTL t s Internal (goto t PGet (s\<lparr>cx_cache := (cx_cache s)\<lparr>cc_ttl := CacheTTL\<rparr>\<rparr>))"
| hit: "cx_pc s t = PGet \<Longrightarrow> cache_get (cx_now s) (cx_cache s) = Some snap \<Longrightarrow>
    step G CacheTTL t s (Served t (Inr snap) (cx_now s)) (goto t (PDone (Inr snap)) s)"
| miss: "cx_pc s t = PGet \<Longrightarrow> cache_get (cx_now s) (cx_cache s) = None \<Longrightarrow>
    step G CacheTTL t s Internal (goto t PDo s)"
| lead: "cx_pc s t = PDo \<Longrightarrow> g_Do G t (cx_group s) = (True, g) \<Longrightarrow>
    step G CacheTTL t s Internal (goto t (PRecheck (cx_now s)) (s\<lparr>cx_group := g, cx_began := cx_now s\<rparr>))"
| follow: "cx_pc s t = PDo \<Longrightarrow> g_Do G t (cx_group s) = (False, g) \<Longrightarrow>
    step G CacheTTL t s Internal (goto t (PWait (cx_began s)) (s\<lparr>cx_group := g\<rparr>))"
| recheck_hit: "cx_pc s t = PRecheck b \<Longrightarrow> cache_get (cx_now s) (cx_cache s) = Some snap \<Longrightarrow>
    step G CacheTTL t s Internal (goto t (PReturn (Inr snap) b) s)"
| recheck_miss: "cx_pc s t = PRecheck b \<Longrightarrow> cache_get (cx_now s) (cx_cache s) = None \<Longrightarrow>
    step G CacheTTL t s Internal (goto t (PFetch b) s)"
| fetch_error: "cx_pc s t = PFetch b \<Longrightarrow> step G CacheTTL t s Internal (goto t (PReturn (Inl err) b) s)"
| fetch_ok: "cx_pc s t = PFetch b \<Longrightarrow>
    step G CacheTTL t s (Published (cx_now s) snap)
      (goto t (PReturn (Inr snap) b) (s\<lparr>cx_cache := cache_set (cx_now s) snap (cx_cache s)\<rparr>))"
| return: "cx_pc s t = PReturn r b \<Longrightarrow>
    step G CacheTTL t s Internal (goto t (PWait b) (s\<lparr>cx_group := g_return G t r (cx_group s)\<rparr>))"
| result: "cx_pc s t = PWait b \<Longrightarrow> g_result G t (cx_group s) = Some r \<Longrightarrow>
    step G CacheTTL t s (Served t r b) (goto t (PDone r) s)"

inductive run :: "'g flight_group \<Rightarrow> int \<Rightarrow> 'g conc \<Rightarrow> event list \<Rightarrow> 'g conc \<Rightarrow> bool"
  for G :: "'g flight_group" and CacheTTL :: int and s0 :: "'g conc" where
  run_init: "run G CacheTTL s0 [] s0"
| run_step: "run G CacheTTL s0 tr s \<Longrightarrow> step G CacheTTL t s ev s' \<Longrightarrow> run G CacheTTL s0 (tr @ [ev]) s'"
| run_tick: "run G CacheTTL s0 tr s \<Longrightarrow> cx_now s \<le> now \<Longrightarrow> run G CacheTTL s0 tr (s\<lparr>cx_now := now\<rparr>)"

definition initial :: "'g \<Rightarrow> int \<Rightarrow> 'g conc" where
  "initial g now = \<lparr>cx_now = now, cx_cache = emptyCache, cx_group = g, cx_began = now, cx_pc = (\<lambda>_. PStart)\<rparr>"

definition effectiveTTL :: "int \<Rightarrow> int" where
  "effectiveTTL ttl = (if ttl \<le> 0 then defaultCacheTTL else ttl)"

fun published :: "event list \<Rightarrow> (int \<times> clusterSnapshot) list" where
  "published [] = []"
| "published (Published p snap # tr) = (p, snap) # published tr"
| "published (_ # tr) = published tr"

lemma goto_simps [simp]:
  "cx_pc (goto t p s) = (cx_pc s)(t := p)" "cx_now (goto t p s) = cx_now s" "cx_cache (goto t p s) = cx_cache s"
  "cx_group (goto t p s) = cx_group s" "cx_began (goto t p s) = cx_began s"
  by (simp_all add: goto_def)

lemma published_append [simp]: "published (tr @ tr') = published tr @ published tr'"
  by (induction tr rule: published.induct) auto

lemma in_published: "(p, snap) \<in> set (published tr) \<longleftrightarrow> Published p snap \<in> set tr"
  by (induction tr rule: published.induct) auto

inductive_cases step_cases: "step G CacheTTL t s ev s'"

section \<open>The invariant\<close>

fun in_call :: "pc \<Rightarrow> int option" where
  "in_call (PRecheck b) = Some b"
| "in_call (PFetch b) = Some b"
| "in_call (PReturn r b) = Some b"
| "in_call _ = None"

text \<open>A result is an error or a snapshot that was published and was not expired at moment \<open>b\<close>.\<close>

definition fresh :: "int \<Rightarrow> (int \<times> clusterSnapshot) list \<Rightarrow> outcome \<Rightarrow> int \<Rightarrow> bool" where
  "fresh ttl L r b \<longleftrightarrow> (\<forall>snap. r = Inr snap \<longrightarrow> (\<exists>p. (p, snap) \<in> set L \<and> b < p + ttl))"

definition cached :: "clusterDataCache \<Rightarrow> clusterSnapshot" where
  "cached c = \<lparr>snap_nodes = cc_nodeData c, snap_ceph = cc_cephData c, snap_scs = cc_scData c\<rparr>"

definition cache_inv :: "int \<Rightarrow> (int \<times> clusterSnapshot) list \<Rightarrow> 'g conc \<Rightarrow> bool" where
  "cache_inv ttl L s \<longleftrightarrow>
     (\<forall>t. cx_pc s t \<noteq> PStart \<longrightarrow> cc_ttl (cx_cache s) = ttl) \<and>
     (if L = [] then cc_expiresAt (cx_cache s) \<le> cx_now s
      else cc_expiresAt (cx_cache s) = fst (last L) + effectiveTTL ttl \<and> cached (cx_cache s) = snd (last L)) \<and>
     (\<forall>(p, snap)\<in>set L. p \<le> cx_now s) \<and>
     sorted_wrt (\<lambda>p q. p + effectiveTTL ttl \<le> q) (map fst L)"

text \<open>What holds of a request that runs the function, and with the group of one that waits.\<close>

fun call_ok :: "int \<Rightarrow> (int \<times> clusterSnapshot) list \<Rightarrow> int \<Rightarrow> int \<Rightarrow> pc \<Rightarrow> bool" where
  "call_ok ttl L now expires (PRecheck b) \<longleftrightarrow> b \<le> now"
| "call_ok ttl L now expires (PFetch b) \<longleftrightarrow> b \<le> now \<and> expires \<le> now"
| "call_ok ttl L now expires (PReturn r b) \<longleftrightarrow> fresh (effectiveTTL ttl) L r b"
| "call_ok ttl L now expires _ \<longleftrightarrow> True"

definition call_inv :: "int \<Rightarrow> (int \<times> clusterSnapshot) list \<Rightarrow> 'g conc \<Rightarrow> bool" where
  "call_inv ttl L s \<longleftrightarrow> (\<forall>t. call_ok ttl L (cx_now s) (cc_expiresAt (cx_cache s)) (cx_pc s t))"

lemma call_inv_at: "call_inv ttl L s \<Longrightarrow> call_ok ttl L (cx_now s) (cc_expiresAt (cx_cache s)) (cx_pc s t)"
  by (simp add: call_inv_def)

lemma call_inv_goto:
  assumes "call_inv ttl L s" and "cx_now s = cx_now s0" "cc_expiresAt (cx_cache s) = cc_expiresAt (cx_cache s0)" "cx_pc s0 = cx_pc s"
    and "call_ok ttl L (cx_now s) (cc_expiresAt (cx_cache s)) p"
  shows "call_inv ttl L (goto t p s0)"
  using assms by (simp add: call_inv_def)

lemma call_ok_later: "call_ok ttl L now expires p \<Longrightarrow> now \<le> now' \<Longrightarrow> call_ok ttl L now' expires p"
  by (cases p) auto

lemma fresh_mono: "fresh ttl L r b \<Longrightarrow> set L \<subseteq> set L' \<Longrightarrow> fresh ttl L' r b"
  by (auto simp: fresh_def)

lemma effectiveTTL_pos: "0 < effectiveTTL ttl"
  by (simp add: effectiveTTL_def defaultCacheTTL_def)

lemma cache_get_Some: "cache_get now c = Some snap \<longleftrightarrow> now < cc_expiresAt c \<and> snap = cached c"
  by (auto simp: cache_get_def cached_def)

lemma cache_get_None: "cache_get now c = None \<longleftrightarrow> cc_expiresAt c \<le> now"
  by (auto simp: cache_get_def)

lemma cache_set_simps [simp]:
  "cached (cache_set now snap c) = snap" "cc_ttl (cache_set now snap c) = cc_ttl c"
  "cc_expiresAt (cache_set now snap c) = now + effectiveTTL (cc_ttl c)"
  by (simp_all add: cached_def cache_set_def effectiveTTL_def Let_def)

lemma cached_ttl [simp]: "cached (c\<lparr>cc_ttl := ttl\<rparr>) = cached c"
  by (simp add: cached_def)

lemma cache_inv_fresh:
  assumes "cache_inv ttl L s" and "cache_get (cx_now s) (cx_cache s) = Some snap" and "b \<le> cx_now s"
  shows "fresh (effectiveTTL ttl) L (Inr snap) b"
proof -
  have "L \<noteq> []" using assms by (auto simp: cache_inv_def cache_get_Some)
  then have "last L \<in> set L" "cc_expiresAt (cx_cache s) = fst (last L) + effectiveTTL ttl" "snap = snd (last L)"
    using assms by (auto simp: cache_inv_def cache_get_Some)
  moreover from this have "(fst (last L), snap) \<in> set L" by simp
  ultimately show ?thesis using assms(2,3) unfolding fresh_def cache_get_Some by force
qed

lemma cache_step:
  assumes "step G ttl t s ev s'" and "cache_inv ttl L s" and "call_inv ttl L s"
  shows "cache_inv ttl (L @ published [ev]) s'"
  using assms(1)
proof cases
  case (fetch_ok b snap)
  have e: "cc_expiresAt (cx_cache s) \<le> cx_now s"
    using call_inv_at [OF assms(3), of t] fetch_ok by simp
  have ttl: "cc_ttl (cx_cache s) = ttl" using assms(2) fetch_ok by (auto simp: cache_inv_def dest: spec [of _ t])
  have "p + effectiveTTL ttl \<le> cx_now s" if "(p, sn) \<in> set L" for p sn
  proof -
    from that have "L \<noteq> []" by auto
    then obtain L' where L: "L = L' @ [last L]" by (metis append_butlast_last_id)
    have "p + effectiveTTL ttl \<le> fst (last L) + effectiveTTL ttl"
    proof (cases "(p, sn) = last L")
      case False
      then have "(p, sn) \<in> set L'" using that L by (metis Un_iff empty_iff insert_iff list.set(1,2) set_append)
      moreover have "sorted_wrt (\<lambda>p q. p + effectiveTTL ttl \<le> q) (map fst (L' @ [last L]))"
        using assms(2) L by (simp add: cache_inv_def)
      ultimately show ?thesis using effectiveTTL_pos [of ttl] by (fastforce simp: sorted_wrt_append)
    qed (metis fst_conv order_refl)
    then show ?thesis using e assms(2) \<open>L \<noteq> []\<close> by (auto simp: cache_inv_def)
  qed
  then show ?thesis using assms(2) fetch_ok ttl by (auto simp: cache_inv_def sorted_wrt_append)
qed (use assms(2) in \<open>auto simp: cache_inv_def\<close>)

context singleflight
begin

definition group_ok :: "int \<Rightarrow> (int \<times> clusterSnapshot) list \<Rightarrow> 'g \<Rightarrow> int \<Rightarrow> nat \<Rightarrow> pc \<Rightarrow> bool" where
  "group_ok ttl L g began t p \<longleftrightarrow>
     (case in_call p of Some b \<Rightarrow> running g = Some t \<and> b = began | None \<Rightarrow> running g \<noteq> Some t) \<and>
     (\<forall>b. p = PWait b \<longrightarrow> (running g \<noteq> None \<and> t \<in> waits g \<and> b = began \<and> g_result G t g = None) \<or>
        ((running g \<noteq> None \<longrightarrow> t \<notin> waits g) \<and> (\<exists>r. g_result G t g = Some r \<and> fresh (effectiveTTL ttl) L r b)))"

definition group_inv :: "int \<Rightarrow> (int \<times> clusterSnapshot) list \<Rightarrow> 'g conc \<Rightarrow> bool" where
  "group_inv ttl L s \<longleftrightarrow> (\<forall>t. group_ok ttl L (cx_group s) (cx_began s) t (cx_pc s t))"

lemma group_inv_at: "group_inv ttl L s \<Longrightarrow> group_ok ttl L (cx_group s) (cx_began s) t (cx_pc s t)"
  by (simp add: group_inv_def)

definition inv :: "int \<Rightarrow> event list \<Rightarrow> 'g conc \<Rightarrow> bool" where
  "inv ttl tr s \<longleftrightarrow> cache_inv ttl (published tr) s \<and> call_inv ttl (published tr) s \<and> group_inv ttl (published tr) s \<and>
     (\<forall>t r b. Served t r b \<in> set tr \<longrightarrow> fresh (effectiveTTL ttl) (published tr) r b)"

lemma in_call_running: "group_inv ttl L s \<Longrightarrow> in_call (cx_pc s t) = Some b \<Longrightarrow> running (cx_group s) = Some t \<and> b = cx_began s"
  using group_inv_at [of ttl L s t] by (simp add: group_ok_def)

lemma others_idle: "group_inv ttl L s \<Longrightarrow> running (cx_group s) = Some t \<Longrightarrow> u \<noteq> t \<Longrightarrow> in_call (cx_pc s u) = None"
  using in_call_running [of ttl L s u] by (cases "in_call (cx_pc s u)") auto

lemma call_ok_idle: "in_call p = None \<Longrightarrow> call_ok ttl L now expires p"
  by (cases p) auto

lemma call_step:
  assumes "step G ttl t s ev s'" and "cache_inv ttl L s" and "call_inv ttl L s" and "group_inv ttl L s"
  shows "call_inv ttl (L @ published [ev]) s'"
  using assms(1)
proof cases
  case (recheck_hit b snap)
  then have "b \<le> cx_now s" using call_inv_at [OF assms(3), of t] by simp
  then show ?thesis using cache_inv_fresh [OF assms(2)] recheck_hit by (auto intro!: call_inv_goto [OF assms(3)])
next
  case (recheck_miss b)
  then show ?thesis using call_inv_at [OF assms(3), of t] by (auto simp: cache_get_None intro!: call_inv_goto [OF assms(3)])
next
  case (fetch_ok b snap)
  have "b \<le> cx_now s" using call_inv_at [OF assms(3), of t] fetch_ok by simp
  then have "fresh (effectiveTTL ttl) (L @ [(cx_now s, snap)]) (Inr snap) b"
    using effectiveTTL_pos [of ttl] by (force simp: fresh_def)
  moreover have "in_call (cx_pc s u) = None" if "u \<noteq> t" for u
    using others_idle [OF assms(4) _ that] in_call_running [OF assms(4), of t] fetch_ok by simp
  ultimately show ?thesis using fetch_ok by (auto simp: call_inv_def call_ok_idle)
qed (auto simp: fresh_def intro!: call_inv_goto [OF assms(3)])

lemma group_inv_goto:
  assumes "group_inv ttl L s" and "group_ok ttl L' g began t p"
    and "\<And>u. u \<noteq> t \<Longrightarrow> group_ok ttl L (cx_group s) (cx_began s) u (cx_pc s u) \<Longrightarrow> group_ok ttl L' g began u (cx_pc s u)"
    and "cx_pc s0 = cx_pc s" "cx_group s0 = g" "cx_began s0 = began"
  shows "group_inv ttl L' (goto t p s0)"
  using assms by (simp add: group_inv_def)

lemma group_ok_idle:
  assumes "group_ok ttl L g began t p" and "in_call p = None" and "in_call p' = None" and "\<And>b. p' \<noteq> PWait b"
  shows "group_ok ttl L g began t p'"
  using assms by (simp add: group_ok_def)

lemma group_ok_call:
  assumes "group_ok ttl L g began t p" and "in_call p = Some b" and "in_call p' = Some b"
  shows "group_ok ttl L' g began t p'"
  using assms by (cases p') (simp_all add: group_ok_def)

lemma group_ok_more: "group_ok ttl L g began t p \<Longrightarrow> group_ok ttl (L @ L') g began t p"
  unfolding group_ok_def using fresh_mono [of _ L _ _ "L @ L'"] by (auto split: option.splits)

lemma group_step:
  assumes "step G ttl t s ev s'" and "call_inv ttl L s" and "group_inv ttl L s"
  shows "group_inv ttl (L @ published [ev]) s'"
proof -
  note goto = group_inv_goto [OF assms(3), where t = t] and at = group_inv_at [OF assms(3), of t]
  from assms(1) show ?thesis
  proof cases
    case (lead g)
    have idle: "running (cx_group s) = None"
      using Do_busy [of "cx_group s" _ t] lead by (cases "running (cx_group s)") auto
    then have "running g = Some t" "waits g = {}" "\<And>u. g_result G u g = (if u = t then None else g_result G u (cx_group s))"
      using Do_free [OF idle, of t] lead by auto
    then show ?thesis using lead idle
      by (auto intro!: goto simp: group_ok_def split: option.splits)
  next
    case (follow g)
    obtain l where l: "running (cx_group s) = Some l"
      using Do_free [of "cx_group s" t] follow by (cases "running (cx_group s)") auto
    then have "running g = Some l" "waits g = insert t (waits (cx_group s))"
      "\<And>u. g_result G u g = (if u = t then None else g_result G u (cx_group s))"
      using Do_busy [OF l, of t] follow by auto
    moreover have "l \<noteq> t" using at l follow by (auto simp: group_ok_def)
    ultimately show ?thesis using follow l
      by (auto intro!: goto [where g = g] simp: group_ok_def split: option.splits)
  next
    case (return r b)
    have r: "running (cx_group s) = Some t" "b = cx_began s" using in_call_running [OF assms(3), of t] return by auto
    have f: "fresh (effectiveTTL ttl) L r b" using call_inv_at [OF assms(2), of t] return by simp
    then show ?thesis using return r return_idle [OF r(1)] return_result [OF r(1)]
      by (auto intro!: goto [where g = "g_return G t r (cx_group s)"] simp: group_ok_def split: option.splits)
  next
    case (result b r)
    then show ?thesis using at by (auto intro!: goto intro: group_ok_idle)
  qed (use at in \<open>auto intro!: goto intro: group_ok_idle group_ok_call group_ok_more\<close>)
qed

lemma inv_step:
  assumes "inv ttl tr s" and "step G ttl t s ev s'"
  shows "inv ttl (tr @ [ev]) s'"
proof -
  have "fresh (effectiveTTL ttl) (published (tr @ [ev])) r b" if "Served u r b \<in> set (tr @ [ev])" for u r b
  proof (cases "Served u r b \<in> set tr")
    case True
    then have "fresh (effectiveTTL ttl) (published tr) r b" using assms(1) by (auto simp: inv_def)
    then show ?thesis by (rule fresh_mono) simp
  next
    case False
    then have ev: "ev = Served u r b" using that by simp
    from assms(2) show ?thesis
    proof cases
      case (hit snap)
      then show ?thesis using assms(1) ev by (auto simp: inv_def intro: cache_inv_fresh)
    next
      case (result b' r')
      then show ?thesis using assms(1) ev group_inv_at [of ttl "published tr" s t]
        by (auto simp: inv_def group_ok_def)
    qed (use ev in auto)
  qed
  then show ?thesis
    using assms cache_step [OF assms(2)] call_step [OF assms(2)] group_step [OF assms(2)] by (auto simp: inv_def)
qed

lemma inv_tick:
  assumes "inv ttl tr s" and "cx_now s \<le> now"
  shows "inv ttl tr (s\<lparr>cx_now := now\<rparr>)"
  using assms call_ok_later [OF _ assms(2)] by (fastforce simp: inv_def cache_inv_def call_inv_def group_inv_def)

lemma inv_initial:
  assumes "running g = None" and "zero_time \<le> now"
  shows "inv ttl [] (initial g now)"
  using assms by (simp add: inv_def cache_inv_def call_inv_def group_inv_def group_ok_def initial_def emptyCache_def)

lemma run_inv:
  assumes "running g = None" and "zero_time \<le> now" and "run G ttl (initial g now) tr s"
  shows "inv ttl tr s"
  using assms(3)
  by induction (auto intro: inv_initial [OF assms(1,2)] inv_step inv_tick)

text \<open>A request that is not done has a step, or waits for the one that leads, which has a step.\<close>

lemma progress_alone:
  assumes "\<And>r. cx_pc s t \<noteq> PDone r" "\<And>b. cx_pc s t \<noteq> PWait b"
  shows "\<exists>ev s'. step G ttl t s ev s'"
proof (cases "cx_pc s t")
  case PGet
  then show ?thesis by (cases "cache_get (cx_now s) (cx_cache s)") (auto intro: step.intros)
next
  case PDo
  then show ?thesis by (cases "g_Do G t (cx_group s)"; cases "fst (g_Do G t (cx_group s))") (auto intro: step.intros)
next
  case (PRecheck b)
  then show ?thesis by (cases "cache_get (cx_now s) (cx_cache s)") (auto intro: step.intros)
qed (use assms in \<open>auto intro: step.intros\<close>)

lemma progress:
  assumes "group_inv ttl L s" and "\<And>r. cx_pc s t \<noteq> PDone r"
  shows "\<exists>u ev s'. step G ttl u s ev s'"
proof (cases "\<exists>b. cx_pc s t = PWait b \<and> g_result G t (cx_group s) = None")
  case True
  then obtain l where "running (cx_group s) = Some l"
    using group_inv_at [OF assms(1), of t] by (auto simp: group_ok_def)
  then have "in_call (cx_pc s l) \<noteq> None"
    using group_inv_at [OF assms(1), of l] by (cases "in_call (cx_pc s l)") (auto simp: group_ok_def)
  then show ?thesis using progress_alone [of s l] by (metis in_call.simps(7,8))
next
  case False
  then show ?thesis using progress_alone [of s t] assms(2) step.result [of s t] by (metis not_None_eq)
qed

end

section \<open>A group in memory\<close>

record mem_group =
  mg_call :: "(nat \<times> nat list) option"
  mg_out :: "nat \<rightharpoonup> outcome"

definition mem_flight :: "mem_group flight_group" where
  "mem_flight = \<lparr>
     g_Do = (\<lambda>t g. case mg_call g of
        None \<Rightarrow> (True, g\<lparr>mg_call := Some (t, []), mg_out := (mg_out g)(t := None)\<rparr>)
      | Some (l, ws) \<Rightarrow> (False, g\<lparr>mg_call := Some (l, t # ws), mg_out := (mg_out g)(t := None)\<rparr>)),
     g_return = (\<lambda>t r g. case mg_call g of
        None \<Rightarrow> g
      | Some (l, ws) \<Rightarrow> \<lparr>mg_call = None, mg_out = (\<lambda>u. if u \<in> set (l # ws) then Some r else mg_out g u)\<rparr>),
     g_result = (\<lambda>t g. mg_out g t)\<rparr>"

definition mem_running :: "mem_group \<Rightarrow> nat option" where
  "mem_running g = map_option fst (mg_call g)"

definition mem_waits :: "mem_group \<Rightarrow> nat set" where
  "mem_waits g = (case mg_call g of None \<Rightarrow> {} | Some (l, ws) \<Rightarrow> set ws)"

definition mem_idle :: mem_group where
  "mem_idle = \<lparr>mg_call = None, mg_out = Map.empty\<rparr>"

interpretation mem_flight: singleflight mem_flight mem_running mem_waits
  by unfold_locales (auto simp: mem_flight_def mem_running_def mem_waits_def split: option.splits)

section \<open>One request\<close>

lemma run_trans:
  assumes "run G ttl s0 tr s" and "run G ttl s tr' s'"
  shows "run G ttl s0 (tr @ tr') s'"
  using assms(2)
proof induction
  case (run_step tr1 s1 t ev s2)
  then show ?case using run.run_step [of G ttl s0 "tr @ tr1" s1 t ev s2] by simp
qed (use assms(1) in \<open>auto intro: run.run_tick\<close>)

lemma step_run: "step G ttl t s ev s' \<Longrightarrow> run G ttl s' tr s'' \<Longrightarrow> run G ttl s (ev # tr) s''"
  using run_trans [of G ttl s "[ev]" s' tr s''] run.run_step [OF run.run_init, of G ttl t s ev s'] by simp

context singleflight
begin

text \<open>The function that \<^verbatim>\<open>Do\<close> runs has returned: the caller gets its result.\<close>

lemma returned_run:
  assumes "cx_pc s t = PReturn r b" and "running (cx_group s) = Some t"
  shows "\<exists>s'. run G ttl s [Internal, Served t r b] s' \<and> cx_pc s' = (cx_pc s)(t := PDone r) \<and> cx_cache s' = cx_cache s \<and>
    running (cx_group s') = None \<and> cx_now s' = cx_now s"
proof -
  let ?s1 = "goto t (PWait b) (s\<lparr>cx_group := g_return G t r (cx_group s)\<rparr>)"
  have "step G ttl t s Internal ?s1" by (rule step.return [OF assms(1)])
  moreover have "step G ttl t ?s1 (Served t r b) (goto t (PDone r) ?s1)"
    by (rule step.result) (simp_all add: return_result [OF assms(2)])
  ultimately have "run G ttl s [Internal, Served t r b] (goto t (PDone r) ?s1)" by (blast intro: step_run run.run_init)
  then show ?thesis using return_idle [OF assms(2)] by - (intro exI conjI, assumption, auto)
qed

text \<open>A request on its own that misses the cache twice comes to the fetch.\<close>

lemma missed_run:
  assumes "cx_pc s t = PStart" and "running (cx_group s) = None"
    and "cache_get (cx_now s) (cx_cache s) = None"
  shows "\<exists>s'. run G ttl s (replicate 4 Internal) s' \<and> cx_pc s' = (cx_pc s)(t := PFetch (cx_now s)) \<and> running (cx_group s') = Some t \<and>
    cx_cache s' = (cx_cache s)\<lparr>cc_ttl := ttl\<rparr> \<and> cx_now s' = cx_now s"
proof -
  let ?s1 = "goto t PGet (s\<lparr>cx_cache := (cx_cache s)\<lparr>cc_ttl := ttl\<rparr>\<rparr>)"
  let ?s2 = "goto t PDo ?s1"
  obtain g where g: "g_Do G t (cx_group s) = (True, g)" "running g = Some t" using Do_free [OF assms(2)] by blast
  let ?s3 = "goto t (PRecheck (cx_now ?s2)) (?s2\<lparr>cx_group := g, cx_began := cx_now ?s2\<rparr>)"
  have m: "cache_get (cx_now s) ((cx_cache s)\<lparr>cc_ttl := ttl\<rparr>) = None" using assms(3) by (simp add: cache_get_None)
  have "step G ttl t s Internal ?s1" by (rule step.set_ttl [OF assms(1)])
  moreover have "step G ttl t ?s1 Internal ?s2" by (rule step.miss) (use m in simp_all)
  moreover have "step G ttl t ?s2 Internal ?s3" by (rule step.lead) (use g in simp_all)
  moreover have "step G ttl t ?s3 Internal (goto t (PFetch (cx_now s)) ?s3)" by (rule step.recheck_miss) (use m in simp_all)
  ultimately have "run G ttl s (replicate 4 Internal) (goto t (PFetch (cx_now s)) ?s3)"
    unfolding numeral_nat replicate.simps by (blast intro: step_run run.run_init)
  then show ?thesis using g(2) by - (intro exI conjI, assumption, auto)
qed

lemma refresh_run:
  assumes "cx_pc s t = PStart" and "running (cx_group s) = None"
    and "cache_get (cx_now s) (cx_cache s) = None"
  shows "\<exists>s'. run G ttl s (replicate 4 Internal @ [Published (cx_now s) snap, Internal, Served t (Inr snap) (cx_now s)]) s' \<and>
    cx_pc s' = (cx_pc s)(t := PDone (Inr snap)) \<and> running (cx_group s') = None \<and>
    cx_cache s' = cache_set (cx_now s) snap ((cx_cache s)\<lparr>cc_ttl := ttl\<rparr>) \<and> cx_now s' = cx_now s"
proof -
  obtain s1 where s1: "run G ttl s (replicate 4 Internal) s1" "cx_pc s1 = (cx_pc s)(t := PFetch (cx_now s))"
      "running (cx_group s1) = Some t" "cx_cache s1 = (cx_cache s)\<lparr>cc_ttl := ttl\<rparr>" "cx_now s1 = cx_now s"
    using missed_run [OF assms] by blast
  let ?s2 = "goto t (PReturn (Inr snap) (cx_now s)) (s1\<lparr>cx_cache := cache_set (cx_now s1) snap (cx_cache s1)\<rparr>)"
  have p: "step G ttl t s1 (Published (cx_now s) snap) ?s2"
    using step.fetch_ok [of s1 t "cx_now s" G ttl snap] s1 by simp
  obtain s3 where "run G ttl ?s2 [Internal, Served t (Inr snap) (cx_now s)] s3" "cx_pc s3 = (cx_pc ?s2)(t := PDone (Inr snap))"
      "cx_cache s3 = cx_cache ?s2" "running (cx_group s3) = None" "cx_now s3 = cx_now ?s2"
    using returned_run [of ?s2 t "Inr snap" "cx_now s" ttl] s1(3) by auto
  then show ?thesis using run_trans [OF s1(1) step_run [OF p]] s1 by - (intro exI conjI, assumption, auto)
qed

end

lemma fetchFresh_cache:
  assumes "fetchFreshClusterData E sch h s = Some (r, s')"
  shows "case r of Inl _ \<Rightarrow> hst_cache s' = hst_cache s
    | Inr snap \<Rightarrow> hst_cache s' = cache_set (env_now E (hst_world s')) snap (hst_cache s)"
  using assms by (auto simp: fetchFreshClusterData_def split: prod.splits sum.splits option.splits)

section \<open>Two refreshes\<close>

text \<open>Request 0 fills the cache at moment 0; request 1 comes when it has just expired.\<close>

definition demo_trace :: "event list" where
  "demo_trace =
     (replicate 4 Internal @ [Published 0 adv_snapshot, Internal, Served 0 (Inr adv_snapshot) 0]) @
     (replicate 4 Internal @ [Published 30000000000 adv_snapshot, Internal, Served 1 (Inr adv_snapshot) 30000000000])"

lemma demo_published: "published demo_trace = [(0, adv_snapshot), (30000000000, adv_snapshot)]"
  by (simp add: demo_trace_def numeral_nat)

lemma demo_refreshes: "\<exists>s. run mem_flight 0 (initial mem_idle 0) demo_trace s"
proof -
  let ?s0 = "initial mem_idle 0" and ?sn = adv_snapshot
  have i: "mem_running mem_idle = None" by (simp add: mem_running_def mem_idle_def)
  then obtain s1 where s1: "run mem_flight 0 ?s0 (replicate 4 Internal @ [Published 0 ?sn, Internal, Served 0 (Inr ?sn) 0]) s1"
      "cx_pc s1 = (\<lambda>_. PStart)(0 := PDone (Inr ?sn))" "mem_running (cx_group s1) = None"
      "cx_cache s1 = cache_set 0 ?sn (emptyCache\<lparr>cc_ttl := 0\<rparr>)" "cx_now s1 = 0"
    using mem_flight.refresh_run [of ?s0 0 0 ?sn] by (auto simp: initial_def cache_get_None emptyCache_def zero_time_def)
  let ?s2 = "s1\<lparr>cx_now := 30000000000\<rparr>"
  have t: "run mem_flight 0 ?s0 (replicate 4 Internal @ [Published 0 ?sn, Internal, Served 0 (Inr ?sn) 0]) ?s2"
    using s1 by (intro run.run_tick) auto
  obtain s3 where "run mem_flight 0 ?s2 (replicate 4 Internal @
      [Published 30000000000 ?sn, Internal, Served 1 (Inr ?sn) 30000000000]) s3"
    using mem_flight.refresh_run [of ?s2 1 0 ?sn] s1
    by (auto simp: cache_get_None effectiveTTL_def defaultCacheTTL_def emptyCache_def)
  then show ?thesis using run_trans [OF t] unfolding demo_trace_def by blast
qed

lemmas demo_group = mem_flight.singleflight_axioms

lemma demo_start: "mem_running mem_idle = None" "zero_time \<le> 0"
  by (simp_all add: mem_running_def mem_idle_def zero_time_def)

section \<open>Properties\<close>

text \<open>C7: however many requests come and however they interleave, two refreshes of the cache are at
  least one TTL apart (30 seconds if none is configured): a request that missed the cache
  before a refresh was published and enters the group after it does not fetch again.\<close>

theorem refresh_once_per_ttl:
  assumes "singleflight G running waits" and "running g = None" and "zero_time \<le> now"
    and "run G CacheTTL (initial g now) tr s"
  shows "sorted_wrt (\<lambda>p q. p + effectiveTTL CacheTTL \<le> q) (map fst (published tr))"
  using singleflight.run_inv [OF assms] by (simp add: singleflight.inv_def [OF assms(1)] cache_inv_def)

theorem refresh_once_per_ttl_witness:
  "\<exists>s. run mem_flight 0 (initial mem_idle 0) demo_trace s \<and> (0 :: int) + effectiveTTL 0 \<le> 30000000000"
proof -
  obtain s where r: "run mem_flight 0 (initial mem_idle 0) demo_trace s" using demo_refreshes by blast
  from refresh_once_per_ttl [OF demo_group demo_start r] r show ?thesis by (auto simp: demo_published)
qed

text \<open>C18: every snapshot that is served is one that a refresh has published, whole, and it had not
  expired at the moment of the request's look into the cache or, if the request came to
  the group, when the flight began that it joined.\<close>

theorem served_fresh:
  assumes "singleflight G running waits" and "running g = None" and "zero_time \<le> now"
    and "run G CacheTTL (initial g now) tr s" and "Served t (Inr snap) b \<in> set tr"
  shows "\<exists>p. Published p snap \<in> set tr \<and> b < p + effectiveTTL CacheTTL"
  using singleflight.run_inv [OF assms(1-4)] assms(5)
  by (fastforce simp: singleflight.inv_def [OF assms(1)] fresh_def in_published)

theorem served_fresh_witness:
  "\<exists>s p. run mem_flight 0 (initial mem_idle 0) demo_trace s \<and> Published p adv_snapshot \<in> set demo_trace \<and>
     30000000000 < p + effectiveTTL 0"
proof -
  obtain s where r: "run mem_flight 0 (initial mem_idle 0) demo_trace s" using demo_refreshes by blast
  have "Served 1 (Inr adv_snapshot) 30000000000 \<in> set demo_trace" by (simp add: demo_trace_def)
  from served_fresh [OF demo_group demo_start r this] r show ?thesis by blast
qed

text \<open>No request is left behind: as long as one is not answered, some request can go on, also
  after errors of the refresh that others wait for.\<close>

lemma never_stuck:
  assumes "singleflight G running waits" and "running g = None" and "zero_time \<le> now"
    and "run G CacheTTL (initial g now) tr s" and "\<And>r. cx_pc s t \<noteq> PDone r"
  shows "\<exists>u ev s'. step G CacheTTL u s ev s'"
  using singleflight.run_inv [OF assms(1-4)] singleflight.progress [OF assms(1) _ assms(5)]
  by (auto simp: singleflight.inv_def [OF assms(1)])

text \<open>Every outcome of \<^verbatim>\<open>fetchFreshClusterData\<close>, with what it does to the cache, is a step of the
  fetch.\<close>

lemma fetch_step:
  assumes "fetchFreshClusterData E sch h s = Some (r, s')" and "cx_pc c t = PFetch b" and "cx_cache c = hst_cache s"
    and "cx_now c = env_now E (hst_world s')"
  shows "\<exists>ev c'. step G ttl t c ev c' \<and> cx_pc c' t = PReturn r b \<and> cx_group c' = cx_group c \<and> cx_cache c' = hst_cache s'"
proof (cases r)
  case (Inl err)
  have "step G ttl t c Internal (goto t (PReturn r b) c)" unfolding Inl by (rule step.fetch_error [OF assms(2)])
  then show ?thesis using fetchFresh_cache [OF assms(1)] assms(3) Inl by - (intro exI conjI, assumption, auto)
next
  case (Inr snap)
  have "step G ttl t c (Published (cx_now c) snap)
      (goto t (PReturn r b) (c\<lparr>cx_cache := cache_set (cx_now c) snap (cx_cache c)\<rparr>))"
    unfolding Inr by (rule step.fetch_ok [OF assms(2)])
  then show ?thesis using fetchFresh_cache [OF assms(1)] assms(3,4) Inr by - (intro exI conjI, assumption, auto)
qed

end
