(* ===== verification/Endpoints.thy ===== *)
theory Endpoints
  imports AdvisorDemo
begin

text \<open>
  Where the advisor finds its services, and the server it runs: the discovery functions and
  \<^verbatim>\<open>setupAdvisorServer\<close> of \<^verbatim>\<open>cmd/main.go\<close>. Listing the Search resources and getting a Route, with
  the dynamic client of the manager, are parameters. Deadlines are not modelled. The paths of the
  server's multiplexer have no trailing slash, so they match exactly; paths are in clean form.
\<close>

section \<open>Discovery\<close>

definition GetNamespace :: "json \<Rightarrow> string" where
  "GetNamespace obj = jstr (jpath obj [''metadata'', ''namespace''])"

record 'w discovery =
  listSearches :: "('w, json list) prog"
  getRoute :: "string \<Rightarrow> string \<Rightarrow> ('w, json) prog"

definition discoverSearchNamespace :: "'w discovery \<Rightarrow> ('w, string) prog" where
  "discoverSearchNamespace D =
     onResult (listSearches D) (\<lambda>r. case r of
       Inl err \<Rightarrow>
         if IsNotFound err then ret DefaultSearchNamespace
         else fail (Errorf ''list Search CRs: %w'' [] (Some err))
     | Inr items \<Rightarrow>
         if length items = 0 then ret DefaultSearchNamespace
         else if length items \<noteq> 1
         then fail (Errorf ''found %d Search CRs; set --search-api-endpoint to select one'' [decimal (length items)] None)
         else ret (GetNamespace (hd items)))"

definition routeHost :: "'w discovery \<Rightarrow> unstr \<Rightarrow> string \<Rightarrow> string \<Rightarrow> ('w, string) prog" where
  "routeHost D U namespace routeName =
     onResult (getRoute D namespace routeName) (\<lambda>r. case r of
       Inl err \<Rightarrow>
         if IsNotFound err \<or> IsForbidden err then ret []
         else fail (Errorf ''get Route %s/%s: %w'' [namespace, routeName] (Some err))
     | Inr obj \<Rightarrow>
         (case NestedString U obj [''spec'', ''host''] of (host, _, err) \<Rightarrow>
            (case err of
               Some e \<Rightarrow> fail (Errorf ''read Route %s/%s spec.host: %w'' [namespace, routeName] (Some e))
             | None \<Rightarrow> ret host)))"

definition discoverSearchAPIEndpoint :: "'w discovery \<Rightarrow> unstr \<Rightarrow> ('w, string) prog" where
  "discoverSearchAPIEndpoint D U =
     andThen (discoverSearchNamespace D) (\<lambda>searchNamespace.
     andThen (routeHost D U searchNamespace ''search-api'') (\<lambda>host.
       if host \<noteq> [] then ret (''https://'' @ host @ ''/searchapi/graphql'')
       else ret (SearchAPIServiceEndpoint searchNamespace)))"

definition discoverThanosEndpoint :: "'w discovery \<Rightarrow> unstr \<Rightarrow> ('w, string) prog" where
  "discoverThanosEndpoint D U =
     andThen (routeHost D U ''open-cluster-management-observability'' ''rbac-query-proxy'') (\<lambda>host.
       if host = [] then ret [] else ret (''https://'' @ host))"

definition resolveThanosEndpoint :: "'w discovery \<Rightarrow> unstr \<Rightarrow> string \<Rightarrow> ('w, string) prog" where
  "resolveThanosEndpoint D U thanosHost =
     (if thanosHost \<noteq> [] then ret thanosHost else discoverThanosEndpoint D U)"

section \<open>The advisor server\<close>

record advisor_flags =
  fl_searchAPIEndpoint :: string
  fl_thanosHost :: string
  fl_advisorAddr :: string
  fl_advisorCacheTTL :: int
  fl_serviceCAPath :: string

definition advisorHandler ::
    "'w discovery \<Rightarrow> unstr \<Rightarrow> rest_Config \<Rightarrow> advisor_flags \<Rightarrow> string \<Rightarrow> (tls_Config \<Rightarrow> tls_Config) option \<Rightarrow> 'w handler" where
  "advisorHandler D U restConfig fl thanosHost tlsOpts =
     \<lparr>h_RestConfig = restConfig, h_SearchAPIEndpoint = fl_searchAPIEndpoint fl,
      h_ResolveSearchAPIEndpoint =
        (if fl_searchAPIEndpoint fl = [] then Some (discoverSearchAPIEndpoint D U) else None),
      h_ThanosHost = thanosHost, h_ServiceCAPath = fl_serviceCAPath fl, h_CacheTTL = fl_advisorCacheTTL fl,
      h_TLSOpts = tlsOpts\<rparr>"

text \<open>The handler of \<^verbatim>\<open>/health\<close> makes a client of its own for each request.\<close>

definition healthHandler ::
    "('w, 'tc, 'rt, 'c) advisor_env \<Rightarrow> 'w handler \<Rightarrow> api_request \<Rightarrow> 'w hstate \<Rightarrow> reply \<times> 'w hstate" where
  "healthHandler E h r s =
     (if api_Method r \<noteq> ''GET'' then (http_Error (BText ''method not allowed'') 405, s)
      else case CheckHealth (env_net E) (env_pem E) (env_json E) (obsClient h) (hst_world s, None) of
        (Inl err, (w, _)) \<Rightarrow> (http_Error (BErr err) 503, s\<lparr>hst_world := w\<rparr>)
      | (Inr _, (w, _)) \<Rightarrow> (\<lparr>rp_StatusCode = 200, rp_Body = BText ''ok''\<rparr>, s\<lparr>hst_world := w\<rparr>))"

definition advisorMux ::
    "('w, 'tc, 'rt, 'c) advisor_env \<Rightarrow> schedule \<Rightarrow> 'w handler \<Rightarrow> string \<Rightarrow> api_request \<Rightarrow> 'w hstate \<Rightarrow>
     (reply \<times> 'w hstate) option" where
  "advisorMux E sch h path r s =
     (if path = ''/api/v1/migration-targets'' then ServeHTTP E sch h r s
      else if path = ''/health'' then Some (healthHandler E h r s)
      else Some (http_Error (BText ''404 page not found'') 404, s))"

section \<open>Which service is asked\<close>

text \<open>The namespace of Search, given the list of its resources.\<close>

definition search_namespace :: "goerr + json list \<Rightarrow> string \<Rightarrow> bool" where
  "search_namespace r ns \<longleftrightarrow>
     (\<exists>item. r = Inr [item] \<and> ns = GetNamespace item) \<or>
     ((r = Inr [] \<or> (\<exists>e. r = Inl e \<and> IsNotFound e)) \<and> ns = ''open-cluster-management'')"

lemma discoverSearchNamespace_ok:
  "discoverSearchNamespace D w = (Inr ns, w') \<longleftrightarrow> (\<exists>r. listSearches D w = (r, w') \<and> search_namespace r ns)"
proof -
  obtain r w1 where l: "listSearches D w = (r, w1)" by (cases "listSearches D w")
  show ?thesis
  proof (cases r)
    case (Inl e)
    then show ?thesis using l
      by (auto simp: discoverSearchNamespace_def search_namespace_def prog_defs DefaultSearchNamespace_def)
  next
    case (Inr items)
    consider "items = []" | x where "items = [x]" | x y zs where "items = x # y # zs"
      by (cases items rule: remdups_adj.cases) auto
    then show ?thesis using l Inr
      by cases (auto simp: discoverSearchNamespace_def search_namespace_def prog_defs DefaultSearchNamespace_def)
  qed
qed

text \<open>The host of a Route; empty if it has none, or is not there or not accessible.\<close>

definition route_host :: "goerr + json \<Rightarrow> string" where
  "route_host r = (case r of Inl _ \<Rightarrow> [] | Inr obj \<Rightarrow> jstr (jpath obj [''spec'', ''host'']))"

context unstructured_lib
begin

lemma routeHost_ok:
  assumes "routeHost D U ns name w = (Inr host, w')"
  shows "\<exists>r. getRoute D ns name w = (r, w') \<and> host = route_host r"
proof -
  obtain r w1 where g: "getRoute D ns name w = (r, w1)" by (cases "getRoute D ns name w")
  show ?thesis
  proof (cases r)
    case (Inl e)
    then show ?thesis using assms g by (auto simp: routeHost_def prog_defs route_host_def split: if_splits)
  next
    case (Inr obj)
    then show ?thesis using assms g str_value [of obj "[''spec'', ''host'']"]
      by (auto simp: routeHost_def prog_defs route_host_def split: prod.splits option.splits)
  qed
qed

end

section \<open>Properties\<close>

text \<open>C40: without a configured endpoint every refresh asks the hub where Search is, and what it
  asks then is the Route \<^verbatim>\<open>search-api\<close> in the namespace of the only Search resource (the default
  namespace if there is none) or, without an accessible Route, the service of that namespace,
  over HTTPS in both cases; several Search resources are an error. With a configured
  endpoint the hub is not asked.\<close>

theorem search_endpoint_discovered:
  assumes "unstructured_lib U"
    and "resolveEndpoint (advisorHandler D U cfg fl th opts) w = (Inr ep, w')"
  shows "if fl_searchAPIEndpoint fl \<noteq> [] then ep = fl_searchAPIEndpoint fl \<and> w' = w
    else \<exists>r ns w1 route. listSearches D w = (r, w1) \<and> search_namespace r ns \<and>
      getRoute D ns ''search-api'' w1 = (route, w') \<and>
      search_endpoint (searchClient (advisorHandler D U cfg fl th opts) ep) =
        ''https://'' @ (if route_host route \<noteq> [] then route_host route @ ''/searchapi/graphql''
          else ''search-search-api.'' @ ns @ ''.svc:4010/searchapi/graphql'')"
proof (cases "fl_searchAPIEndpoint fl = []")
  case True
  then have d: "discoverSearchAPIEndpoint D U w = (Inr ep, w')"
    using assms(2) by (auto simp: resolveEndpoint_def advisorHandler_def prog_defs split: prod.splits sum.splits)
  obtain ns w1 where n: "discoverSearchNamespace D w = (Inr ns, w1)"
      "andThen (routeHost D U ns ''search-api'') (\<lambda>host. if host \<noteq> [] then ret (''https://'' @ host @ ''/searchapi/graphql'')
         else ret (SearchAPIServiceEndpoint ns)) w1 = (Inr ep, w')"
    by (rule andThen_InrE [OF d [unfolded discoverSearchAPIEndpoint_def]])
  then obtain host w2 where h: "routeHost D U ns ''search-api'' w1 = (Inr host, w2)"
      "(if host \<noteq> [] then ret (''https://'' @ host @ ''/searchapi/graphql'') else ret (SearchAPIServiceEndpoint ns)) w2 = (Inr ep, w')"
    by (elim andThen_InrE)
  then have ep: "ep = (if host \<noteq> [] then ''https://'' @ host @ ''/searchapi/graphql'' else SearchAPIServiceEndpoint ns)" "w2 = w'"
    by (cases "host = []"; simp add: ret_def)+
  obtain r where r: "listSearches D w = (r, w1)" "search_namespace r ns" using n(1) [unfolded discoverSearchNamespace_ok] by blast
  obtain route where g: "getRoute D ns ''search-api'' w1 = (route, w')" "host = route_host route"
    using unstructured_lib.routeHost_ok [OF assms(1) h(1)] ep(2) by blast
  have "search_endpoint (searchClient (advisorHandler D U cfg fl th opts) ep) = ''https://'' @
      (if route_host route \<noteq> [] then route_host route @ ''/searchapi/graphql''
       else ''search-search-api.'' @ ns @ ''.svc:4010/searchapi/graphql'')"
    using ep(1) g(2) by (simp add: search_endpoint_def searchClient_def SearchAPIServiceEndpoint_def)
  with True r g(1) show ?thesis by (simp only: simp_thms if_False) blast
qed (use assms(2) in \<open>auto simp: resolveEndpoint_def advisorHandler_def prog_defs\<close>)

definition demo_search :: json where
  "demo_search = JObj [(''metadata'', JObj [(''name'', JStr ''search''), (''namespace'', JStr ''acm'')])]"

definition demo_discovery :: "mcv_mem discovery" where
  "demo_discovery = \<lparr>listSearches = ret [demo_search], getRoute = (\<lambda>ns name. fail (ApiStatus NotFound name))\<rparr>"

definition demo_flags :: advisor_flags where
  "demo_flags = \<lparr>fl_searchAPIEndpoint = [], fl_thanosHost = [], fl_advisorAddr = '':8082'', fl_advisorCacheTTL = 0,
     fl_serviceCAPath = []\<rparr>"

theorem search_endpoint_discovered_witness:
  "resolveEndpoint (advisorHandler demo_discovery unstr_ref demo_cfg demo_flags [] None) (demo_mcv (\<lambda>_. None)) =
     (Inr ''https://search-search-api.acm.svc:4010/searchapi/graphql'', demo_mcv (\<lambda>_. None)) \<and>
   search_endpoint (searchClient (advisorHandler demo_discovery unstr_ref demo_cfg demo_flags [] None)
     ''https://search-search-api.acm.svc:4010/searchapi/graphql'') = ''https://search-search-api.acm.svc:4010/searchapi/graphql''"
proof -
  have r: "resolveEndpoint (advisorHandler demo_discovery unstr_ref demo_cfg demo_flags [] None) (demo_mcv (\<lambda>_. None)) =
     (Inr ''https://search-search-api.acm.svc:4010/searchapi/graphql'', demo_mcv (\<lambda>_. None))"
    by (simp add: resolveEndpoint_def advisorHandler_def demo_flags_def discoverSearchAPIEndpoint_def discoverSearchNamespace_def
        routeHost_def demo_discovery_def prog_defs api_err_defs GetNamespace_def demo_search_def SearchAPIServiceEndpoint_def)
  from search_endpoint_discovered [OF unstr_ref.unstructured_lib_axioms r] r show ?thesis
    by (auto simp: demo_flags_def demo_discovery_def search_namespace_def GetNamespace_def demo_search_def
        route_host_def prog_defs)
qed

text \<open>The service CA cannot be disabled: an empty path stands for the default path in both clients.\<close>

lemma empty_service_ca_path:
  assumes "fl_serviceCAPath fl = []"
  shows "obs_serviceCAPath (obsClient (advisorHandler D U cfg fl th opts)) = DefaultServiceCAPath"
    and "search_serviceCAPath (searchClient (advisorHandler D U cfg fl th opts) ep) = DefaultServiceCAPath"
  using assms by (simp_all add: obs_serviceCAPath_def obsClient_def search_serviceCAPath_def searchClient_def advisorHandler_def)

end
