(* ===== verification/Startup.thy ===== *)
theory Startup
  imports Endpoints
begin

text \<open>
  The start of the controller: \<^verbatim>\<open>cmd/main.go\<close> and \<^verbatim>\<open>cmd/tls_profile.go\<close>.

  The manager, the certificate watchers, the builders of the controllers and the TLS library are
  parameters, gathered in the record \<open>boot\<close>. A step that fails ends the process with exit code 1:
  the error of the program is that exit. Slices of TLS options are lists: appending to one does
  not change another. Logging, signals and timeouts are not modelled.
\<close>

section \<open>Waiting for Forklift\<close>

text \<open>What the \<^verbatim>\<open>select\<close> receives: the end of the context, or a tick with the error of the mapping.\<close>

datatype wait_event = ContextDone | Tick "goerr option"

datatype wait_state = Polling | Returned | Exited nat

fun waitForForkliftCRDsAndRestart :: "wait_event list \<Rightarrow> wait_state" where
  "waitForForkliftCRDsAndRestart [] = Polling"
| "waitForForkliftCRDsAndRestart (ContextDone # es) = Returned"
| "waitForForkliftCRDsAndRestart (Tick err # es) = (if err = None then Exited 0 else waitForForkliftCRDsAndRestart es)"

lemma wait_exits_iff:
  "waitForForkliftCRDsAndRestart es = Exited n \<longleftrightarrow>
     n = 0 \<and> (\<exists>failed rest. es = map (\<lambda>e. Tick (Some e)) failed @ Tick None # rest)"
proof (induction es rule: waitForForkliftCRDsAndRestart.induct)
  case (3 err es)
  have "(\<exists>failed rest. Tick err # es = map (\<lambda>e. Tick (Some e)) failed @ Tick None # rest) \<longleftrightarrow>
      err = None \<or> (\<exists>failed rest. es = map (\<lambda>e. Tick (Some e)) failed @ Tick None # rest)" (is "?l = ?r")
  proof
    show ?r if ?l using that by (auto simp: Cons_eq_append_conv map_eq_Cons_conv)
    show ?l if ?r
    proof (cases err)
      case None
      then show ?thesis by (intro exI [of _ "[]"] exI [of _ es]) simp
    next
      case (Some e)
      then obtain failed rest where "es = map (\<lambda>e. Tick (Some e)) failed @ Tick None # rest" using \<open>?r\<close> by auto
      then show ?thesis using Some by (intro exI [of _ "e # failed"]) auto
    qed
  qed
  then show ?case using 3 by auto
qed (auto simp: Cons_eq_append_conv)

section \<open>The TLS profile\<close>

type_synonym tls_opt = "tls_Config \<Rightarrow> tls_Config"

record 'p tls_lib =
  GetTLSProfileSpec_nil :: "goerr + 'p"
  TLSProfileIntermediate :: 'p
  NewTLSConfigFromProfile :: "'p \<Rightarrow> tls_opt \<times> string list"





section \<open>Flags and options\<close>

record main_flags =
  mf_metricsAddr :: string
  mf_metricsCertPath :: string
  mf_metricsCertName :: string
  mf_metricsCertKey :: string
  mf_webhookCertPath :: string
  mf_webhookCertName :: string
  mf_webhookCertKey :: string
  mf_enableLeaderElection :: bool
  mf_enableWebhook :: bool
  mf_probeAddr :: string
  mf_secureMetrics :: bool
  mf_enableHTTP2 :: bool
  mf_advisor :: advisor_flags


definition disableHTTP2 :: tls_opt where
  "disableHTTP2 c = c\<lparr>tls_NextProtos := [''http/1.1'']\<rparr>"

definition presentCertificate :: "string \<times> string \<Rightarrow> tls_opt" where
  "presentCertificate files c = c\<lparr>tls_GetCertificate := Some files\<rparr>"

record metrics_Options =
  mo_BindAddress :: string
  mo_SecureServing :: bool
  mo_TLSOpts :: "tls_opt list"
  mo_Authorization :: bool

record mgr_Options =
  mg_Metrics :: metrics_Options
  mg_HealthProbeBindAddress :: string
  mg_LeaderElection :: bool

text \<open>Timeouts are in seconds.\<close>

record http_Server =
  srv_Addr :: string
  srv_ReadTimeout :: nat
  srv_ReadHeaderTimeout :: nat
  srv_WriteTimeout :: nat
  srv_IdleTimeout :: nat

datatype 'w runnable =
    WebhookServer "tls_opt list" nat
  | AdvisorServer http_Server "'w handler"
  | CertWatcher "string \<times> string"

record ('w, 'p) boot =
  bt_GetConfig :: "('w, rest_Config) prog"
  bt_newClient :: "('w, unit) prog"
  bt_FetchAPIServerTLSProfile :: "('w, 'p) prog"
  bt_tls :: "'p tls_lib"
  bt_Join :: "string \<Rightarrow> string \<Rightarrow> string"
  bt_certwatcher_New :: "string \<times> string \<Rightarrow> ('w, unit) prog"
  bt_NewManager :: "mgr_Options \<Rightarrow> ('w, unit) prog"
  bt_dynamic_NewForConfig :: "('w, unit) prog"
  bt_discovery :: "'w discovery"
  bt_unstr :: unstr
  bt_setupManagedCluster :: "('w, unit) prog"
  bt_setupPlan :: "('w, unit) prog"
  bt_goWaitForForklift :: "'w \<Rightarrow> 'w"
  bt_Add :: "'w runnable \<Rightarrow> ('w, unit) prog"
  bt_Register :: "string \<Rightarrow> 'w \<Rightarrow> 'w"
  bt_watchTLSProfile :: "'p \<Rightarrow> ('w, unit) prog"
  bt_AddHealthzCheck :: "string \<Rightarrow> ('w, unit) prog"
  bt_AddReadyzCheck :: "string \<Rightarrow> ('w, unit) prog"
  bt_Start :: "('w, unit) prog"


section \<open>Setting up\<close>

definition webhookFiles :: "('w, 'p) boot \<Rightarrow> main_flags \<Rightarrow> string \<times> string" where
  "webhookFiles B fl = (bt_Join B (mf_webhookCertPath fl) (mf_webhookCertName fl),
     bt_Join B (mf_webhookCertPath fl) (mf_webhookCertKey fl))"

definition metricsFiles :: "('w, 'p) boot \<Rightarrow> main_flags \<Rightarrow> string \<times> string" where
  "metricsFiles B fl = (bt_Join B (mf_metricsCertPath fl) (mf_metricsCertName fl),
     bt_Join B (mf_metricsCertPath fl) (mf_metricsCertKey fl))"

definition watchesWebhookCert :: "main_flags \<Rightarrow> bool" where
  "watchesWebhookCert fl \<longleftrightarrow> mf_enableWebhook fl \<and> mf_webhookCertPath fl \<noteq> []"

definition serverTLSOpts :: "main_flags \<Rightarrow> tls_opt \<Rightarrow> tls_opt list" where
  "serverTLSOpts fl tlsProfileFunc = (if mf_enableHTTP2 fl then [] else [disableHTTP2]) @ [tlsProfileFunc]"

definition webhookTLSOpts :: "('w, 'p) boot \<Rightarrow> main_flags \<Rightarrow> tls_opt \<Rightarrow> tls_opt list" where
  "webhookTLSOpts B fl tlsProfileFunc = serverTLSOpts fl tlsProfileFunc @
     (if watchesWebhookCert fl then [presentCertificate (webhookFiles B fl)] else [])"

definition metricsServerOptions :: "('w, 'p) boot \<Rightarrow> main_flags \<Rightarrow> tls_opt \<Rightarrow> metrics_Options" where
  "metricsServerOptions B fl tlsProfileFunc = \<lparr>mo_BindAddress = mf_metricsAddr fl, mo_SecureServing = mf_secureMetrics fl,
     mo_TLSOpts = serverTLSOpts fl tlsProfileFunc @
       (if mf_metricsCertPath fl \<noteq> [] then [presentCertificate (metricsFiles B fl)] else []),
     mo_Authorization = mf_secureMetrics fl\<rparr>"




text \<open>The body of the advisor's runnable waits for the end of the context, and then shuts the server
  down, or for the error of the server.\<close>

datatype serve_event = ServeContextDone | ServeError goerr

definition runAdvisorServer :: "('w, unit) prog \<Rightarrow> serve_event \<Rightarrow> ('w, unit) prog" where
  "runAdvisorServer shutdown ev = (case ev of ServeContextDone \<Rightarrow> shutdown | ServeError err \<Rightarrow> fail err)"



section \<open>What has been set up when the manager starts\<close>



section \<open>A manager in memory\<close>







section \<open>Properties\<close>



text \<open>With a TLS profile that leaves protocols and certificates alone, both servers speak HTTP/1.1 only
  unless HTTP/2 is enabled, keep what the profile sets and present their own certificate.\<close>

lemma servers_tls:
  assumes "\<And>c. tls_NextProtos (f c) = tls_NextProtos c" and "\<not> mf_enableHTTP2 fl"
  shows "tls_NextProtos (applyTLSOpts (map Some (webhookTLSOpts B fl f)) c) = [''http/1.1'']"
    and "tls_NextProtos (applyTLSOpts (map Some (mo_TLSOpts (metricsServerOptions B fl f))) c) = [''http/1.1'']"
    and "watchesWebhookCert fl \<Longrightarrow> tls_GetCertificate (applyTLSOpts (map Some (webhookTLSOpts B fl f)) c) = Some (webhookFiles B fl)"
    and "tls_MinVersion (applyTLSOpts (map Some (webhookTLSOpts B fl f)) c) = tls_MinVersion (f (disableHTTP2 c))"
  using assms by (simp_all add: applyTLSOpts_def webhookTLSOpts_def metricsServerOptions_def serverTLSOpts_def disableHTTP2_def
      presentCertificate_def)

end
