(* ===== verification/Spec2Isabelle.thy ===== *)
theory Spec2Isabelle
  imports CaCertProps Quantity ManagedClusterProps PlanController HandlerProps SnapshotRefresh Startup
begin

text \<open>
  A verification development for \<^verbatim>\<open>mtv-integrations\<close>, the controller that connects a hub of Open
  Cluster Management with the Migration Toolkit for Virtualization (Forklift), and that advises
  where a virtual machine can be migrated.

  \<^bold>\<open>Parts and how they interact.\<close> One process (\<^verbatim>\<open>cmd/main.go\<close>) runs, under a controller manager:
  \<^item> the ManagedCluster reconciler (\<^verbatim>\<open>controllers/managedcluster_controller.go\<close>): for every managed
    cluster with the label it makes a ManagedServiceAccount, a ClusterPermission, a provider secret
    with the token and CA bundle of the cluster, and a Forklift Provider; a finalizer guards their
    deletion. The CA bundle is merged by \<^verbatim>\<open>controllers/cacert.go\<close>;
  \<^item> the Plan reconciler (\<^verbatim>\<open>controllers/plan/plan_controller.go\<close>), which makes a Plan the owner of its
    network and storage maps;
  \<^item> the admission webhook for Plans (\<^verbatim>\<open>webhook/plan_webhook.go\<close>), which reads the UserPermissions of the
    requester with an impersonated client;
  \<^item> the migration advisor (\<^verbatim>\<open>controllers/migrationadvisor\<close>), an HTTP server: \<^verbatim>\<open>rbac.go\<close> authorizes the
    caller, \<^verbatim>\<open>vm_fetcher.go\<close> reads the VM through ManagedClusterViews, \<^verbatim>\<open>search_client.go\<close> and
    \<^verbatim>\<open>observability_client.go\<close> fetch the storage classes and metrics of all clusters over the client
    of \<^verbatim>\<open>httpclient.go\<close>, \<^verbatim>\<open>scorer.go\<close> ranks the clusters, and \<^verbatim>\<open>handler.go\<close> composes them, with a
    cache that concurrent requests share.

  \<^bold>\<open>Theories.\<close>
  \<^item> \<open>Prelude\<close>: errors as values (\<open>goerr\<close>, with the reason of an API status and wrapping by \<^verbatim>\<open>%w\<close>), the
    programs \<open>('w, 'a) prog\<close> (a state of the world in, an error or value and a state out) with a
    small Hoare logic, strings, JSON values. \<open>GoFloat\<close>: 64-bit floats, rounding as a parameter with its
    laws. \<open>Unstructured\<close>: the accessors of unstructured objects. \<open>GoJson\<close>: decoding into Go structs.
  \<^item> \<open>Payloads\<close> (\<^verbatim>\<open>payloads.go\<close>), \<open>Hub\<close> (the API server: the record \<open>mc_api\<close>, its laws as locales and a
    hub in memory that satisfies them), \<open>ManagedClusterController\<close> (one definition per function of the
    reconciler) and \<open>ManagedClusterProps\<close>: the finalizer invariant over all reachable states by rule
    induction over a step relation with faults, cleanup, isolation of clusters, the goal state reached
    without faults and kept, the order of the steps.
  \<^item> \<open>CaCert\<close>, \<open>PemRef\<close>, \<open>CaCertProps\<close>: PEM bundles as bytes; the merge as union, its fixed point,
    encoding and parsing back. \<open>PemRef\<close> is an implementation of PEM that interprets the
    locale of the library.
  \<^item> \<open>Webhook\<close>: the exact admission rule, and that an admitted plan was granted to the requester.
  \<^item> \<open>PlanController\<close>: the owner references that are written, and that nothing else changes.
  \<^item> \<open>ApiTypes\<close> (\<^verbatim>\<open>api/types.go\<close>), \<open>Quantity\<close> (\<^verbatim>\<open>util.go\<close>), \<open>Scorer\<close> and \<open>ScorerProps\<close>: which clusters are
    candidates, what they report, bounds and order of the scores, and what the order of the iteration
    may change (the places of tied candidates).
  \<^item> \<open>Rbac\<close>: an authorization means a permission read with the caller's token.
  \<^item> \<open>VmFetcher\<close>, \<open>VmFetcherProps\<close>, \<open>VmFetcherLive\<close>: the goroutines that resolve claims, interleaved by a
    schedule; the result for every interleaving on a hub without faults; on a hub whose calls may fail,
    that a view is left only when a create or a delete failed with an open outcome.
  \<^item> \<open>HttpClient\<close>: which certificates the client trusts. \<open>Search\<close>, \<open>SearchProps\<close>: the pagination ends and
    is complete against a server that honours it, and never ends against one that does not.
    \<open>Observability\<close>, \<open>ObservabilityProps\<close>: the merged metrics refine a declarative view of the samples.
  \<^item> \<open>Handler\<close>, \<open>HandlerProps\<close>: one request from end to end: authorization first, errors by priority, the
    recommendation. \<open>AdvisorDemo\<close>: an advisor in memory on which the witnesses run.
    \<open>SnapshotRefresh\<close>: concurrent requests as a step relation over the cache and the group of calls;
    invariants by rule induction; every outcome of the modelled fetch is one of its steps.
  \<^item> \<open>Endpoints\<close>, \<open>Startup\<close>: endpoint discovery, the server and its paths, and \<^verbatim>\<open>main\<close> up to the exit code.

  \<^bold>\<open>State and operations.\<close> A struct is a record with the fields of the source (a prefix keeps names
  apart), an enumeration a datatype, \<^verbatim>\<open>int64\<close> a 64-bit word, a map a partial function, a nil map or
  pointer an option where the program tells it from an empty one. An early return with an error is the
  left value of a sum. Clients and libraries that are not in the repository are records of operations
  and arguments of the definitions; what is assumed of them is a locale, interpreted by an
  implementation in memory, so that no assumption is vacuous. What the Go runtime may choose is an
  argument too: the order of a range over a map, the schedule of goroutines, the permutation of an
  unstable sort; the properties hold for all of them. The tasks of an \<^verbatim>\<open>errgroup\<close> write to places of their
  own and are run one after the other in the order in which they complete; the group returns the first
  error, as its documentation says. The two branches of a request are run in either order, not
  interleaved. What other requests do while one waits for the group of calls is an argument of the
  sequential handler (\<open>env_Do\<close>); the group itself is modelled in \<open>SnapshotRefresh\<close>.

  \<^bold>\<open>Loops and fuel.\<close> Loops over lists are recursion on the list. The PEM loops have fuel: one more than
  the length of the input, enough because every round consumes at least one byte. The loop over the pages
  of Search has no bound in the code and is a partial function: not returning is the value
  \<^const>\<open>None\<close>, both cases are proved. Waiting for an event is a function of the list of events received.

  \<^bold>\<open>Not modelled.\<close> Logs, deadlines and cancellation (a failed task of a group does not stop the
  others), panics (of the function passed to \<^verbatim>\<open>Do\<close> too), stale reads of the informer cache and the
  work queue of controller-runtime (a reconciler is called for a name, in any order and any number of
  times), the byte parser of JSON (a parameter), rounding of floats beyond its laws, the registration of
  schemes, flag parsing and signals, the empty methods of \<^verbatim>\<open>noCopy\<close>. Tests, charts, manifests and
  the add-on policies are not Go code of the program.
\<close>

end
